(* ===== verification/Prelude.thy ===== *)
theory Prelude
  imports Complex_Main
begin

text \<open>
  Shared vocabulary of the subsampling development: the error values that model the
  exceptions raised by \<open>src/chrispnet/modules/encoder/prenet/subsampling.py\<close>
  (Python's \<open>ValueError\<close> and \<open>ZeroDivisionError\<close>, PyTorch's \<open>RuntimeError\<close>),
  the shapes of 3-D and 4-D tensors, Python's truncating \<open>int()\<close> cast on a
  rational value, integer division rounding up (\<open>ceil_div\<close>), the floor of the base-2
  logarithm (\<open>ilog2\<close>), and the arithmetic facts about floors, ceilings and divisions
  that the component theories share. The collection \<open>div_simps\<close> gathers the rewrite
  rules that turn the rational floor/ceiling computations of the source into integer
  divisions.
\<close>

named_theorems div_simps "rewrite rules from rational floors and ceilings to integer division"
named_theorems eval_simps "rules that evaluate the model on concrete numerals"

section \<open>Errors and shapes\<close>

text \<open>
  Every exception the modelled code can raise becomes a value \<open>Inl e\<close> of the result
  type \<open>error + 'a\<close>. The string argument is the message the source passes, where the
  source writes one.
\<close>

datatype error =
    ValueError string
  | ZeroDivisionError
  | RuntimeError string

type_synonym 'a result = "error + 'a"

text \<open>Sizes of tensors: \<open>(B, T, D)\<close> for a batch of sequences, \<open>(B, C, H, W)\<close> for an image batch.\<close>

type_synonym shape3 = "nat \<times> nat \<times> nat"
type_synonym shape4 = "nat \<times> nat \<times> nat \<times> nat"

section \<open>Python and PyTorch arithmetic\<close>

text \<open>
  \<open>int(x)\<close> of a float and \<open>Tensor.to(dtype=torch.int)\<close> truncate towards zero.
  Floating-point values are modelled as rationals (see the root theory for the range in
  which this is exact).
\<close>

definition py_int :: "rat \<Rightarrow> int" where
  "py_int x = (if x < 0 then \<lceil>x\<rceil> else \<lfloor>x\<rfloor>)"

text \<open>Integer division rounding towards plus infinity, as \<open>-((-a) // b)\<close> in Python.\<close>

definition ceil_div :: "int \<Rightarrow> int \<Rightarrow> int" where
  "ceil_div a b = - ((- a) div b)"

text \<open>The floor of the base-2 logarithm of a positive number: \<open>int(math.log(n, 2))\<close>.\<close>

fun ilog2 :: "nat \<Rightarrow> nat" where
  "ilog2 n = (if n < 2 then 0 else Suc (ilog2 (n div 2)))"

declare ilog2.simps [simp del]

text \<open>Halving a size, rounding up: what one stride-2 stage of either convolutional
  strategy does to a spatial size.\<close>

definition half_up :: "nat \<Rightarrow> nat" where
  "half_up n = (n + 1) div 2"

section \<open>Floors, ceilings and divisions\<close>

lemma py_int_of_int [simp]: "py_int (of_int k) = k"
  by (simp add: py_int_def)

lemma py_int_nonneg: "0 \<le> x \<Longrightarrow> py_int x = \<lfloor>x\<rfloor>"
  by (simp add: py_int_def)

lemma of_int_bounds:
  "0 \<le> x \<and> x \<le> int n \<Longrightarrow> 0 \<le> (of_int x :: 'a::linordered_idom) \<and> of_int x \<le> (of_nat n :: 'a)"
  by (metis of_int_0_le_iff of_int_le_iff of_int_of_nat_eq)

lemma floor_of_int_div [div_simps]:
  "\<lfloor>(of_int a :: 'a::floor_ceiling) / of_int b\<rfloor> = a div b"
  by (rule floor_divide_of_int_eq)

lemma ceiling_of_int_div [div_simps]:
  "\<lceil>(of_int a :: 'a::floor_ceiling) / of_int b\<rceil> = ceil_div a b"
  by (metis ceiling_def floor_divide_of_int_eq minus_divide_left of_int_minus ceil_div_def)

lemma floor_of_int_div_plus [div_simps]:
  "\<lfloor>(of_int a :: 'a::floor_ceiling) / of_int b + of_int c\<rfloor> = a div b + c"
  by (simp add: floor_divide_of_int_eq)

lemma ceiling_of_int_div_plus [div_simps]:
  "\<lceil>(of_int a :: 'a::floor_ceiling) / of_int b + of_int c\<rceil> = ceil_div a b + c"
  by (simp add: ceiling_of_int_div)

lemma floor_numeral_div [eval_simps]:
  "\<lfloor>(numeral a :: 'a::floor_ceiling) / numeral b\<rfloor> = numeral a div numeral b"
  using floor_divide_of_int_eq [where 'a = 'a, of "numeral a" "numeral b"] by simp

lemma ceiling_numeral_div [eval_simps]:
  "\<lceil>(numeral a :: 'a::floor_ceiling) / numeral b\<rceil> = ceil_div (numeral a) (numeral b)"
  using ceiling_of_int_div [where 'a = 'a, of "numeral a" "numeral b"] by simp

lemma ceil_div_ceil_div:
  assumes "0 < a" "0 < b"
  shows "ceil_div (ceil_div n a) b = ceil_div n (a * b)"
  using assms by (simp add: ceil_div_def zdiv_zmult2_eq)

lemma ceil_div_mono:
  assumes "x \<le> y" "0 < b"
  shows "ceil_div x b \<le> ceil_div y b"
proof -
  have "(- y) div b \<le> (- x) div b"
    using assms by (simp add: zdiv_mono1)
  then show ?thesis by (simp add: ceil_div_def)
qed

lemma ceil_div_nonneg: "0 \<le> x \<Longrightarrow> 0 < b \<Longrightarrow> 0 \<le> ceil_div x b"
  using ceil_div_mono [of 0 x b] by (simp add: ceil_div_def)

lemma ceil_div_pos: "0 < x \<Longrightarrow> 0 < b \<Longrightarrow> 0 < ceil_div x b"
  by (simp add: ceil_div_def div_neg_pos_less0)

lemma ceil_div_dvd: "b dvd a \<Longrightarrow> ceil_div a b = a div b"
proof -
  assume "b dvd a"
  then obtain k where a: "a = b * k" by (elim dvdE)
  show ?thesis
  proof (cases "b = 0")
    case False
    have "(- a) div b = - k"
      using False by (metis a minus_mult_right nonzero_mult_div_cancel_left)
    with False show ?thesis by (simp add: ceil_div_def a)
  qed (simp add: ceil_div_def)
qed

lemma ceil_div_not_dvd: "0 < b \<Longrightarrow> \<not> b dvd a \<Longrightarrow> ceil_div a b = a div b + 1"
  by (simp add: ceil_div_def zdiv_zminus1_eq_if dvd_eq_mod_eq_0)

text \<open>The two stride-2 stages of the source both halve a size, rounding up.\<close>

lemma floor_stage_half [div_simps]: "(n + 2 * 1 - 3) div 2 + 1 = ceil_div n 2"
  by (simp add: ceil_div_def)

lemma ceil_stage_half [div_simps]: "ceil_div (n + 2 * 0 - 2) 2 + 1 = ceil_div n 2"
  by (simp add: ceil_div_def)

lemma int_half_up: "int (half_up n) = ceil_div (int n) 2"
  by (simp add: half_up_def ceil_div_def)

lemma half_up_pos: "0 < n \<Longrightarrow> 0 < half_up n"
  by (simp add: half_up_def)

lemma funpow_half_up_pos: "0 < n \<Longrightarrow> 0 < (half_up ^^ r) n"
  by (induction r) (simp_all add: half_up_pos)

lemma int_funpow_half_up: "int ((half_up ^^ r) n) = ceil_div (int n) (2 ^ r)"
proof (induction r)
  case 0
  then show ?case by (simp add: ceil_div_def)
next
  case (Suc r)
  then show ?case by (simp add: int_half_up ceil_div_ceil_div mult.commute)
qed

lemma ilog2_numeral [eval_simps]:
  "ilog2 (numeral n) = (if numeral n < (2::nat) then 0 else Suc (ilog2 (numeral n div 2)))"
  by (rule ilog2.simps)

lemma ilog2_small [eval_simps]: "ilog2 0 = 0" "ilog2 1 = 0" "ilog2 (Suc 0) = 0"
  by (simp_all add: ilog2.simps)

lemma funpow_numeral [eval_simps]: "(f ^^ numeral n) x = f ((f ^^ pred_numeral n) x)"
  by (simp add: numeral_eq_Suc funpow_swap1)

lemma ilog2_power [simp]: "ilog2 (2 ^ k) = k"
proof (induction k)
  case 0
  then show ?case by (simp add: ilog2.simps)
next
  case (Suc k)
  have "(2::nat) \<le> 2 ^ Suc k" by simp
  then show ?case using Suc by (subst ilog2.simps) simp
qed

lemma ilog2_bounds: "0 < n \<Longrightarrow> 2 ^ ilog2 n \<le> n \<and> n < 2 ^ Suc (ilog2 n)"
proof (induction n rule: ilog2.induct)
  case (1 n)
  show ?case
  proof (cases "n < 2")
    case True
    with "1.prems" show ?thesis by (simp add: ilog2.simps)
  next
    case False
    then have "0 < n div 2" by simp
    with "1.IH" False have "2 ^ ilog2 (n div 2) \<le> n div 2 \<and> n div 2 < 2 ^ Suc (ilog2 (n div 2))"
      by simp
    with False show ?thesis by (subst (1 2) ilog2.simps) auto
  qed
qed

end
