(* ===== verification/Torch.thy ===== *)
theory Torch
  imports Prelude
begin

text \<open>
  The shapes PyTorch computes for the layers the subsampling modules use:
  \<open>nn.Conv2d\<close>, an element-wise activation, \<open>nn.MaxPool2d\<close>, \<open>nn.Sequential\<close>,
  \<open>nn.Linear\<close>, \<open>Tensor.reshape\<close> (also with an inferred \<open>-1\<close> dimension). These are
  library semantics, not code of the repository: each definition follows PyTorch's
  documented output-size rule and its shape checks (the \<open>RuntimeError\<close>s they raise).
  The activation is a type parameter \<open>'act\<close>: it never changes a shape.
  Only shapes are modelled; tensor values are not.
\<close>

record linear =
  in_features :: nat
  out_features :: nat

datatype 'act layer =
    Conv2d nat nat nat nat nat    \<comment> \<open>in_channels, out_channels, kernel_size, stride, padding\<close>
  | Activation 'act
  | MaxPool2d nat nat nat bool    \<comment> \<open>kernel_size, stride, padding, ceil_mode\<close>

section \<open>Output sizes\<close>

text \<open>Convolution, dilation 1: \<open>floor((n + 2 padding - kernel) / stride) + 1\<close>.\<close>

definition conv_out :: "nat \<Rightarrow> nat \<Rightarrow> nat \<Rightarrow> nat \<Rightarrow> int" where
  "conv_out kernel_size stride padding n =
     (int n + 2 * int padding - int kernel_size) div int stride + 1"

text \<open>Pooling (\<open>pooling_output_shape\<close> of ATen, dilation 1): in ceil mode the division
  rounds up, and a last window that would start in the right padding is dropped.\<close>

definition pool_out :: "nat \<Rightarrow> nat \<Rightarrow> nat \<Rightarrow> bool \<Rightarrow> nat \<Rightarrow> int" where
  "pool_out kernel_size stride padding ceil_mode n =
     (let osz = (int n + 2 * int padding - (int kernel_size - 1) - 1
               + (if ceil_mode then int stride - 1 else 0)) div int stride + 1
      in if ceil_mode \<and> int n + int padding \<le> (osz - 1) * int stride then osz - 1 else osz)"

section \<open>Layers on 4-D shapes\<close>

definition conv2d_shape :: "nat \<Rightarrow> nat \<Rightarrow> nat \<Rightarrow> nat \<Rightarrow> nat \<Rightarrow> shape4 \<Rightarrow> shape4 result" where
  "conv2d_shape in_channels out_channels kernel_size stride padding s =
     (case s of (b, c, h, w) \<Rightarrow>
       if out_channels < 1 then Inl (RuntimeError ''expected weight to be at least 1 at dimension 0'')
       else if c \<noteq> in_channels then Inl (RuntimeError ''expected input to have in_channels channels'')
       else if h + 2 * padding < kernel_size \<or> w + 2 * padding < kernel_size
       then Inl (RuntimeError ''Kernel size can't be greater than actual input size'')
       else Inr (b, out_channels, nat (conv_out kernel_size stride padding h),
                 nat (conv_out kernel_size stride padding w)))"

definition maxpool2d_shape :: "nat \<Rightarrow> nat \<Rightarrow> nat \<Rightarrow> bool \<Rightarrow> shape4 \<Rightarrow> shape4 result" where
  "maxpool2d_shape kernel_size stride padding ceil_mode s =
     (case s of (b, c, h, w) \<Rightarrow>
       if kernel_size = 0 \<or> stride = 0 then Inl (RuntimeError ''kernel size and stride should be greater than zero'')
       else if kernel_size < 2 * padding then Inl (RuntimeError ''pad should be at most half of kernel size'')
       else
         (let oh = pool_out kernel_size stride padding ceil_mode h;
              ow = pool_out kernel_size stride padding ceil_mode w
          in if oh < 1 \<or> ow < 1 then Inl (RuntimeError ''Output size is too small'')
             else Inr (b, c, nat oh, nat ow)))"

fun layer_shape :: "'act layer \<Rightarrow> shape4 \<Rightarrow> shape4 result" where
  "layer_shape (Conv2d ic oc k s p) x = conv2d_shape ic oc k s p x"
| "layer_shape (Activation a) x = Inr x"
| "layer_shape (MaxPool2d k s p c) x = maxpool2d_shape k s p c x"

text \<open>\<open>nn.Sequential\<close>: the layers in order, the first error stopping the run.\<close>

fun sequential_shape :: "'act layer list \<Rightarrow> shape4 \<Rightarrow> shape4 result" where
  "sequential_shape [] x = Inr x"
| "sequential_shape (l # ls) x =
     (case layer_shape l x of Inl e \<Rightarrow> Inl e | Inr y \<Rightarrow> sequential_shape ls y)"

section \<open>Linear layers and reshapes on 3-D shapes\<close>

definition linear_shape :: "linear \<Rightarrow> shape3 \<Rightarrow> shape3 result" where
  "linear_shape lin s =
     (case s of (b, t, f) \<Rightarrow>
       if f \<noteq> in_features lin then Inl (RuntimeError ''mat1 and mat2 shapes cannot be multiplied'')
       else Inr (b, t, out_features lin))"

text \<open>\<open>reshape\<close> to explicit sizes keeps the number of elements.\<close>

definition reshape3 :: "shape3 \<Rightarrow> shape3 \<Rightarrow> shape3 result" where
  "reshape3 s s' =
     (case (s, s') of ((b, t, f), (b', t', f')) \<Rightarrow>
       if b * t * f = b' * t' * f' then Inr s'
       else Inl (RuntimeError ''shape is invalid for input of this size''))"

text \<open>\<open>reshape(b, t, -1)\<close> of a tensor with \<open>numel\<close> elements: the last size is inferred,
  and PyTorch refuses to infer it when the other sizes multiply to 0.\<close>

definition reshape_infer_last :: "nat \<Rightarrow> nat \<Rightarrow> nat \<Rightarrow> shape3 result" where
  "reshape_infer_last b t numel =
     (if b * t = 0 then Inl (RuntimeError ''cannot reshape tensor of 0 elements: -1 is ambiguous'')
      else if numel mod (b * t) \<noteq> 0 then Inl (RuntimeError ''shape is invalid for input of this size'')
      else Inr (b, t, numel div (b * t)))"

section \<open>Lemmas\<close>

lemma sequential_shape_append:
  "sequential_shape (xs @ ys) s =
     (case sequential_shape xs s of Inl e \<Rightarrow> Inl e | Inr s' \<Rightarrow> sequential_shape ys s')"
  by (induction xs arbitrary: s) (auto split: sum.split)

lemma linear_shape_ok [simp]:
  "linear_shape lin (b, t, in_features lin) = Inr (b, t, out_features lin)"
  by (simp add: linear_shape_def)

lemma reshape_infer_last_ok [simp]:
  "0 < b \<Longrightarrow> 0 < t \<Longrightarrow> reshape_infer_last b t (b * t * f) = Inr (b, t, f)"
  by (simp add: reshape_infer_last_def)

end
