(* ===== verification/StackingSubsampling.thy ===== *)
theory StackingSubsampling
  imports Torch
begin

text \<open>
  \<open>StackingSubsampling\<close> of \<open>src/chrispnet/modules/encoder/prenet/subsampling.py\<close>
  (lines 21--46). The module's state is the record \<open>stacking_subsampling\<close>: the factor and
  the projection \<open>proj_out\<close> that \<open>__init__\<close> (\<open>stacking_subsampling_init\<close>) creates.
  \<open>forward\<close> (\<open>stacking_subsampling_forward\<close>) pads the time axis with
  \<open>pad_size = factor - t % factor\<close> frames, reshapes so that each output step holds
  \<open>factor\<close> consecutive frames, projects, and divides the padded lengths by the factor,
  rounding down. The lemmas give the output shape, the errors, the bounds of the
  returned lengths, and the behaviour when the factor divides the time size (a whole
  block of padding is still added).
\<close>

record stacking_subsampling =
  subsampling_factor :: nat
  proj_out :: linear

text \<open>\<open>__init__\<close> (lines 29--32).\<close>

definition stacking_subsampling_init :: "nat \<Rightarrow> nat \<Rightarrow> nat \<Rightarrow> stacking_subsampling" where
  "stacking_subsampling_init factor feat_in feat_out =
     \<lparr>subsampling_factor = factor,
      proj_out = \<lparr>in_features = factor * feat_in, out_features = feat_out\<rparr>\<rparr>"

text \<open>\<open>forward\<close> (lines 34--46). \<open>t % 0\<close> raises \<open>ZeroDivisionError\<close>; \<open>F.pad\<close> appends
  \<open>pad_size\<close> zero frames to the time axis; \<open>torch.div(..., rounding_mode="floor")\<close> is
  the floor of the quotient.\<close>

definition stacking_subsampling_forward ::
  "stacking_subsampling \<Rightarrow> shape3 \<Rightarrow> rat list \<Rightarrow> (shape3 \<times> rat list) result" where
  "stacking_subsampling_forward m x lengths =
     (case x of (b, t, h) \<Rightarrow>
       if subsampling_factor m = 0 then Inl ZeroDivisionError
       else
         (let factor = subsampling_factor m;
              pad_size = factor - t mod factor;
              t' = t + pad_size
          in case reshape3 (b, t', h) (b, t' div factor, h * factor) of
               Inl e \<Rightarrow> Inl e
             | Inr y \<Rightarrow>
                 (case linear_shape (proj_out m) y of
                    Inl e \<Rightarrow> Inl e
                  | Inr z \<Rightarrow>
                      Inr (z, map (\<lambda>l. of_int \<lfloor>(l + of_nat pad_size) / of_nat factor\<rfloor>) lengths))))"

section \<open>The padding\<close>

text \<open>The padded time size is the next multiple of the factor strictly above \<open>t\<close>.\<close>

lemma padded_eq:
  fixes f t :: nat
  assumes "0 < f"
  shows "t + (f - t mod f) = f * (t div f + 1)" "t + f - t mod f = f * (t div f + 1)"
proof -
  have lt: "t mod f < f" using assms by simp
  have dm: "f * (t div f) + t mod f = t" using div_mult_mod_eq [of t f] by (simp add: mult.commute)
  show "t + (f - t mod f) = f * (t div f + 1)" using lt dm by (simp only: distrib_left)
  show "t + f - t mod f = f * (t div f + 1)" using lt dm by (simp only: distrib_left)
qed

lemma stacking_forward_Inr:
  "0 < f \<Longrightarrow>
   stacking_subsampling_forward (stacking_subsampling_init f feat_in feat_out) (b, t, feat_in) lengths =
     Inr ((b, t div f + 1, feat_out),
          map (\<lambda>l. of_int \<lfloor>(l + of_nat (f - t mod f)) / of_nat f\<rfloor>) lengths)"
  by (simp add: stacking_subsampling_forward_def stacking_subsampling_init_def reshape3_def
      padded_eq linear_shape_def Let_def ac_simps)

lemma stacking_forward_width:
  "0 < f \<Longrightarrow> h \<noteq> feat_in \<Longrightarrow>
   stacking_subsampling_forward (stacking_subsampling_init f feat_in feat_out) (b, t, h) lengths =
     Inl (RuntimeError ''mat1 and mat2 shapes cannot be multiplied'')"
  by (simp add: stacking_subsampling_forward_def stacking_subsampling_init_def reshape3_def
      padded_eq linear_shape_def Let_def ac_simps)

text \<open>A floor-divided padded length stays between 0 and the padded time size over the
  factor when the length lies between 0 and the time size.\<close>

lemma floor_padded_bounds:
  fixes l :: rat
  assumes "0 < f" "0 \<le> l" "l \<le> of_nat t"
  shows "0 \<le> \<lfloor>(l + of_nat p) / of_nat f\<rfloor> \<and> \<lfloor>(l + of_nat p) / of_nat f\<rfloor> \<le> int ((t + p) div f)"
proof -
  have "(l + of_nat p) / of_nat f \<le> (of_nat (t + p) :: rat) / of_nat f"
    using assms by (simp add: divide_right_mono)
  then have "\<lfloor>(l + of_nat p) / of_nat f\<rfloor> \<le> \<lfloor>(of_nat (t + p) :: rat) / of_nat f\<rfloor>"
    by (rule floor_mono)
  moreover have "\<lfloor>(of_nat (t + p) :: rat) / of_nat f\<rfloor> = int ((t + p) div f)"
    by (rule floor_divide_of_nat_eq)
  moreover have "0 \<le> (l + of_nat p) / of_nat f" using assms by simp
  ultimately show ?thesis by simp
qed

lemma stacking_lengths_map_bounded:
  fixes lengths :: "rat list"
  assumes "0 < factor" "\<forall>l\<in>set lengths. 0 \<le> l \<and> l \<le> of_nat t"
  shows "\<forall>l'\<in>set (map (\<lambda>l. of_int \<lfloor>(l + of_nat (factor - t mod factor)) / of_nat factor\<rfloor>) lengths).
           0 \<le> l' \<and> l' \<le> (of_nat (t div factor + 1) :: rat)"
proof -
  let ?p = "factor - t mod factor"
  have "0 \<le> (of_int \<lfloor>(l + of_nat ?p) / of_nat factor\<rfloor> :: rat) \<and>
        (of_int \<lfloor>(l + of_nat ?p) / of_nat factor\<rfloor> :: rat) \<le> of_nat (t div factor + 1)"
    if "l \<in> set lengths" for l
  proof -
    have "0 \<le> \<lfloor>(l + of_nat ?p) / of_nat factor\<rfloor> \<and>
          \<lfloor>(l + of_nat ?p) / of_nat factor\<rfloor> \<le> int (t div factor + 1)"
      using floor_padded_bounds [of factor l t ?p] assms that by (simp add: padded_eq)
    then show ?thesis by (rule of_int_bounds)
  qed
  then show ?thesis by auto
qed

text \<open>The floor-divided padded length in whole numbers.\<close>

lemma floor_padded_exact:
  assumes "0 < factor"
  shows "\<lfloor>(of_nat l + of_nat (factor - t mod factor)) / (of_nat factor :: rat)\<rfloor> =
           int (l div factor + (if t mod factor \<le> l mod factor then 1 else 0))"
proof -
  have "\<lfloor>(of_nat l + of_nat (factor - t mod factor)) / (of_nat factor :: rat)\<rfloor> =
        int ((l + (factor - t mod factor)) div factor)"
    using floor_divide_of_nat_eq [of "l + (factor - t mod factor)" factor] by simp
  moreover have "(l + (factor - t mod factor)) div factor =
                 l div factor + (if t mod factor \<le> l mod factor then 1 else 0)"
  proof -
    have lt: "t mod factor < factor" "l mod factor < factor" using assms by simp_all
    have l: "l = factor * (l div factor) + l mod factor" by simp
    have "l + (factor - t mod factor) = factor * (l div factor) + (l mod factor + (factor - t mod factor))"
      using l lt by linarith
    then have "(l + (factor - t mod factor)) div factor =
               l div factor + (l mod factor + (factor - t mod factor)) div factor"
      using assms by simp
    moreover have "(l mod factor + (factor - t mod factor)) div factor =
                   (if t mod factor \<le> l mod factor then 1 else 0)"
    proof (cases "t mod factor \<le> l mod factor")
      case True
      then have "factor \<le> l mod factor + (factor - t mod factor)"
        "l mod factor + (factor - t mod factor) < 2 * factor" using lt by linarith+
      then show ?thesis using True by (simp add: div_nat_eqI)
    next
      case False
      then have "l mod factor + (factor - t mod factor) < factor" using lt by linarith
      then show ?thesis using False by simp
    qed
    ultimately show ?thesis by simp
  qed
  ultimately show ?thesis by simp
qed

text \<open>The lengths \<open>forward\<close> returns, read off any successful call, and their
  monotonicity in the input length.\<close>

lemma stacking_forward_lengths:
  "stacking_subsampling_forward m (b, t, h) ls = Inr (y, ls') \<Longrightarrow>
   0 < subsampling_factor m \<and>
   ls' = map (\<lambda>l. of_int \<lfloor>(l + of_nat (subsampling_factor m - t mod subsampling_factor m)) /
                            of_nat (subsampling_factor m)\<rfloor>) ls"
  by (auto simp: stacking_subsampling_forward_def Let_def split: sum.splits if_splits)

lemma floor_div_mono:
  fixes x y :: rat
  shows "0 < f \<Longrightarrow> x \<le> y \<Longrightarrow> \<lfloor>(x + of_nat p) / of_nat f\<rfloor> \<le> \<lfloor>(y + of_nat p) / of_nat f\<rfloor>"
  by (intro floor_mono divide_right_mono) simp_all

lemma stacking_lengths_mono:
  assumes "stacking_subsampling_forward m x ls = Inr (y, ls')"
    and "i < length ls" "k < length ls" "ls ! i \<le> ls ! k"
  shows "ls' ! i \<le> ls' ! k"
proof -
  obtain b t h where x: "x = (b, t, h)" by (cases x) blast
  let ?f = "subsampling_factor m"
  have fl: "0 < ?f \<and> ls' = map (\<lambda>l. of_int \<lfloor>(l + of_nat (?f - t mod ?f)) / of_nat ?f\<rfloor>) ls"
    using assms(1) unfolding x by (rule stacking_forward_lengths)
  note f = fl [THEN conjunct1] and l = fl [THEN conjunct2]
  have "\<lfloor>(ls ! i + of_nat (?f - t mod ?f)) / of_nat ?f\<rfloor> \<le> \<lfloor>(ls ! k + of_nat (?f - t mod ?f)) / of_nat ?f\<rfloor>"
    by (rule floor_div_mono [OF f assms(4)])
  then show ?thesis
    unfolding l using assms(2,3) by simp
qed

section \<open>Properties\<close>

text \<open>
  C5. Output shape. For a positive factor and an input whose feature width is the
  \<open>feat_in\<close> the module was built with, \<open>forward\<close> succeeds (the reshape and the
  projection accept their shapes) and returns \<open>t div factor + 1\<close> time steps of
  \<open>feat_out\<close> features, and one length per input length.
\<close>

theorem stacking_subsampling_forward_shape:
  assumes "0 < factor"
  shows "\<exists>ls'. stacking_subsampling_forward (stacking_subsampling_init factor feat_in feat_out)
                 (b, t, feat_in) lengths = Inr ((b, t div factor + 1, feat_out), ls') \<and>
               length ls' = length lengths"
  using stacking_forward_Inr [OF assms] by simp

theorem stacking_subsampling_forward_shape_witness:
  "\<exists>ls'. stacking_subsampling_forward (stacking_subsampling_init 4 80 256)
          (2, 1599, 80) [1599, 3] = Inr ((2, 400, 256), ls') \<and> length ls' = 2"
  using stacking_subsampling_forward_shape [of 4 80 256 2 1599 "[1599, 3]"]
  by (simp add: numeral_2_eq_2)

text \<open>
  C6. Length invariant. If every input length lies in \<open>[0, t]\<close>, every returned length
  lies in \<open>[0, T']\<close>, \<open>T' = t div factor + 1\<close> the time size of the returned tensor.
\<close>

theorem stacking_subsampling_lengths_bounded:
  assumes "0 < factor" "\<forall>l\<in>set lengths. 0 \<le> l \<and> l \<le> of_nat t"
  shows "\<exists>ls'. stacking_subsampling_forward (stacking_subsampling_init factor feat_in feat_out)
                 (b, t, feat_in) lengths = Inr ((b, t div factor + 1, feat_out), ls') \<and>
               (\<forall>l'\<in>set ls'. 0 \<le> l' \<and> l' \<le> of_nat (t div factor + 1))"
  using stacking_forward_Inr [OF assms(1)] stacking_lengths_map_bounded [OF assms] by blast

theorem stacking_subsampling_lengths_bounded_witness:
  "\<exists>ls'. stacking_subsampling_forward (stacking_subsampling_init 4 80 256)
          (1, 10, 80) [10, 0, 5 / 2] = Inr ((1, 3, 256), ls') \<and>
        list_all (\<lambda>l'. 0 \<le> l' \<and> l' \<le> of_nat (3::nat)) ls'"
proof -
  have "\<forall>l\<in>set [10, 0, 5 / 2 :: rat]. 0 \<le> l \<and> l \<le> of_nat 10" by simp
  then show ?thesis
    using stacking_subsampling_lengths_bounded [of 4 "[10, 0, 5 / 2]" 10 80 256 1]
    by (simp add: list_all_iff)
qed

text \<open>
  C7. A whole block of padding when the factor divides the time size. If
  \<open>factor\<close> divides \<open>t\<close>, \<open>pad_size\<close> is \<open>factor\<close>, not 0: the output has
  \<open>t / factor + 1\<close> time steps, one more than \<open>ceil(t / factor)\<close>, and every length
  becomes \<open>floor(l / factor) + 1\<close>, i.e. \<open>floor((l + factor) / factor)\<close>.
\<close>

theorem stacking_subsampling_full_block:
  assumes "0 < factor" "factor dvd t"
  shows "stacking_subsampling_forward (stacking_subsampling_init factor feat_in feat_out)
           (b, t, feat_in) lengths =
         Inr ((b, t div factor + 1, feat_out),
              map (\<lambda>l. of_int (\<lfloor>l / of_nat factor\<rfloor> + 1)) lengths) \<and>
         t div factor + 1 = nat (ceil_div (int t) (int factor)) + 1"
proof -
  have m: "t mod factor = 0" using assms(2) by simp
  have "\<lfloor>(l + of_nat factor) / (of_nat factor :: rat)\<rfloor> = \<lfloor>l / of_nat factor\<rfloor> + 1" for l
  proof -
    have "(l + of_nat factor) / (of_nat factor :: rat) = l / of_nat factor + of_int 1"
      using assms(1) by (simp add: add_divide_distrib)
    then show ?thesis by (simp only: floor_add_int)
  qed
  moreover have "ceil_div (int t) (int factor) = int (t div factor)"
    using assms(2) by (simp add: ceil_div_dvd zdiv_int)
  ultimately show ?thesis
    using stacking_forward_Inr [OF assms(1)] m by simp
qed

theorem stacking_subsampling_full_block_witness:
  "stacking_subsampling_forward (stacking_subsampling_init 4 80 256) (1, 8, 80) [8, 4, 3] =
     Inr ((1, 3, 256), [3, 2, 1]) \<and> (3::nat) = nat (ceil_div 8 4) + 1"
proof -
  have "(4::nat) dvd 8" by simp
  then show ?thesis
    using stacking_subsampling_full_block [of 4 8 80 256 1 "[8, 4, 3]"]
    by (simp add: ceil_div_def eval_simps)
qed

text \<open>
  C15. Errors of \<open>forward\<close>. It fails exactly when the factor is 0 (Python's \<open>t % 0\<close>)
  or when the input's feature width differs from \<open>feat_in\<close> (the projection rejects
  the stacked width); the reshape never fails.
\<close>

theorem stacking_subsampling_forward_errors:
  "stacking_subsampling_forward (stacking_subsampling_init factor feat_in feat_out) (b, t, h) lengths = Inl e \<longleftrightarrow>
     (factor = 0 \<and> e = ZeroDivisionError) \<or>
     (0 < factor \<and> h \<noteq> feat_in \<and> e = RuntimeError ''mat1 and mat2 shapes cannot be multiplied'')"
proof (cases "factor = 0")
  case True
  then show ?thesis
    by (auto simp: stacking_subsampling_forward_def stacking_subsampling_init_def)
next
  case False
  then show ?thesis
    using stacking_forward_Inr [of factor feat_in feat_out b t lengths]
      stacking_forward_width [of factor h feat_in feat_out b t lengths]
    by (cases "h = feat_in") auto
qed

theorem stacking_subsampling_forward_errors_witness:
  "stacking_subsampling_forward (stacking_subsampling_init 0 80 256) (1, 8, 80) [] = Inl ZeroDivisionError \<and>
   stacking_subsampling_forward (stacking_subsampling_init 4 80 256) (1, 8, 81) [] =
     Inl (RuntimeError ''mat1 and mat2 shapes cannot be multiplied'')"
  using stacking_subsampling_forward_errors [of 0 80 256 1 8 80 "[]" ZeroDivisionError]
    stacking_subsampling_forward_errors [of 4 80 256 1 8 81 "[]"
      "RuntimeError ''mat1 and mat2 shapes cannot be multiplied''"]
  by simp

text \<open>
  C26. The new length, exactly. For valid lengths that are whole numbers \<open>l\<close>, \<open>forward\<close>
  returns \<open>l div factor\<close> (the full blocks of valid frames) plus one more step exactly
  when \<open>t mod factor \<le> l mod factor\<close>. The extra step depends on the batch's time size
  \<open>t\<close>, not only on \<open>l\<close>: it holds the last \<open>l mod factor\<close> valid frames and padding,
  and none of the item's frames when \<open>factor\<close> divides \<open>l\<close>.
\<close>

theorem stacking_length_exact:
  assumes "0 < factor"
  shows "stacking_subsampling_forward (stacking_subsampling_init factor feat_in feat_out)
           (b, t, feat_in) (map of_nat ls) =
         Inr ((b, t div factor + 1, feat_out),
              map (\<lambda>l. of_nat (l div factor + (if t mod factor \<le> l mod factor then 1 else 0))) ls)"
proof -
  have "(of_int \<lfloor>(of_nat l + of_nat (factor - t mod factor)) / (of_nat factor :: rat)\<rfloor> :: rat) =
        of_nat (l div factor + (if t mod factor \<le> l mod factor then 1 else 0))" for l
    using floor_padded_exact [OF assms, of l t] by simp
  then show ?thesis
    using stacking_forward_Inr [OF assms, of feat_in feat_out b t "map of_nat ls"] by simp
qed

theorem stacking_length_exact_witness:
  "0 < (4::nat) \<and>
   stacking_subsampling_forward (stacking_subsampling_init 4 80 256) (1, 10, 80) (map of_nat [5, 6, 8]) =
     Inr ((1, 3, 256), map of_nat [1, 2, 2])"
  using stacking_length_exact [of 4 80 256 1 10 "[5, 6, 8]"] by simp

end
