(* ===== verification/Tensor.thy ===== *)
theory Tensor
  imports Torch
begin

text \<open>
  Tensor values for the operations of \<open>StackingSubsampling.forward\<close>: a 3-D tensor is a
  record of its sizes and its entries as nested lists (batch, time, features), and
  \<open>tensor3_wf\<close> says that the lists have the sizes. The PyTorch operations act on the
  entries as the library documents them: \<open>F.pad\<close> on the time axis appends zero frames
  (\<open>pad_time\<close>); \<open>reshape\<close> of a contiguous tensor keeps the row-major sequence of
  entries and cuts it anew (\<open>flat3\<close>, \<open>split_list\<close>, \<open>reshape3_val\<close>); \<open>nn.Linear\<close>
  maps the last axis with \<open>y = W x + b\<close> (record \<open>dense\<close>, which extends the shape-level
  \<open>linear\<close> with the weight and the bias, and \<open>dense_apply\<close>). Entries are of an
  abstract semiring type: the lemmas never depend on the arithmetic. The list lemmas
  here (cutting a concatenation of equal-length pieces) carry the reshape proofs.
\<close>

record 'a tensor3 =
  dims :: shape3
  entries :: "'a list list list"

definition tensor3_wf :: "'a tensor3 \<Rightarrow> bool" where
  "tensor3_wf x =
     (case dims x of (b, t, h) \<Rightarrow>
        length (entries x) = b \<and>
        (\<forall>s\<in>set (entries x). length s = t \<and> (\<forall>fr\<in>set s. length fr = h)))"

section \<open>Row-major cutting\<close>

text \<open>The first \<open>m\<close> consecutive pieces of length \<open>n\<close> of a list.\<close>

definition split_list :: "nat \<Rightarrow> nat \<Rightarrow> 'a list \<Rightarrow> 'a list list" where
  "split_list m n xs = map (\<lambda>i. take n (drop (i * n) xs)) [0..<m]"

definition flat3 :: "'a list list list \<Rightarrow> 'a list" where
  "flat3 x = concat (map concat x)"

text \<open>\<open>reshape\<close> to \<open>(b, t, h)\<close>: the entries in row-major order, cut into \<open>b\<close> items of
  \<open>t\<close> frames of \<open>h\<close> features.\<close>

definition reshape3_val :: "shape3 \<Rightarrow> 'a list list list \<Rightarrow> 'a list list list" where
  "reshape3_val s x =
     (case s of (b, t, h) \<Rightarrow> map (split_list t h) (split_list b (t * h) (flat3 x)))"

section \<open>Padding and projection\<close>

text \<open>\<open>F.pad(x, (0, 0, 0, p))\<close>: \<open>p\<close> frames of \<open>h\<close> zeros after the last frame of
  every item.\<close>

definition pad_time :: "nat \<Rightarrow> nat \<Rightarrow> 'a::zero list list list \<Rightarrow> 'a list list list" where
  "pad_time p h x = map (\<lambda>s. s @ replicate p (replicate h 0)) x"

record 'a dense = linear +
  weight :: "'a list list"
  bias :: "'a list"

definition dense_wf :: "'a dense \<Rightarrow> bool" where
  "dense_wf d \<longleftrightarrow>
     length (weight d) = out_features d \<and> length (bias d) = out_features d \<and>
     (\<forall>row\<in>set (weight d). length row = in_features d)"

text \<open>\<open>nn.Linear\<close> on one feature vector: \<open>y_i = b_i + \<Sum>j. W_ij x_j\<close>.\<close>

definition dense_apply :: "'a::semiring_0 dense \<Rightarrow> 'a list \<Rightarrow> 'a list" where
  "dense_apply d v = map2 (\<lambda>row c. c + sum_list (map2 (*) row v)) (weight d) (bias d)"

lemma length_dense_apply:
  "dense_wf d \<Longrightarrow> length (dense_apply d v) = out_features d"
  by (simp add: dense_apply_def dense_wf_def)

section \<open>Lemmas on uniform concatenations\<close>

lemma length_split_list [simp]: "length (split_list m n xs) = m"
  by (simp add: split_list_def)

lemma nth_split_list [simp]: "i < m \<Longrightarrow> split_list m n xs ! i = take n (drop (i * n) xs)"
  by (simp add: split_list_def)

lemma drop_concat_uniform:
  "\<forall>f\<in>set fs. length f = h \<Longrightarrow> drop (m * h) (concat fs) = concat (drop m fs)"
proof (induction fs arbitrary: m)
  case Nil
  then show ?case by simp
next
  case (Cons f fs)
  then show ?case by (cases m) (simp_all add: add.commute)
qed

lemma take_concat_uniform:
  "\<forall>f\<in>set fs. length f = h \<Longrightarrow> take (n * h) (concat fs) = concat (take n fs)"
proof (induction fs arbitrary: n)
  case Nil
  then show ?case by simp
next
  case (Cons f fs)
  then show ?case by (cases n) (simp_all add: add.commute)
qed

lemma length_concat_uniform:
  "\<forall>f\<in>set fs. length f = h \<Longrightarrow> length (concat fs) = length fs * h"
  by (induction fs) simp_all

text \<open>Cutting a concatenation of pieces of length \<open>h\<close> into runs of \<open>n * h\<close> entries
  regroups the pieces \<open>n\<close> at a time.\<close>

lemma split_list_concat_uniform:
  assumes "\<forall>f\<in>set fs. length f = h" "i < m"
  shows "split_list m (n * h) (concat fs) ! i = concat (take n (drop (i * n) fs))"
proof -
  have "drop (i * (n * h)) (concat fs) = concat (drop (i * n) fs)"
    using drop_concat_uniform [OF assms(1), of "i * n"] by (simp add: ac_simps)
  moreover have "\<forall>f\<in>set (drop (i * n) fs). length f = h"
    using assms(1) by (auto dest: in_set_dropD)
  ultimately show ?thesis
    using assms(2) take_concat_uniform [of "drop (i * n) fs" h n] by simp
qed

end
