(* ===== verification/StackingValues.thy ===== *)
theory StackingValues
  imports StackingSubsampling Tensor
begin

text \<open>
  The values of \<open>StackingSubsampling.forward\<close> (lines 34--46 of
  \<open>src/chrispnet/modules/encoder/prenet/subsampling.py\<close>). \<open>stacking_forward_entries\<close>
  follows the source step by step on the entries: \<open>F.pad\<close> (line 37), \<open>torch.reshape\<close>
  (lines 39--41) and \<open>self.proj_out\<close> (line 42) applied to every time step of every
  item. \<open>stacking_subsampling_forward_values\<close> is the whole method on a tensor: the
  shape-level \<open>stacking_subsampling_forward\<close> decides the errors, the output sizes and
  the lengths, and the entries are computed alongside. The projection's weights are a
  \<open>dense\<close> whose sizes are those of the module's \<open>proj_out\<close>.
  The lemmas show that output step \<open>j\<close> of item \<open>i\<close> is the projection of input frames
  \<open>j F, ..., j F + F - 1\<close> laid side by side, with zero frames past the end.
\<close>

definition stacking_forward_entries ::
  "stacking_subsampling \<Rightarrow> 'a::semiring_0 dense \<Rightarrow> shape3 \<Rightarrow> 'a list list list \<Rightarrow> 'a list list list" where
  "stacking_forward_entries m d s x =
     (case s of (b, t, h) \<Rightarrow>
       (let factor = subsampling_factor m;
            pad_size = factor - t mod factor;
            x' = pad_time pad_size h x;
            t' = t + pad_size;
            y = reshape3_val (b, t' div factor, h * factor) x'
        in map (map (dense_apply d)) y))"

definition stacking_subsampling_forward_values ::
  "stacking_subsampling \<Rightarrow> 'a::semiring_0 dense \<Rightarrow> 'a tensor3 \<Rightarrow> rat list \<Rightarrow> ('a tensor3 \<times> rat list) result" where
  "stacking_subsampling_forward_values m d x lengths =
     (case stacking_subsampling_forward m (dims x) lengths of
        Inl e \<Rightarrow> Inl e
      | Inr (s', lengths') \<Rightarrow>
          Inr (\<lparr>dims = s', entries = stacking_forward_entries m d (dims x) (entries x)\<rparr>, lengths'))"

text \<open>Input frame \<open>k\<close> of item \<open>i\<close> after padding: the frame itself, or zeros past the end.\<close>

definition padded_frame :: "'a::zero tensor3 \<Rightarrow> nat \<Rightarrow> nat \<Rightarrow> 'a list" where
  "padded_frame x i k =
     (case dims x of (b, t, h) \<Rightarrow> if k < t then entries x ! i ! k else replicate h 0)"

section \<open>Lemmas\<close>

lemma take_drop_as_map:
  "m + n \<le> length xs \<Longrightarrow> take n (drop m xs) = map (\<lambda>k. xs ! (m + k)) [0..<n]"
  by (rule nth_equalityI) simp_all

lemma padded_item:
  assumes "tensor3_wf x" "dims x = (b, t, h)" "i < b"
  shows "length (entries x ! i @ replicate p (replicate h 0)) = t + p"
    "\<forall>fr\<in>set (entries x ! i @ replicate p (replicate h 0)). length fr = h"
    "k < t + p \<Longrightarrow> (entries x ! i @ replicate p (replicate h 0)) ! k = padded_frame x i k"
proof -
  have s: "length (entries x ! i) = t" "\<forall>fr\<in>set (entries x ! i). length fr = h"
    using assms by (auto simp: tensor3_wf_def)
  then show "length (entries x ! i @ replicate p (replicate h 0)) = t + p"
    "\<forall>fr\<in>set (entries x ! i @ replicate p (replicate h 0)). length fr = h"
    by auto
  show "k < t + p \<Longrightarrow> (entries x ! i @ replicate p (replicate h 0)) ! k = padded_frame x i k"
    using s assms(2) by (simp add: padded_frame_def nth_append)
qed

text \<open>The reshape of the padded tensor, item by item and step by step: step \<open>j\<close> of
  item \<open>i\<close> is frames \<open>j F .. j F + F - 1\<close> of the padded item, concatenated.\<close>

lemma stacking_reshape_entry:
  assumes wf: "tensor3_wf x" and d: "dims x = (b, t, h)" and f: "0 < f"
    and i: "i < b" and j: "j < t div f + 1"
  shows "reshape3_val (b, (t + (f - t mod f)) div f, h * f)
           (pad_time (f - t mod f) h (entries x)) ! i ! j =
         concat (map (\<lambda>k. padded_frame x i (j * f + k)) [0..<f])"
proof -
  let ?p = "f - t mod f"
  let ?T = "t div f + 1"
  let ?s = "\<lambda>i. entries x ! i @ replicate ?p (replicate h 0)"
  have tp: "t + ?p = f * ?T" using padded_eq [OF f] by simp
  have len_x: "length (entries x) = b" using wf d by (simp add: tensor3_wf_def)
  have items: "\<forall>c\<in>set (map concat (pad_time ?p h (entries x))). length c = 1 * (?T * (h * f))"
  proof
    fix c assume "c \<in> set (map concat (pad_time ?p h (entries x)))"
    then obtain i' where i': "i' < b" "c = concat (?s i')"
      using len_x by (auto simp: pad_time_def in_set_conv_nth)
    have "length (concat (?s i')) = length (?s i') * h"
      by (rule length_concat_uniform [OF padded_item(2) [OF wf d i'(1)]])
    also have "\<dots> = (f * ?T) * h"
      using padded_item(1) [OF wf d i'(1), of ?p] tp by simp
    also have "\<dots> = 1 * (?T * (h * f))"
      by (simp only: ac_simps mult_1)
    finally show "length c = 1 * (?T * (h * f))"
      using i'(2) by (simp only:)
  qed
  have item_i: "split_list b (?T * (h * f)) (flat3 (pad_time ?p h (entries x))) ! i = concat (?s i)"
    using split_list_concat_uniform [OF items i, of 1] len_x i
    by (simp add: flat3_def pad_time_def take_Suc_conv_app_nth)
  have step_j: "split_list ?T (f * h) (concat (?s i)) ! j = concat (take f (drop (j * f) (?s i)))"
    using split_list_concat_uniform [OF padded_item(2) [OF wf d i] j] .
  have "take f (drop (j * f) (?s i)) = map (\<lambda>k. ?s i ! (j * f + k)) [0..<f]"
  proof (rule take_drop_as_map)
    have "j * f + f \<le> ?T * f" using j by (simp add: add_mult_distrib)
    then show "j * f + f \<le> length (?s i)" using padded_item(1) [OF wf d i] tp by (simp add: mult.commute)
  qed
  moreover have "?s i ! (j * f + k) = padded_frame x i (j * f + k)" if "k < f" for k
  proof -
    have "j * f + k < (j + 1) * f" using that by simp
    also have "\<dots> \<le> ?T * f" using j by (intro mult_right_mono) auto
    also have "\<dots> = t + ?p" using tp by (simp only: mult.commute)
    finally show ?thesis using padded_item(3) [OF wf d i] by blast
  qed
  ultimately have frames: "take f (drop (j * f) (?s i)) = map (\<lambda>k. padded_frame x i (j * f + k)) [0..<f]"
    by simp
  have tdiv: "(t + ?p) div f = ?T" using tp f by simp
  have "reshape3_val (b, (t + ?p) div f, h * f) (pad_time ?p h (entries x)) ! i ! j =
        split_list ?T (h * f) (split_list b (?T * (h * f)) (flat3 (pad_time ?p h (entries x))) ! i) ! j"
    using i by (simp only: reshape3_val_def tdiv prod.case nth_map length_split_list)
  also have "\<dots> = split_list ?T (f * h) (concat (?s i)) ! j"
    unfolding item_i by (simp add: mult.commute)
  also have "\<dots> = concat (map (\<lambda>k. padded_frame x i (j * f + k)) [0..<f])"
    by (simp only: step_j frames)
  finally show ?thesis .
qed

lemma stacking_forward_Inr_dims:
  assumes "stacking_subsampling_forward m (b, t, h) lengths = Inr (s', ls')"
  shows "0 < subsampling_factor m \<and> h * subsampling_factor m = in_features (proj_out m) \<and>
         s' = (b, (t + (subsampling_factor m - t mod subsampling_factor m)) div subsampling_factor m,
               out_features (proj_out m))"
  using assms
  by (auto simp: stacking_subsampling_forward_def Let_def reshape3_def linear_shape_def
      split: if_splits)

lemma length_reshape3_val:
  "length (reshape3_val (b, t, h) x) = b"
  "r \<in> set (reshape3_val (b, t, h) x) \<Longrightarrow> length r = t"
  by (auto simp: reshape3_val_def split_list_def)

text \<open>What \<open>forward\<close> returns on a well-formed input of the module's width: the shape
  model's sizes and lengths, and step \<open>j\<close> of item \<open>i\<close> is the projection of the padded
  frames \<open>j F .. j F + F - 1\<close>.\<close>

lemma stacking_values_Inr:
  assumes "dims x = (b, t, feat_in)" "0 < factor"
  shows "stacking_subsampling_forward_values (stacking_subsampling_init factor feat_in feat_out) d x lengths =
           Inr (\<lparr>dims = (b, t div factor + 1, feat_out),
                 entries = stacking_forward_entries (stacking_subsampling_init factor feat_in feat_out) d
                             (b, t, feat_in) (entries x)\<rparr>,
                map (\<lambda>l. of_int \<lfloor>(l + of_nat (factor - t mod factor)) / of_nat factor\<rfloor>) lengths)"
  using assms stacking_forward_Inr [OF assms(2), of feat_in feat_out b t lengths]
  by (simp add: stacking_subsampling_forward_values_def)

lemma stacking_forward_entries_nth:
  assumes "tensor3_wf x" "dims x = (b, t, feat_in)" "0 < factor" "i < b" "j < t div factor + 1"
  shows "stacking_forward_entries (stacking_subsampling_init factor feat_in feat_out) d (b, t, feat_in) (entries x) ! i ! j =
           dense_apply d (concat (map (\<lambda>k. padded_frame x i (j * factor + k)) [0..<factor]))"
proof -
  let ?p = "factor - t mod factor"
  let ?r = "reshape3_val (b, (t + ?p) div factor, feat_in * factor) (pad_time ?p feat_in (entries x))"
  have ent: "stacking_forward_entries (stacking_subsampling_init factor feat_in feat_out) d (b, t, feat_in) (entries x) =
               map (map (dense_apply d)) ?r"
    by (simp add: stacking_forward_entries_def stacking_subsampling_init_def Let_def)
  have tdiv: "(t + ?p) div factor = t div factor + 1"
    using padded_eq [OF assms(3)] assms(3) by simp
  have "i < length ?r" using assms(4) by (simp add: length_reshape3_val)
  moreover have "j < length (?r ! i)"
    using assms(5) tdiv length_reshape3_val(2) [OF nth_mem [OF \<open>i < length ?r\<close>]] by simp
  ultimately show ?thesis
    using ent stacking_reshape_entry [OF assms] by simp
qed

lemma dense_apply_zeros:
  "dense_wf d \<Longrightarrow> dense_apply d (replicate n 0) = bias d"
proof -
  assume "dense_wf d"
  then have "length (weight d) = length (bias d)" by (simp add: dense_wf_def)
  moreover have "map2 (*) row (replicate n 0) = replicate (min (length row) n) 0" for row :: "'a list"
  proof (induction row arbitrary: n)
    case Nil
    then show ?case by simp
  next
    case (Cons a row)
    then show ?case by (cases n) simp_all
  qed
  moreover have "map2 (\<lambda>row c. c) ws bs = bs" if "length ws = length bs" for ws :: "'a list list" and bs
    using that by (induction ws bs rule: list_induct2) simp_all
  moreover have "sum_list (replicate k (0 :: 'a)) = 0" for k
    by (induction k) simp_all
  ultimately show ?thesis
    by (simp add: dense_apply_def)
qed

section \<open>Properties\<close>

text \<open>
  C16. Frame stacking. On a well-formed input of width \<open>feat_in\<close> and a positive
  factor, \<open>forward\<close> returns a tensor of sizes \<open>(b, t div factor + 1, feat_out)\<close> whose
  step \<open>j\<close> of item \<open>i\<close> is \<open>proj_out\<close> applied to input frames
  \<open>j factor, ..., j factor + factor - 1\<close> laid side by side, zero frames standing in
  for the frames past the end of the input.
\<close>

theorem stacking_subsampling_stacks_frames:
  assumes "tensor3_wf x" "dims x = (b, t, feat_in)" "0 < factor"
  shows "\<exists>y ls. stacking_subsampling_forward_values (stacking_subsampling_init factor feat_in feat_out)
                  d x lengths = Inr (y, ls) \<and>
          dims y = (b, t div factor + 1, feat_out) \<and>
          (\<forall>i<b. \<forall>j<t div factor + 1.
             entries y ! i ! j =
               dense_apply d (concat (map (\<lambda>k. padded_frame x i (j * factor + k)) [0..<factor])))"
  using stacking_values_Inr [OF assms(2,3), of feat_out d lengths]
    stacking_forward_entries_nth [OF assms, of _ _ feat_out d]
  by simp

theorem stacking_subsampling_stacks_frames_witness:
  "tensor3_wf \<lparr>dims = (1, 3, 1), entries = [[[1], [2], [3 :: int]]]\<rparr> \<and>
   (\<exists>y ls. stacking_subsampling_forward_values (stacking_subsampling_init 2 1 1)
             \<lparr>in_features = 2, out_features = 1, weight = [[1, 10]], bias = [0]\<rparr>
             \<lparr>dims = (1, 3, 1), entries = [[[1], [2], [3 :: int]]]\<rparr> [3] = Inr (y, ls) \<and>
           dims y = (1, 2, 1) \<and> entries y ! 0 ! 0 = [21] \<and> entries y ! 0 ! 1 = [3])"
proof -
  let ?d = "\<lparr>in_features = 2, out_features = 1, weight = [[1, 10]], bias = [0 :: int]\<rparr>"
  let ?x = "\<lparr>dims = (1, 3, 1), entries = [[[1], [2], [3 :: int]]]\<rparr>"
  have wf: "tensor3_wf ?x" by (simp add: tensor3_wf_def)
  obtain y ls where fw: "stacking_subsampling_forward_values (stacking_subsampling_init 2 1 1) ?d ?x [3] =
      Inr (y, ls)" and dy: "dims y = (1, 2, 1)"
    and e: "\<forall>i<1. \<forall>j<2. entries y ! i ! j =
              dense_apply ?d (concat (map (\<lambda>k. padded_frame ?x i (j * 2 + k)) [0..<2]))"
    using stacking_subsampling_stacks_frames [OF wf, of 1 3 1 2 1 ?d "[3]"] by auto
  have "entries y ! 0 ! 0 = [21]"
    using e by (simp add: padded_frame_def dense_apply_def upt_rec)
  moreover have "entries y ! 0 ! 1 = [3]"
    using e by (simp add: padded_frame_def dense_apply_def upt_rec)
  ultimately show ?thesis using wf fw dy by blast
qed

text \<open>
  C22. A step made only of padding is counted as valid. When the factor divides \<open>t\<close>,
  the last output step \<open>t / factor\<close> of every item stacks only the appended zero frames,
  so its value is the projection's bias whatever the input; yet for an item of full
  length \<open>t\<close> the new length \<open>floor((t + pad_size) / factor) = t / factor + 1\<close> counts
  that step as valid.
\<close>

theorem stacking_subsampling_padding_step_counted:
  assumes "tensor3_wf x" "dims x = (b, t, feat_in)" "0 < factor" "factor dvd t" "dense_wf d"
    and "i < b" "i < length lengths" "lengths ! i = of_nat t"
  shows "\<exists>y ls. stacking_subsampling_forward_values (stacking_subsampling_init factor feat_in feat_out)
                   d x lengths = Inr (y, ls) \<and>
                ls ! i = of_nat (t div factor + 1) \<and> entries y ! i ! (t div factor) = bias d"
proof -
  have m: "t mod factor = 0" using assms(4) by simp
  have tf: "t div factor * factor = t" using assms(4) by simp
  have "\<lfloor>(of_nat t + of_nat factor) / (of_nat factor :: rat)\<rfloor> = int (t div factor + 1)"
  proof -
    have "\<lfloor>(of_nat (t + factor)) / (of_nat factor :: rat)\<rfloor> = int ((t + factor) div factor)"
      by (rule floor_divide_of_nat_eq)
    then show ?thesis using assms(3) by simp
  qed
  then have len: "(of_int \<lfloor>(lengths ! i + of_nat (factor - t mod factor)) / of_nat factor\<rfloor> :: rat) =
                  of_nat (t div factor + 1)"
    using assms(8) m by simp
  have "padded_frame x i (t div factor * factor + k) = replicate feat_in 0" for k
    using assms(2) tf by (simp add: padded_frame_def)
  then have "concat (map (\<lambda>k. padded_frame x i (t div factor * factor + k)) [0..<factor]) =
             concat (replicate factor (replicate feat_in 0))"
    by (simp add: map_replicate_const)
  also have "\<dots> = replicate (factor * feat_in) 0"
    by (induction factor) (simp_all add: replicate_add [symmetric])
  finally have "stacking_forward_entries (stacking_subsampling_init factor feat_in feat_out) d
                  (b, t, feat_in) (entries x) ! i ! (t div factor) = bias d"
    using stacking_forward_entries_nth [OF assms(1,2,3,6), of "t div factor" feat_out d]
      dense_apply_zeros [OF assms(5)] by simp
  then show ?thesis
    using stacking_values_Inr [OF assms(2,3), of feat_out d lengths] len assms(7) by simp
qed

theorem stacking_subsampling_padding_step_counted_witness:
  "\<exists>y ls. stacking_subsampling_forward_values (stacking_subsampling_init 2 1 1)
            \<lparr>in_features = 2, out_features = 1, weight = [[1, 10]], bias = [7 :: int]\<rparr>
            \<lparr>dims = (1, 2, 1), entries = [[[1], [2]]]\<rparr> [2] = Inr (y, ls) \<and>
          ls ! 0 = 2 \<and> entries y ! 0 ! 1 = [7]"
proof -
  have pre: "tensor3_wf \<lparr>dims = (1, 2, 1), entries = [[[1], [2 :: int]]]\<rparr>" "(2::nat) dvd 2"
    "dense_wf \<lparr>in_features = 2, out_features = 1, weight = [[1, 10]], bias = [7 :: int]\<rparr>"
    by (simp_all add: tensor3_wf_def dense_wf_def)
  show ?thesis
    using stacking_subsampling_padding_step_counted [where b = 1 and t = 2 and feat_in = 1 and factor = 2
        and i = 0 and lengths = "[2]" and feat_out = 1, OF pre(1) _ _ pre(2) pre(3)]
    by simp
qed

end
