(* ===== verification/CalcLength.thy ===== *)
theory CalcLength
  imports Prelude
begin

text \<open>
  The length calculator \<open>calc_length\<close> of
  \<open>src/chrispnet/modules/encoder/prenet/subsampling.py\<close> (lines 170--180): it repeats
  \<open>lengths \<leftarrow> round((lengths + 2 padding - kernel_size) / stride + 1)\<close> in floating point,
  rounding with \<open>ceil\<close> or \<open>floor\<close>, and casts the result to \<open>int\<close>. The float
  loop is modelled over \<open>rat\<close> (\<open>calc_length_step\<close>, \<open>calc_length_loop\<close>,
  \<open>calc_length_elem\<close>, and \<open>calc_length\<close> on a whole length vector). The reference is
  the integer output-size formula of convolution and pooling (\<open>out_size\<close>); the
  theory proves that the float loop computes exactly that rule iterated (an equivalence),
  that for the two strategies of the source it halves the length rounding up, and that it
  is monotone and keeps lengths non-negative.
\<close>

section \<open>The source loop\<close>

text \<open>One iteration of the loop body: \<open>torch.div(lengths + add_pad, stride) + one\<close>, then
  \<open>torch.ceil\<close> or \<open>torch.floor\<close>.\<close>

definition calc_length_step :: "int \<Rightarrow> int \<Rightarrow> bool \<Rightarrow> rat \<Rightarrow> rat" where
  "calc_length_step add_pad stride ceil_mode l =
     (let l' = (l + of_int add_pad) / of_int stride + 1
      in if ceil_mode then of_int \<lceil>l'\<rceil> else of_int \<lfloor>l'\<rfloor>)"

text \<open>\<open>for i in range(repeat_num)\<close>.\<close>

fun calc_length_loop :: "int \<Rightarrow> int \<Rightarrow> bool \<Rightarrow> nat \<Rightarrow> rat \<Rightarrow> rat" where
  "calc_length_loop add_pad stride ceil_mode 0 l = l"
| "calc_length_loop add_pad stride ceil_mode (Suc i) l =
     calc_length_loop add_pad stride ceil_mode i (calc_length_step add_pad stride ceil_mode l)"

text \<open>The whole function on one entry of the length tensor: \<open>add_pad\<close> is computed first,
  the loop runs, and \<open>.to(dtype=torch.int)\<close> truncates.\<close>

definition calc_length_elem :: "int \<Rightarrow> int \<Rightarrow> int \<Rightarrow> bool \<Rightarrow> nat \<Rightarrow> rat \<Rightarrow> int" where
  "calc_length_elem padding kernel_size stride ceil_mode repeat_num l =
     (let add_pad = padding * 2 - kernel_size
      in py_int (calc_length_loop add_pad stride ceil_mode repeat_num l))"

text \<open>The tensor operations are element-wise, so on a length vector the function is a map.\<close>

definition calc_length :: "rat list \<Rightarrow> int \<Rightarrow> int \<Rightarrow> int \<Rightarrow> bool \<Rightarrow> nat \<Rightarrow> int list" where
  "calc_length lengths padding kernel_size stride ceil_mode repeat_num =
     map (calc_length_elem padding kernel_size stride ceil_mode repeat_num) lengths"

section \<open>The reference: the integer output-size formula\<close>

text \<open>
  The integer output-size formula \<open>(n + 2 padding - kernel_size) / stride + 1\<close> (dilation
  1), the division rounding down, or up in ceil mode. Rounding down, it is
  \<open>nn.Conv2d\<close>'s rule; rounding up, it is \<open>nn.MaxPool2d\<close>'s ceil-mode rule only when no last
  window starts in the right padding (true for padding 0 and a stride at most the
  kernel, the \<open>"vggnet"\<close> pool), since PyTorch then drops that window (\<open>pool_out\<close>).
\<close>

definition out_size :: "int \<Rightarrow> int \<Rightarrow> int \<Rightarrow> bool \<Rightarrow> int \<Rightarrow> int" where
  "out_size padding kernel_size stride ceil_mode n =
     (if ceil_mode then ceil_div (n + 2 * padding - kernel_size) stride + 1
      else (n + 2 * padding - kernel_size) div stride + 1)"

section \<open>Equivalence of the float loop and the integer rule\<close>

lemma calc_length_step_of_int:
  "calc_length_step (padding * 2 - kernel_size) stride ceil_mode (of_int n) =
     of_int (out_size padding kernel_size stride ceil_mode n)"
proof -
  have "(of_int n + of_int (padding * 2 - kernel_size)) / of_int stride + 1 =
        (of_int (n + 2 * padding - kernel_size) / of_int stride + of_int 1 :: rat)"
    by (simp add: algebra_simps)
  then show ?thesis
    by (simp only: calc_length_step_def out_size_def Let_def div_simps) simp
qed

lemma calc_length_loop_of_int:
  "calc_length_loop (padding * 2 - kernel_size) stride ceil_mode r (of_int n) =
     of_int ((out_size padding kernel_size stride ceil_mode ^^ r) n)"
proof (induction r arbitrary: n)
  case 0
  then show ?case by simp
next
  case (Suc r)
  then show ?case by (simp add: calc_length_step_of_int funpow_swap1)
qed

lemma calc_length_elem_of_int:
  "calc_length_elem padding kernel_size stride ceil_mode r (of_int n) =
     (out_size padding kernel_size stride ceil_mode ^^ r) n"
  by (simp add: calc_length_elem_def calc_length_loop_of_int)

section \<open>Monotonicity and non-negativity on rational lengths\<close>

lemma calc_length_step_mono:
  assumes "0 < stride" "x \<le> y"
  shows "calc_length_step add_pad stride ceil_mode x \<le> calc_length_step add_pad stride ceil_mode y"
proof -
  have "(x + of_int add_pad) / of_int stride + 1 \<le> (y + of_int add_pad) / of_int stride + 1"
    using assms by (simp add: divide_right_mono)
  then show ?thesis
    by (simp add: calc_length_step_def Let_def ceiling_mono floor_mono)
qed

lemma calc_length_step_nonneg:
  assumes "0 < stride" "- stride \<le> add_pad" "0 \<le> x"
  shows "0 \<le> calc_length_step add_pad stride ceil_mode x"
proof -
  have "(- of_int stride :: rat) \<le> x + of_int add_pad"
    using assms by linarith
  then have "- 1 \<le> (x + of_int add_pad) / of_int stride"
    using assms(1) by (simp add: le_divide_eq)
  define v where "v = (x + of_int add_pad) / of_int stride + 1"
  then have "0 \<le> v" using \<open>- 1 \<le> _\<close> by simp
  then have "0 \<le> \<lfloor>v\<rfloor>" "0 \<le> \<lceil>v\<rceil>" by simp_all
  then show ?thesis
    unfolding calc_length_step_def Let_def v_def [symmetric] by simp
qed

lemma calc_length_loop_mono:
  "0 < stride \<Longrightarrow> x \<le> y \<Longrightarrow>
   calc_length_loop add_pad stride ceil_mode r x \<le> calc_length_loop add_pad stride ceil_mode r y"
  by (induction r arbitrary: x y) (simp_all add: calc_length_step_mono)

lemma calc_length_loop_nonneg:
  "0 < stride \<Longrightarrow> - stride \<le> add_pad \<Longrightarrow> 0 \<le> x \<Longrightarrow>
   0 \<le> calc_length_loop add_pad stride ceil_mode r x"
  by (induction r arbitrary: x) (simp_all add: calc_length_step_nonneg)

lemma calc_length_elem_mono_nonneg:
  assumes "0 < stride" "- stride \<le> padding * 2 - kernel_size" "0 \<le> x" "x \<le> y"
  shows "0 \<le> calc_length_elem padding kernel_size stride ceil_mode r x \<and>
         calc_length_elem padding kernel_size stride ceil_mode r x \<le>
         calc_length_elem padding kernel_size stride ceil_mode r y"
proof -
  let ?f = "calc_length_loop (padding * 2 - kernel_size) stride ceil_mode r"
  have "0 \<le> ?f x" using assms by (simp add: calc_length_loop_nonneg)
  moreover have "?f x \<le> ?f y" using assms by (simp add: calc_length_loop_mono)
  ultimately show ?thesis
    by (simp add: calc_length_elem_def py_int_nonneg floor_mono)
qed

section \<open>The two strategies of the source halve a length, rounding up\<close>

text \<open>\<open>"striding"\<close>: padding 1, kernel 3, stride 2, floor; \<open>"vggnet"\<close>: padding 0,
  kernel 2, stride 2, ceil.\<close>

lemma out_size_striding [simp]: "out_size 1 3 2 False n = ceil_div n 2"
  using floor_stage_half [of n] by (simp add: out_size_def)

lemma out_size_vggnet [simp]: "out_size 0 2 2 True n = ceil_div n 2"
  using ceil_stage_half [of n] by (simp add: out_size_def)

lemma funpow_ceil_div_2: "((\<lambda>n. ceil_div n 2) ^^ r) n = ceil_div n (2 ^ r)"
proof (induction r)
  case 0
  then show ?case by (simp add: ceil_div_def)
next
  case (Suc r)
  then show ?case by (simp add: ceil_div_ceil_div mult.commute)
qed

lemma calc_length_elem_halving:
  "calc_length_elem 1 3 2 False r (of_int n) = ceil_div n (2 ^ r)"
  "calc_length_elem 0 2 2 True r (of_int n) = ceil_div n (2 ^ r)"
proof -
  have "out_size 1 3 2 False = (\<lambda>n. ceil_div n 2)" "out_size 0 2 2 True = (\<lambda>n. ceil_div n 2)"
    by (simp_all add: fun_eq_iff)
  then show "calc_length_elem 1 3 2 False r (of_int n) = ceil_div n (2 ^ r)"
    "calc_length_elem 0 2 2 True r (of_int n) = ceil_div n (2 ^ r)"
    by (simp_all add: calc_length_elem_of_int funpow_ceil_div_2)
qed

lemma calc_length_elem_halving_numeral [eval_simps]:
  "calc_length_elem 1 3 2 False r (numeral n) = ceil_div (numeral n) (2 ^ r)"
  "calc_length_elem 0 2 2 True r (numeral n) = ceil_div (numeral n) (2 ^ r)"
  "calc_length_elem 1 3 2 False r 1 = ceil_div 1 (2 ^ r)"
  "calc_length_elem 0 2 2 True r 1 = ceil_div 1 (2 ^ r)"
  using calc_length_elem_halving [of r "numeral n"] calc_length_elem_halving [of r 1] by simp_all

section \<open>Properties\<close>

text \<open>
  C2. The float loop of \<open>calc_length\<close>, applied to a vector of integer lengths, computes
  exactly the integer output-size formula \<open>out_size\<close> (floor or ceil division), iterated
  \<open>repeat_num\<close> times, for every padding, kernel size and rounding mode and every
  positive stride (the stride of both strategies is 2; a stride of 0 would make
  \<open>torch.div\<close> return infinities, which the rationals do not model).
\<close>

theorem calc_length_equiv_out_size:
  assumes "0 < stride"
  shows "calc_length (map of_int ns) padding kernel_size stride ceil_mode repeat_num =
           map (out_size padding kernel_size stride ceil_mode ^^ repeat_num) ns"
  by (simp add: calc_length_def calc_length_elem_of_int)

theorem calc_length_equiv_out_size_witness:
  "0 < (2 :: int) \<and>
   calc_length (map of_int [7, 8]) 1 3 2 False 2 = map (out_size 1 3 2 False ^^ 2) [7, 8]"
  using calc_length_equiv_out_size [of 2 "[7, 8]" 1 3 False 2] by simp

text \<open>
  C11. Bounds. With a positive stride and a padding no smaller than \<open>(kernel_size -
  stride) / 2\<close> (both strategies of the source qualify), every length in \<open>[0, t]\<close>
  (integer or not) is mapped into \<open>[0, t']\<close>, \<open>t'\<close> the output-size rule applied to
  \<open>t\<close> as many times.
\<close>

theorem calc_length_bounded:
  assumes "0 < stride" "- stride \<le> padding * 2 - kernel_size"
    and "\<forall>l\<in>set lengths. 0 \<le> l \<and> l \<le> of_int t"
  shows "\<forall>l'\<in>set (calc_length lengths padding kernel_size stride ceil_mode r).
           0 \<le> l' \<and> l' \<le> (out_size padding kernel_size stride ceil_mode ^^ r) t"
proof -
  have "0 \<le> calc_length_elem padding kernel_size stride ceil_mode r l \<and>
        calc_length_elem padding kernel_size stride ceil_mode r l \<le>
        calc_length_elem padding kernel_size stride ceil_mode r (of_int t)"
    if "l \<in> set lengths" for l
    using assms that by (intro calc_length_elem_mono_nonneg) auto
  then show ?thesis
    by (auto simp: calc_length_def calc_length_elem_of_int)
qed

theorem calc_length_bounded_witness:
  "list_all (\<lambda>l'. 0 \<le> l' \<and> l' \<le> 2) (calc_length [5, 1 / 2, 0] 1 3 2 False 2)"
proof -
  have "\<forall>l\<in>set [5, 1 / 2, 0 :: rat]. 0 \<le> l \<and> l \<le> of_int 5" by simp
  then have "\<forall>l'\<in>set (calc_length [5, 1 / 2, 0] 1 3 2 False 2).
               0 \<le> l' \<and> l' \<le> (out_size 1 3 2 False ^^ 2) 5"
    using calc_length_bounded [of 2 1 3 "[5, 1 / 2, 0]" 5 False 2] by simp
  moreover have "(out_size 1 3 2 False ^^ 2) 5 = 2"
    by (simp add: eval_simps ceil_div_def)
  ultimately show ?thesis by (simp add: list_all_iff)
qed

end
