(* ===== verification/ConvSubsampling.thy ===== *)
theory ConvSubsampling
  imports CalcLength Torch
begin

text \<open>
  \<open>ConvSubsampling\<close> of \<open>src/chrispnet/modules/encoder/prenet/subsampling.py\<close>
  (lines 49--167). The constructor \<open>__init__\<close> (\<open>conv_subsampling_init\<close>) checks the
  subsampling factor, computes the number of stages \<open>int(math.log(factor, 2))\<close>, builds
  the layer list of the \<open>"vggnet"\<close> or \<open>"striding"\<close> strategy
  (\<open>vggnet_layers\<close>, \<open>striding_layers\<close>, chosen by \<open>conv_stack\<close>), and sizes the
  output projection with \<open>calc_length\<close>. The module's state is the record
  \<open>conv_subsampling\<close>, one field per attribute the constructor sets. \<open>forward\<close>
  (\<open>conv_subsampling_forward\<close>) recomputes the lengths and runs the tensor's shape
  through the layers, the transpose/reshape and the projection. The lemmas compute the
  shape of each stack, characterise successful construction, and prove that the lengths
  the module reports agree with the time size of the tensor it returns.
\<close>

text \<open>The activation module passed to the constructor; the source's default is
  \<open>nn.ReLU()\<close>. It does not change a shape.\<close>

datatype activation = ReLU

section \<open>Building the layer stack\<close>

text \<open>\<open>for i in range(self._sampling_num)\<close> of the \<open>"vggnet"\<close> branch (lines 88--117):
  two 3x3 convolutions with their activations and a max-pool per stage; \<open>in_channels\<close>
  becomes \<open>conv_channels\<close> after the first stage.\<close>

fun vggnet_layers :: "nat \<Rightarrow> nat \<Rightarrow> nat \<Rightarrow> nat \<Rightarrow> nat \<Rightarrow> bool \<Rightarrow> 'act \<Rightarrow> nat \<Rightarrow> 'act layer list" where
  "vggnet_layers in_channels conv_channels kernel_size stride padding ceil_mode activation 0 = []"
| "vggnet_layers in_channels conv_channels kernel_size stride padding ceil_mode activation (Suc i) =
     [Conv2d in_channels conv_channels 3 1 1, Activation activation,
      Conv2d conv_channels conv_channels 3 1 1, Activation activation,
      MaxPool2d kernel_size stride padding ceil_mode]
     @ vggnet_layers conv_channels conv_channels kernel_size stride padding ceil_mode activation i"

text \<open>The loop of the \<open>"striding"\<close> branch (lines 124--135): one strided convolution and
  its activation per stage.\<close>

fun striding_layers :: "nat \<Rightarrow> nat \<Rightarrow> nat \<Rightarrow> nat \<Rightarrow> nat \<Rightarrow> 'act \<Rightarrow> nat \<Rightarrow> 'act layer list" where
  "striding_layers in_channels conv_channels kernel_size stride padding activation 0 = []"
| "striding_layers in_channels conv_channels kernel_size stride padding activation (Suc i) =
     [Conv2d in_channels conv_channels kernel_size stride padding, Activation activation]
     @ striding_layers conv_channels conv_channels kernel_size stride padding activation i"

lemma layers_numeral [eval_simps]:
  "vggnet_layers ic oc k s p cm a (numeral n) =
     [Conv2d ic oc 3 1 1, Activation a, Conv2d oc oc 3 1 1, Activation a, MaxPool2d k s p cm]
     @ vggnet_layers oc oc k s p cm a (pred_numeral n)"
  "striding_layers ic oc k s p a (numeral n) =
     [Conv2d ic oc k s p, Activation a] @ striding_layers oc oc k s p a (pred_numeral n)"
  by (simp_all add: numeral_eq_Suc)

text \<open>The strategy branch of the constructor (lines 82--137): the padding, stride, kernel
  size and rounding mode it stores, and the layers it builds; an unknown name raises.\<close>

definition conv_stack ::
  "string \<Rightarrow> nat \<Rightarrow> 'act \<Rightarrow> nat \<Rightarrow> (nat \<times> nat \<times> nat \<times> bool \<times> 'act layer list) result" where
  "conv_stack subsampling conv_channels activation sampling_num =
     (if subsampling = ''vggnet'' then
        (let padding = 0; stride = 2; kernel_size = 2; ceil_mode = True
         in Inr (padding, stride, kernel_size, ceil_mode,
                 vggnet_layers 1 conv_channels kernel_size stride padding ceil_mode activation sampling_num))
      else if subsampling = ''striding'' then
        (let padding = 1; stride = 2; kernel_size = 3; ceil_mode = False
         in Inr (padding, stride, kernel_size, ceil_mode,
                 striding_layers 1 conv_channels kernel_size stride padding activation sampling_num))
      else Inl (ValueError (''Not valid sub-sampling: '' @ subsampling @ ''!'')))"

section \<open>The module\<close>

record 'act conv_subsampling =
  subsampling_name :: string
  sampling_num :: nat
  padding :: nat
  stride :: nat
  kernel_size :: nat
  ceil_mode :: bool
  conv :: "'act layer list"
  out :: linear

text \<open>\<open>__init__\<close> (lines 62--149). The factor check uses Python's \<open>%\<close>, which is \<open>mod\<close>
  on \<open>int\<close>; \<open>math.log\<close> of a non-positive number raises \<open>ValueError("math domain
  error")\<close>; \<open>int(out_length)\<close> sizes \<open>nn.Linear\<close>, which refuses a negative size.\<close>

definition conv_subsampling_init ::
  "string \<Rightarrow> int \<Rightarrow> nat \<Rightarrow> nat \<Rightarrow> nat \<Rightarrow> 'act \<Rightarrow> 'act conv_subsampling result" where
  "conv_subsampling_init subsampling subsampling_factor feat_in feat_out conv_channels activation =
     (if subsampling_factor mod 2 \<noteq> 0 then Inl (ValueError ''Sampling factor should be a multiply of 2!'')
      else if subsampling_factor \<le> 0 then Inl (ValueError ''math domain error'')
      else
        (let num = ilog2 (nat subsampling_factor)
         in case conv_stack subsampling conv_channels activation num of
              Inl e \<Rightarrow> Inl e
            | Inr (pad, str, ks, cm, layers) \<Rightarrow>
                (let out_length = calc_length_elem (int pad) (int ks) (int str) cm num (of_nat feat_in);
                     in_f = int conv_channels * out_length
                 in if in_f < 0 then Inl (RuntimeError ''Trying to create tensor with negative dimension'')
                    else Inr \<lparr>subsampling_name = subsampling, sampling_num = num, padding = pad,
                              stride = str, kernel_size = ks, ceil_mode = cm, conv = layers,
                              out = \<lparr>in_features = nat in_f, out_features = feat_out\<rparr>\<rparr>)))"

text \<open>The length computation of \<open>forward\<close>, with the module's stored parameters.\<close>

definition conv_lengths :: "'act conv_subsampling \<Rightarrow> rat list \<Rightarrow> int list" where
  "conv_lengths m lengths =
     calc_length lengths (int (padding m)) (int (kernel_size m)) (int (stride m)) (ceil_mode m) (sampling_num m)"

text \<open>\<open>forward\<close> (lines 151--167): lengths first, then \<open>unsqueeze(1)\<close>, the layer stack,
  \<open>transpose(1, 2).reshape(b, t, -1)\<close> and the projection \<open>self.out\<close>.\<close>

definition conv_subsampling_forward ::
  "'act conv_subsampling \<Rightarrow> shape3 \<Rightarrow> rat list \<Rightarrow> (shape3 \<times> int list) result" where
  "conv_subsampling_forward m x lengths =
     (let lengths' = conv_lengths m lengths
      in case x of (bs, ts, ds) \<Rightarrow>
        (case sequential_shape (conv m) (bs, 1, ts, ds) of
           Inl e \<Rightarrow> Inl e
         | Inr (b, c, t, f) \<Rightarrow>
             (case reshape_infer_last b t (b * t * (c * f)) of
                Inl e \<Rightarrow> Inl e
              | Inr y \<Rightarrow>
                  (case linear_shape (out m) y of
                     Inl e \<Rightarrow> Inl e
                   | Inr z \<Rightarrow> Inr (z, lengths')))))"

section \<open>Shapes through the stacks\<close>

lemma conv_out_same: "conv_out 3 1 1 n = int n"
  by (simp add: conv_out_def)

lemma conv_out_stride2: "0 < n \<Longrightarrow> conv_out 3 2 1 n = int (half_up n)"
  by (simp add: conv_out_def half_up_def)

lemma pool_out_half: "0 < n \<Longrightarrow> pool_out 2 2 0 True n = int (half_up n)"
  by (simp add: pool_out_def half_up_def Let_def) presburger

lemma conv2d_same_shape:
  "0 < oc \<Longrightarrow> 0 < h \<Longrightarrow> 0 < w \<Longrightarrow> conv2d_shape ic oc 3 1 1 (b, ic, h, w) = Inr (b, oc, h, w)"
  by (simp add: conv2d_shape_def conv_out_def)

lemma conv2d_stride2_shape:
  "0 < oc \<Longrightarrow> 0 < h \<Longrightarrow> 0 < w \<Longrightarrow>
   conv2d_shape ic oc 3 2 1 (b, ic, h, w) = Inr (b, oc, half_up h, half_up w)"
  using conv_out_stride2 [of h] conv_out_stride2 [of w]
  by (simp add: conv2d_shape_def del: One_nat_def)

lemma maxpool2d_half_shape:
  "0 < h \<Longrightarrow> 0 < w \<Longrightarrow>
   maxpool2d_shape 2 2 0 True (b, c, h, w) = Inr (b, c, half_up h, half_up w)"
  by (simp add: maxpool2d_shape_def pool_out_half half_up_pos)

lemmas stage_shapes = conv2d_same_shape conv2d_stride2_shape maxpool2d_half_shape
  conv2d_same_shape [unfolded One_nat_def] conv2d_stride2_shape [unfolded One_nat_def]

lemma striding_layers_shape:
  "0 < oc \<Longrightarrow> 0 < h \<Longrightarrow> 0 < w \<Longrightarrow>
   sequential_shape (striding_layers ic oc 3 2 1 act r) (b, ic, h, w) =
     Inr (b, if r = 0 then ic else oc, (half_up ^^ r) h, (half_up ^^ r) w)"
proof (induction r arbitrary: ic h w)
  case 0
  then show ?case by simp
next
  case (Suc r)
  then have "0 < half_up h" "0 < half_up w" by (simp_all add: half_up_pos)
  with Suc.IH [of "half_up h" "half_up w" oc] Suc.prems show ?case
    by (simp add: sequential_shape_append stage_shapes funpow_swap1 split: if_splits)
qed

lemma vggnet_layers_shape:
  "0 < oc \<Longrightarrow> 0 < h \<Longrightarrow> 0 < w \<Longrightarrow>
   sequential_shape (vggnet_layers ic oc 2 2 0 True act r) (b, ic, h, w) =
     Inr (b, if r = 0 then ic else oc, (half_up ^^ r) h, (half_up ^^ r) w)"
proof (induction r arbitrary: ic h w)
  case 0
  then show ?case by simp
next
  case (Suc r)
  then have "0 < half_up h" "0 < half_up w" by (simp_all add: half_up_pos)
  with Suc.IH [of "half_up h" "half_up w" oc] Suc.prems show ?case
    by (simp add: sequential_shape_append stage_shapes funpow_swap1 split: if_splits)
qed

section \<open>What a successful construction builds\<close>

lemma ilog2_pos: "2 \<le> n \<Longrightarrow> 0 < ilog2 n"
  by (simp add: ilog2.simps)

lemma conv_stack_Inr:
  "conv_stack name C act r = Inr (p, s, k, cm, layers) \<Longrightarrow>
     (name = ''vggnet'' \<and> p = 0 \<and> s = 2 \<and> k = 2 \<and> cm \<and> layers = vggnet_layers 1 C 2 2 0 True act r) \<or>
     (name = ''striding'' \<and> p = 1 \<and> s = 2 \<and> k = 3 \<and> \<not> cm \<and> layers = striding_layers 1 C 3 2 1 act r)"
  by (auto simp: conv_stack_def Let_def split: if_splits)

lemma conv_stack_Inl:
  "conv_stack name C act r = Inl e \<Longrightarrow>
     name \<noteq> ''vggnet'' \<and> name \<noteq> ''striding'' \<and> e = ValueError (''Not valid sub-sampling: '' @ name @ ''!'')"
  by (auto simp: conv_stack_def Let_def split: if_splits)

text \<open>Both strategies: the stored parameters make \<open>calc_length\<close> halve a size \<open>r\<close> times,
  and the stack they build halves both spatial sizes \<open>r\<close> times and ends with
  \<open>conv_channels\<close> channels.\<close>

lemma conv_stack_calc_length:
  "conv_stack name C act r = Inr (p, s, k, cm, layers) \<Longrightarrow>
   calc_length_elem (int p) (int k) (int s) cm r (of_nat n) = int ((half_up ^^ r) n)"
  using calc_length_elem_halving [of r "int n"]
  by (auto dest!: conv_stack_Inr simp: int_funpow_half_up)

lemma conv_stack_shape:
  "conv_stack name C act r = Inr (p, s, k, cm, layers) \<Longrightarrow> 0 < C \<Longrightarrow> 0 < r \<Longrightarrow> 0 < h \<Longrightarrow> 0 < w \<Longrightarrow>
   sequential_shape layers (b, 1, h, w) = Inr (b, C, (half_up ^^ r) h, (half_up ^^ r) w)"
  by (auto dest!: conv_stack_Inr
      simp: striding_layers_shape [unfolded One_nat_def] vggnet_layers_shape)

lemma conv_subsampling_init_Inr:
  assumes "conv_subsampling_init name factor feat_in feat_out C act = Inr m"
  shows "0 < factor" "even factor" "sampling_num m = ilog2 (nat factor)"
    "conv_stack name C act (sampling_num m) =
       Inr (padding m, stride m, kernel_size m, ceil_mode m, conv m)"
    "out m = \<lparr>in_features = C * (half_up ^^ sampling_num m) feat_in, out_features = feat_out\<rparr>"
proof -
  have ev: "even factor" and pos: "0 < factor"
    using assms by (auto simp: conv_subsampling_init_def split: if_splits)
  obtain p s k cm layers where
    stk: "conv_stack name C act (ilog2 (nat factor)) = Inr (p, s, k, cm, layers)"
    using assms ev pos
    by (cases "conv_stack name C act (ilog2 (nat factor))")
       (auto simp: conv_subsampling_init_def Let_def)
  let ?r = "ilog2 (nat factor)"
  have cl: "calc_length_elem (int p) (int k) (int s) cm ?r (of_nat feat_in) =
            int ((half_up ^^ ?r) feat_in)"
    using stk by (rule conv_stack_calc_length)
  have m: "m = \<lparr>subsampling_name = name, sampling_num = ?r, padding = p, stride = s,
                kernel_size = k, ceil_mode = cm, conv = layers,
                out = \<lparr>in_features = C * (half_up ^^ ?r) feat_in, out_features = feat_out\<rparr>\<rparr>"
    using assms ev pos stk cl
    by (simp add: conv_subsampling_init_def Let_def del: of_nat_mult add: of_nat_mult [symmetric])
  show "0 < factor" "even factor" by (fact pos, fact ev)
  show "sampling_num m = ?r" by (simp add: m)
  show "conv_stack name C act (sampling_num m) =
          Inr (padding m, stride m, kernel_size m, ceil_mode m, conv m)"
    by (simp add: m stk)
  show "out m = \<lparr>in_features = C * (half_up ^^ sampling_num m) feat_in, out_features = feat_out\<rparr>"
    by (simp add: m)
qed

lemma conv_subsampling_sampling_num_pos:
  "conv_subsampling_init name factor feat_in feat_out C act = Inr m \<Longrightarrow> 0 < sampling_num m"
proof -
  assume init: "conv_subsampling_init name factor feat_in feat_out C act = Inr m"
  have "2 \<le> factor"
    using conv_subsampling_init_Inr(1,2) [OF init] by presburger
  then have "2 \<le> nat factor" by simp
  then show ?thesis
    by (simp add: conv_subsampling_init_Inr(3) [OF init] ilog2_pos)
qed

section \<open>What forward computes\<close>

lemma conv_subsampling_forward_Inr:
  assumes init: "conv_subsampling_init name factor feat_in feat_out C act = Inr m"
    and pos: "0 < B" "0 < T" "0 < D" and C: "0 < C"
    and width: "(half_up ^^ sampling_num m) D = (half_up ^^ sampling_num m) feat_in"
  shows "conv_subsampling_forward m (B, T, D) lengths =
           Inr ((B, (half_up ^^ sampling_num m) T, feat_out), conv_lengths m lengths)"
proof -
  let ?r = "sampling_num m"
  have stack: "sequential_shape (conv m) (B, 1, T, D) =
                 Inr (B, C, (half_up ^^ ?r) T, (half_up ^^ ?r) D)"
    using conv_subsampling_init_Inr(4) [OF init] C conv_subsampling_sampling_num_pos [OF init] pos(2,3)
    by (rule conv_stack_shape)
  have t: "0 < (half_up ^^ ?r) T" using pos by (simp add: funpow_half_up_pos)
  show ?thesis
    using stack t pos width conv_subsampling_init_Inr(5) [OF init]
    by (simp add: conv_subsampling_forward_def linear_shape_def)
qed

lemma conv_lengths_of_nat:
  "conv_subsampling_init name factor feat_in feat_out C act = Inr m \<Longrightarrow>
   conv_lengths m [of_nat T] = [int ((half_up ^^ sampling_num m) T)]"
  by (simp add: conv_lengths_def calc_length_def
      conv_stack_calc_length [OF conv_subsampling_init_Inr(4)])

lemma conv_subsampling_params:
  assumes "conv_subsampling_init name factor feat_in feat_out C act = Inr m"
  shows "0 < int (stride m)" "- int (stride m) \<le> int (padding m) * 2 - int (kernel_size m)"
  using conv_stack_Inr [OF conv_subsampling_init_Inr(4) [OF assms]] by auto

lemma conv_lengths_bounded:
  assumes "conv_subsampling_init name factor feat_in feat_out C act = Inr m"
    and "\<forall>l\<in>set lengths. 0 \<le> l \<and> l \<le> of_nat T"
  shows "\<forall>l'\<in>set (conv_lengths m lengths). 0 \<le> l' \<and> l' \<le> int ((half_up ^^ sampling_num m) T)"
proof -
  let ?c = "calc_length_elem (int (padding m)) (int (kernel_size m)) (int (stride m))
              (ceil_mode m) (sampling_num m)"
  have top: "?c (of_nat T) = int ((half_up ^^ sampling_num m) T)"
    using conv_lengths_of_nat [OF assms(1)] by (simp add: conv_lengths_def calc_length_def)
  have "0 \<le> ?c l \<and> ?c l \<le> ?c (of_nat T)" if "l \<in> set lengths" for l
    using assms(2) that conv_subsampling_params [OF assms(1)]
    by (intro calc_length_elem_mono_nonneg) auto
  then show ?thesis
    by (auto simp: conv_lengths_def calc_length_def top)
qed

text \<open>A module whose factor passes the checks and whose strategy is known is always
  built: the projection's size is never negative.\<close>

lemma conv_subsampling_init_stack_Inr:
  assumes "even factor" "0 < factor"
    and "conv_stack name C act (ilog2 (nat factor)) = Inr (p, s, k, cm, layers)"
  shows "\<exists>m. conv_subsampling_init name factor feat_in feat_out C act = Inr m"
proof -
  have "calc_length_elem (int p) (int k) (int s) cm (ilog2 (nat factor)) (of_nat feat_in) =
        int ((half_up ^^ ilog2 (nat factor)) feat_in)"
    using assms(3) by (rule conv_stack_calc_length)
  then show ?thesis
    using assms by (simp add: conv_subsampling_init_def Let_def del: of_nat_mult add: of_nat_mult [symmetric])
qed

lemma init_striding_4_80_32_4 [eval_simps]:
  "conv_subsampling_init ''striding'' 4 80 32 4 ReLU =
     Inr \<lparr>subsampling_name = ''striding'', sampling_num = 2, padding = 1, stride = 2,
      kernel_size = 3, ceil_mode = False, conv = striding_layers 1 4 3 2 1 ReLU 2,
      out = \<lparr>in_features = 80, out_features = 32\<rparr>\<rparr>"
  by (simp add: conv_subsampling_init_def conv_stack_def eval_simps ceil_div_def)

section \<open>Comparing the strategies\<close>

lemma conv_stack_calc_length_int:
  "conv_stack name C act r = Inr (p, s, k, cm, layers) \<Longrightarrow>
   calc_length_elem (int p) (int k) (int s) cm r (of_int n) = ceil_div n (2 ^ r)"
  by (auto dest!: conv_stack_Inr simp: calc_length_elem_halving)

lemma conv_subsampling_init_factor_Inl:
  "\<not> (even factor \<and> 0 < factor) \<Longrightarrow>
   conv_subsampling_init name factor feat_in feat_out C act =
     Inl (if odd factor then ValueError ''Sampling factor should be a multiply of 2!''
          else ValueError ''math domain error'')"
  by (auto simp: conv_subsampling_init_def odd_iff_mod_2_eq_one)

lemma conv_stack_known_Inr:
  "name = ''vggnet'' \<or> name = ''striding'' \<Longrightarrow> \<exists>p s k cm layers. conv_stack name C act r = Inr (p, s, k, cm, layers)"
  by (auto simp: conv_stack_def Let_def)

text \<open>What \<open>forward\<close> of a constructed module depends on: the number of stages, the
  projection, and the shapes and lengths its stack produces.\<close>

lemma conv_subsampling_forward_cong:
  assumes "sequential_shape (conv m) (B, 1, T, D) = sequential_shape (conv m') (B, 1, T, D)"
    and "conv_lengths m ls = conv_lengths m' ls" and "out m = out m'"
  shows "conv_subsampling_forward m (B, T, D) ls = conv_subsampling_forward m' (B, T, D) ls"
  unfolding conv_subsampling_forward_def Let_def prod.case assms by (rule refl)

lemma conv_stack_first_layer:
  "conv_stack name C act (Suc r) = Inr (p, s, k, cm, layers) \<Longrightarrow>
   \<exists>st rest. layers = Conv2d 1 C 3 st 1 # rest"
  by (auto dest!: conv_stack_Inr)

lemma conv2d_empty_axis:
  "0 < oc \<Longrightarrow> h = 0 \<or> w = 0 \<Longrightarrow>
   sequential_shape (Conv2d ic oc 3 st 1 # rest) (b, ic, h, w) =
     Inl (RuntimeError ''Kernel size can't be greater than actual input size'')"
  by (auto simp: conv2d_shape_def)

text \<open>The lengths a successful \<open>forward\<close> returns are those of \<open>calc_length\<close>, and
  they keep the order of the input lengths.\<close>

lemma conv_forward_lengths:
  "conv_subsampling_forward m x ls = Inr (y, ls') \<Longrightarrow> ls' = conv_lengths m ls"
  by (auto simp: conv_subsampling_forward_def Let_def split: prod.splits sum.splits)

lemma conv_lengths_mono:
  assumes "conv_subsampling_init name factor feat_in feat_out C act = Inr m"
    and "i < length ls" "k < length ls" "0 \<le> ls ! i" "ls ! i \<le> ls ! k"
  shows "conv_lengths m ls ! i \<le> conv_lengths m ls ! k"
  using calc_length_elem_mono_nonneg [OF conv_subsampling_params [OF assms(1)] assms(4,5)] assms(2,3)
  by (simp add: conv_lengths_def calc_length_def)

text \<open>With no convolution channels the first convolution's weight is empty, and
  PyTorch's shape check on the weight fails before any check on the input.\<close>

lemma conv_stack_zero_channels:
  assumes "conv_subsampling_init name factor feat_in feat_out 0 act = Inr m"
  shows "sequential_shape (conv m) x =
           Inl (RuntimeError ''expected weight to be at least 1 at dimension 0'')"
proof -
  obtain r where r: "sampling_num m = Suc r"
    using conv_subsampling_sampling_num_pos [OF assms] by (cases "sampling_num m") auto
  obtain st rest where cm: "conv m = Conv2d 1 0 3 st 1 # rest"
    using conv_stack_first_layer conv_subsampling_init_Inr(4) [OF assms] r by metis
  show ?thesis
    unfolding cm by (cases x) (simp add: conv2d_shape_def)
qed

section \<open>Properties\<close>

text \<open>
  C1. Consistency of the reported lengths with the tensor (the component's core
  invariant). For a module the constructor accepts with at least one convolution
  channel and an input of shape
  \<open>(B, T, feat_in)\<close> with positive sizes, \<open>forward\<close> succeeds: the convolution stack,
  the reshape and the projection all accept the shapes they get, the output has shape
  \<open>(B, T', feat_out)\<close>, and \<open>T'\<close> is exactly the length the module's own
  \<open>calc_length\<close> reports for a sequence that fills the whole time axis.
\<close>

theorem conv_subsampling_forward_consistent:
  assumes "conv_subsampling_init name factor feat_in feat_out C act = Inr m"
    and "0 < B" "0 < T" "0 < feat_in" "0 < C"
  shows "\<exists>t'. conv_subsampling_forward m (B, T, feat_in) lengths =
                Inr ((B, t', feat_out), conv_lengths m lengths) \<and>
              conv_lengths m [of_nat T] = [int t']"
  using conv_subsampling_forward_Inr [OF assms] conv_lengths_of_nat [OF assms(1)] by blast

theorem conv_subsampling_forward_consistent_witness:
  "conv_subsampling_init ''vggnet'' 8 80 144 16 ReLU =
     Inr \<lparr>subsampling_name = ''vggnet'', sampling_num = 3, padding = 0, stride = 2,
          kernel_size = 2, ceil_mode = True, conv = vggnet_layers 1 16 2 2 0 True ReLU 3,
          out = \<lparr>in_features = 160, out_features = 144\<rparr>\<rparr> \<and>
   (\<exists>t'. conv_subsampling_forward
          \<lparr>subsampling_name = ''vggnet'', sampling_num = 3, padding = 0, stride = 2,
           kernel_size = 2, ceil_mode = True, conv = vggnet_layers 1 16 2 2 0 True ReLU 3,
           out = \<lparr>in_features = 160, out_features = 144\<rparr>\<rparr> (2, 100, 80) [100, 37] =
          Inr ((2, t', 144), [13, 5]) \<and> t' = 13)"
proof -
  have init: "conv_subsampling_init ''vggnet'' 8 80 144 16 ReLU =
     Inr \<lparr>subsampling_name = ''vggnet'', sampling_num = 3, padding = 0, stride = 2,
          kernel_size = 2, ceil_mode = True, conv = vggnet_layers 1 16 2 2 0 True ReLU 3,
          out = \<lparr>in_features = 160, out_features = 144\<rparr>\<rparr>"
    by (simp add: conv_subsampling_init_def conv_stack_def eval_simps ceil_div_def)
  show ?thesis
    using conv_subsampling_forward_consistent [OF init, of 2 100 "[100, 37]"] init
    by (simp add: conv_lengths_def calc_length_def eval_simps ceil_div_def)
qed

text \<open>
  C3. Time reduction. When the subsampling factor is a power of two, \<open>2 ^ k\<close>, both
  strategies with at least one convolution channel shorten the time axis to
  \<open>ceil(T / factor)\<close>, as the spec's first testable property states.
\<close>

theorem conv_subsampling_time_pow2:
  assumes "conv_subsampling_init name factor feat_in feat_out C act = Inr m"
    and "factor = 2 ^ k" "0 < B" "0 < T" "0 < feat_in" "0 < C"
  shows "conv_subsampling_forward m (B, T, feat_in) lengths =
           Inr ((B, nat (ceil_div (int T) factor), feat_out), conv_lengths m lengths)"
proof -
  have "sampling_num m = k"
    using conv_subsampling_init_Inr(3) [OF assms(1)] assms(2) by (simp add: nat_power_eq)
  then have "(half_up ^^ sampling_num m) T = nat (ceil_div (int T) factor)"
    using int_funpow_half_up [of k T] assms(2) by simp
  then show ?thesis
    using conv_subsampling_forward_Inr [OF assms(1,3,4,5,6)] by simp
qed

theorem conv_subsampling_time_pow2_witness:
  "conv_subsampling_forward
     \<lparr>subsampling_name = ''striding'', sampling_num = 2, padding = 1, stride = 2,
      kernel_size = 3, ceil_mode = False, conv = striding_layers 1 4 3 2 1 ReLU 2,
      out = \<lparr>in_features = 80, out_features = 32\<rparr>\<rparr> (3, 1001, 80) [] =
   Inr ((3, 251, 32), [])"
proof -
  have init: "conv_subsampling_init ''striding'' 4 80 32 4 ReLU =
     Inr \<lparr>subsampling_name = ''striding'', sampling_num = 2, padding = 1, stride = 2,
      kernel_size = 3, ceil_mode = False, conv = striding_layers 1 4 3 2 1 ReLU 2,
      out = \<lparr>in_features = 80, out_features = 32\<rparr>\<rparr>"
    by (simp add: conv_subsampling_init_def conv_stack_def eval_simps ceil_div_def)
  have pow: "(4::int) = 2 ^ 2" by simp
  show ?thesis
    using conv_subsampling_time_pow2 [OF init pow, of 3 1001 "[]"]
    by (simp add: conv_lengths_def calc_length_def ceil_div_def)
qed

text \<open>
  C4. Length invariant. For a module with at least one convolution channel, if every entry of the length vector lies in \<open>[0, T]\<close>, the
  module returns lengths that lie in \<open>[0, T']\<close>, \<open>T'\<close> the time size of the tensor it
  returns.
\<close>

theorem conv_subsampling_lengths_bounded:
  assumes "conv_subsampling_init name factor feat_in feat_out C act = Inr m"
    and "0 < B" "0 < T" "0 < feat_in" "0 < C"
    and "\<forall>l\<in>set lengths. 0 \<le> l \<and> l \<le> of_nat T"
  shows "\<exists>t' ls'. conv_subsampling_forward m (B, T, feat_in) lengths = Inr ((B, t', feat_out), ls') \<and>
                 (\<forall>l'\<in>set ls'. 0 \<le> l' \<and> l' \<le> int t')"
  using conv_subsampling_forward_Inr [OF assms(1-5)] conv_lengths_bounded [OF assms(1,6)] by blast

theorem conv_subsampling_lengths_bounded_witness:
  "\<exists>t' ls'. conv_subsampling_forward
     \<lparr>subsampling_name = ''striding'', sampling_num = 2, padding = 1, stride = 2,
      kernel_size = 3, ceil_mode = False, conv = striding_layers 1 4 3 2 1 ReLU 2,
      out = \<lparr>in_features = 80, out_features = 32\<rparr>\<rparr> (2, 50, 80) [50, 7 / 2] =
     Inr ((2, t', 32), ls') \<and> list_all (\<lambda>l'. 0 \<le> l' \<and> l' \<le> int t') ls'"
proof -
  have init: "conv_subsampling_init ''striding'' 4 80 32 4 ReLU =
     Inr \<lparr>subsampling_name = ''striding'', sampling_num = 2, padding = 1, stride = 2,
      kernel_size = 3, ceil_mode = False, conv = striding_layers 1 4 3 2 1 ReLU 2,
      out = \<lparr>in_features = 80, out_features = 32\<rparr>\<rparr>"
    by (simp add: conv_subsampling_init_def conv_stack_def eval_simps ceil_div_def)
  have "\<forall>l\<in>set [50, 7 / 2 :: rat]. 0 \<le> l \<and> l \<le> of_nat 50" by simp
  then show ?thesis
    using conv_subsampling_lengths_bounded [OF init, of 2 50] by (simp add: list_all_iff)
qed

text \<open>
  C8. Construction errors. The constructor fails exactly in three cases, checked in this
  order: an odd factor (\<open>ValueError("Sampling factor should be a multiply of 2!")\<close>), a
  factor that is even but not positive (\<open>math.log\<close> raises \<open>ValueError("math domain
  error")\<close>), and a strategy other than \<open>"vggnet"\<close> and \<open>"striding"\<close>
  (\<open>ValueError("Not valid sub-sampling: ...!")\<close>). The projection's size check never fails.
\<close>

theorem conv_subsampling_init_errors:
  "conv_subsampling_init name factor feat_in feat_out C act = Inl e \<longleftrightarrow>
     (odd factor \<and> e = ValueError ''Sampling factor should be a multiply of 2!'') \<or>
     (even factor \<and> factor \<le> 0 \<and> e = ValueError ''math domain error'') \<or>
     (even factor \<and> 0 < factor \<and> name \<noteq> ''vggnet'' \<and> name \<noteq> ''striding'' \<and>
      e = ValueError (''Not valid sub-sampling: '' @ name @ ''!''))"
proof (cases "even factor \<and> 0 < factor")
  case False
  then show ?thesis
    by (auto simp: conv_subsampling_init_def)
next
  case True
  show ?thesis
  proof (cases "conv_stack name C act (ilog2 (nat factor))")
    case (Inl e')
    then have init: "conv_subsampling_init name factor feat_in feat_out C act = Inl e'"
      using True by (simp add: conv_subsampling_init_def)
    have e': "name \<noteq> ''vggnet'' \<and> name \<noteq> ''striding'' \<and>
          e' = ValueError (''Not valid sub-sampling: '' @ name @ ''!'')"
      using Inl by (rule conv_stack_Inl)
    show ?thesis
    proof
      assume "conv_subsampling_init name factor feat_in feat_out C act = Inl e"
      then have "e = e'" using init by simp
      then show "(odd factor \<and> e = ValueError ''Sampling factor should be a multiply of 2!'') \<or>
        (even factor \<and> factor \<le> 0 \<and> e = ValueError ''math domain error'') \<or>
        (even factor \<and> 0 < factor \<and> name \<noteq> ''vggnet'' \<and> name \<noteq> ''striding'' \<and>
         e = ValueError (''Not valid sub-sampling: '' @ name @ ''!''))"
        using e' True by blast
    next
      assume "(odd factor \<and> e = ValueError ''Sampling factor should be a multiply of 2!'') \<or>
        (even factor \<and> factor \<le> 0 \<and> e = ValueError ''math domain error'') \<or>
        (even factor \<and> 0 < factor \<and> name \<noteq> ''vggnet'' \<and> name \<noteq> ''striding'' \<and>
         e = ValueError (''Not valid sub-sampling: '' @ name @ ''!''))"
      moreover have "\<not> factor \<le> 0" using True by simp
      ultimately have "e = e'" using e' True by blast
      then show "conv_subsampling_init name factor feat_in feat_out C act = Inl e" using init by simp
    qed
  next
    case (Inr r)
    then obtain p s k cm layers where r: "conv_stack name C act (ilog2 (nat factor)) = Inr (p, s, k, cm, layers)"
      by (cases r) auto
    obtain m where init: "conv_subsampling_init name factor feat_in feat_out C act = Inr m"
      using conv_subsampling_init_stack_Inr [OF _ _ r, of feat_in feat_out] True by blast
    have "name = ''vggnet'' \<or> name = ''striding''"
      using conv_stack_Inr [OF r] by blast
    then show ?thesis using init True by auto
  qed
qed

theorem conv_subsampling_init_errors_witness:
  "conv_subsampling_init ''striding'' 3 80 320 256 ReLU =
     Inl (ValueError ''Sampling factor should be a multiply of 2!'') \<and>
   conv_subsampling_init ''striding'' 0 80 320 256 ReLU = Inl (ValueError ''math domain error'') \<and>
   conv_subsampling_init ''unknown'' 4 80 320 256 ReLU =
     Inl (ValueError ''Not valid sub-sampling: unknown!'')"
  using conv_subsampling_init_errors [of "''striding''" 3 80 320 256 ReLU
          "ValueError ''Sampling factor should be a multiply of 2!''"]
    conv_subsampling_init_errors [of "''striding''" 0 80 320 256 ReLU "ValueError ''math domain error''"]
    conv_subsampling_init_errors [of "''unknown''" 4 80 320 256 ReLU
          "ValueError ''Not valid sub-sampling: unknown!''"]
  by simp

text \<open>
  C9. The factor is not checked to be a power of two. The docstring says the factor
  "should be a power of 2" and the constructor only checks that it is even: factor 6 is
  accepted, \<open>int(math.log(6, 2)) = 2\<close> stages are built, and a 12-step input is
  shortened to 3 steps (a factor of 4), not to 2.
\<close>

theorem conv_subsampling_factor_6:
  "\<exists>m. conv_subsampling_init ''striding'' 6 80 320 256 ReLU = Inr m \<and> sampling_num m = 2 \<and>
       conv_subsampling_forward m (1, 12, 80) [12] = Inr ((1, 3, 320), [3])"
proof -
  let ?m = "\<lparr>subsampling_name = ''striding'', sampling_num = 2, padding = 1, stride = 2,
      kernel_size = 3, ceil_mode = False, conv = striding_layers 1 256 3 2 1 ReLU 2,
      out = \<lparr>in_features = 5120, out_features = 320\<rparr>\<rparr>"
  have init: "conv_subsampling_init ''striding'' 6 80 320 256 ReLU = Inr ?m"
    by (simp add: conv_subsampling_init_def conv_stack_def eval_simps ceil_div_def)
  have "conv_subsampling_forward ?m (1, 12, 80) [12] =
          Inr ((1, (half_up ^^ 2) 12, 320), conv_lengths ?m [12])"
    using conv_subsampling_forward_Inr [OF init, of 1 12 80 "[12]"] by simp
  then have "conv_subsampling_forward ?m (1, 12, 80) [12] = Inr ((1, 3, 320), [3])"
    by (simp add: half_up_def conv_lengths_def calc_length_def eval_simps ceil_div_def)
  with init show ?thesis by auto
qed

text \<open>
  C12. The input's feature width is not checked. \<open>forward\<close> never compares \<open>D\<close> with
  \<open>feat_in\<close>: the projection only sees \<open>conv_channels * ceil(D / 2^R)\<close>, so an input of
  77 features is accepted by a module built for 80 (both round up to 20 after two
  stages) and silently produces output.
\<close>

theorem conv_subsampling_accepts_wrong_width:
  "\<exists>m. conv_subsampling_init ''striding'' 4 80 32 4 ReLU = Inr m \<and>
       conv_subsampling_forward m (1, 16, 77) [16] = Inr ((1, 4, 32), [4])"
proof -
  have "(half_up ^^ 2) 77 = (half_up ^^ 2) (80::nat)"
    by (simp add: half_up_def eval_simps)
  then have "conv_subsampling_forward
     \<lparr>subsampling_name = ''striding'', sampling_num = 2, padding = 1, stride = 2,
      kernel_size = 3, ceil_mode = False, conv = striding_layers 1 4 3 2 1 ReLU 2,
      out = \<lparr>in_features = 80, out_features = 32\<rparr>\<rparr> (1, 16, 77) [16] = Inr ((1, 4, 32), [4])"
    using conv_subsampling_forward_Inr [OF init_striding_4_80_32_4, of 1 16 77 "[16]"]
    by (simp add: half_up_def conv_lengths_def calc_length_def eval_simps ceil_div_def)
  then show ?thesis by (simp add: init_striding_4_80_32_4)
qed

text \<open>
  C13. An empty batch fails. Convolutions with at least one output channel accept a
  batch of size 0, but
  \<open>reshape(b, t, -1)\<close> with \<open>b = 0\<close> cannot infer the last size, so \<open>forward\<close> raises
  for every module the constructor builds with \<open>conv_channels > 0\<close>.
\<close>

theorem conv_subsampling_empty_batch:
  assumes "conv_subsampling_init name factor feat_in feat_out C act = Inr m" "0 < T" "0 < D" "0 < C"
  shows "conv_subsampling_forward m (0, T, D) lengths =
           Inl (RuntimeError ''cannot reshape tensor of 0 elements: -1 is ambiguous'')"
proof -
  have "sequential_shape (conv m) (0, 1, T, D) =
          Inr (0, C, (half_up ^^ sampling_num m) T, (half_up ^^ sampling_num m) D)"
    using conv_subsampling_init_Inr(4) [OF assms(1)] assms(4) conv_subsampling_sampling_num_pos [OF assms(1)]
      assms(2,3)
    by (rule conv_stack_shape)
  then show ?thesis
    by (simp add: conv_subsampling_forward_def reshape_infer_last_def)
qed

theorem conv_subsampling_empty_batch_witness:
  "conv_subsampling_forward
     \<lparr>subsampling_name = ''striding'', sampling_num = 2, padding = 1, stride = 2,
      kernel_size = 3, ceil_mode = False, conv = striding_layers 1 4 3 2 1 ReLU 2,
      out = \<lparr>in_features = 80, out_features = 32\<rparr>\<rparr> (0, 16, 80) [] =
   Inl (RuntimeError ''cannot reshape tensor of 0 elements: -1 is ambiguous'')"
  using conv_subsampling_empty_batch [OF init_striding_4_80_32_4, of 16 80 "[]"] by simp

text \<open>
  C17. The two strategies are interchangeable. For the same factor, sizes and
  activation, \<open>"vggnet"\<close> and \<open>"striding"\<close> are either both rejected with the same error,
  or both built; then on every input with positive time and feature sizes and integer
  lengths their \<open>forward\<close> returns the same shape (or the same error) and the same
  lengths, although the layers and the rounding mode differ.
\<close>

theorem conv_subsampling_strategies_agree:
  assumes "0 < T" "0 < D"
  shows "case (conv_subsampling_init ''vggnet'' factor feat_in feat_out C act,
               conv_subsampling_init ''striding'' factor feat_in feat_out C act) of
           (Inr mv, Inr ms) \<Rightarrow>
             conv_subsampling_forward mv (B, T, D) (map of_int ns) =
             conv_subsampling_forward ms (B, T, D) (map of_int ns)
         | (Inl ev, Inl es) \<Rightarrow> ev = es
         | _ \<Rightarrow> False"
proof (cases "even factor \<and> 0 < factor")
  case False
  then show ?thesis by (simp add: conv_subsampling_init_factor_Inl)
next
  case True
  obtain mv where mv: "conv_subsampling_init ''vggnet'' factor feat_in feat_out C act = Inr mv"
  proof -
    obtain p s k cm layers where "conv_stack ''vggnet'' C act (ilog2 (nat factor)) = Inr (p, s, k, cm, layers)"
      using conv_stack_known_Inr [of "''vggnet''" C act "ilog2 (nat factor)"] by blast
    from conv_subsampling_init_stack_Inr [OF _ _ this, of feat_in feat_out] True
    show ?thesis using that by blast
  qed
  obtain ms where ms: "conv_subsampling_init ''striding'' factor feat_in feat_out C act = Inr ms"
  proof -
    obtain p s k cm layers where "conv_stack ''striding'' C act (ilog2 (nat factor)) = Inr (p, s, k, cm, layers)"
      using conv_stack_known_Inr [of "''striding''" C act "ilog2 (nat factor)"] by blast
    from conv_subsampling_init_stack_Inr [OF _ _ this, of feat_in feat_out] True
    show ?thesis using that by blast
  qed
  have num: "sampling_num mv = sampling_num ms"
    using conv_subsampling_init_Inr(3) [OF mv] conv_subsampling_init_Inr(3) [OF ms] by simp
  have "sequential_shape (conv mv) (B, 1, T, D) = sequential_shape (conv ms) (B, 1, T, D)"
  proof (cases "C = 0")
    case True
    then show ?thesis
      using conv_stack_zero_channels mv ms by metis
  next
    case False
    then show ?thesis
      using conv_stack_shape [OF conv_subsampling_init_Inr(4) [OF mv] _ conv_subsampling_sampling_num_pos [OF mv] assms]
        conv_stack_shape [OF conv_subsampling_init_Inr(4) [OF ms] _ conv_subsampling_sampling_num_pos [OF ms] assms]
        num by simp
  qed
  moreover have "conv_lengths mv (map of_int ns) = conv_lengths ms (map of_int ns)"
    using conv_stack_calc_length_int [OF conv_subsampling_init_Inr(4) [OF mv]]
      conv_stack_calc_length_int [OF conv_subsampling_init_Inr(4) [OF ms]] num
    by (simp add: conv_lengths_def calc_length_def)
  moreover have "out mv = out ms"
    using conv_subsampling_init_Inr(5) [OF mv] conv_subsampling_init_Inr(5) [OF ms] num by simp
  ultimately have "conv_subsampling_forward mv (B, T, D) (map of_int ns) =
                    conv_subsampling_forward ms (B, T, D) (map of_int ns)"
    by (rule conv_subsampling_forward_cong)
  then show ?thesis
    using mv ms by simp
qed

theorem conv_subsampling_strategies_agree_witness:
  "0 < (50::nat) \<and> 0 < (80::nat) \<and>
   conv_subsampling_forward
     \<lparr>subsampling_name = ''vggnet'', sampling_num = 2, padding = 0, stride = 2,
      kernel_size = 2, ceil_mode = True, conv = vggnet_layers 1 4 2 2 0 True ReLU 2,
      out = \<lparr>in_features = 80, out_features = 32\<rparr>\<rparr> (2, 50, 80) (map of_int [50, 7]) =
   conv_subsampling_forward
     \<lparr>subsampling_name = ''striding'', sampling_num = 2, padding = 1, stride = 2,
      kernel_size = 3, ceil_mode = False, conv = striding_layers 1 4 3 2 1 ReLU 2,
      out = \<lparr>in_features = 80, out_features = 32\<rparr>\<rparr> (2, 50, 80) (map of_int [50, 7])"
proof -
  have "conv_subsampling_init ''vggnet'' 4 80 32 4 ReLU =
     Inr \<lparr>subsampling_name = ''vggnet'', sampling_num = 2, padding = 0, stride = 2,
      kernel_size = 2, ceil_mode = True, conv = vggnet_layers 1 4 2 2 0 True ReLU 2,
      out = \<lparr>in_features = 80, out_features = 32\<rparr>\<rparr>"
    by (simp add: conv_subsampling_init_def conv_stack_def eval_simps ceil_div_def)
  then show ?thesis
    using conv_subsampling_strategies_agree [where T = 50 and D = 80 and factor = 4 and feat_in = 80
      and feat_out = 32 and C = 4 and act = ReLU and B = 2 and ns = "[50, 7]"]
    by (simp add: init_striding_4_80_32_4)
qed

text \<open>
  C18. The strategies differ on fractional lengths. The length rule is computed in floating
  point and \<open>forward\<close> accepts any float length vector; on a length that is not a whole
  number the two strategies' rules part: for factor 2, a length of one half becomes 1
  under \<open>"vggnet"\<close> (ceiling) and 0 under \<open>"striding"\<close> (floor).
\<close>

theorem conv_subsampling_strategies_differ_fractional:
  "\<exists>mv ms. conv_subsampling_init ''vggnet'' 2 80 32 4 ReLU = Inr mv \<and>
          conv_subsampling_init ''striding'' 2 80 32 4 ReLU = Inr ms \<and>
          conv_lengths mv [1 / 2] = [1] \<and> conv_lengths ms [1 / 2] = [0]"
proof -
  have "\<lceil>- (3 / 4 :: rat)\<rceil> = 0"
    by (rule ceiling_unique) simp_all
  then have v: "calc_length_elem 0 2 2 True 1 (1 / 2) = 1"
    by (simp add: calc_length_elem_def calc_length_step_def py_int_def)
  have "\<lfloor>- (1 / 4 :: rat)\<rfloor> = - 1"
    by (rule floor_unique) simp_all
  then have s: "calc_length_elem 1 3 2 False 1 (1 / 2) = 0"
    by (simp add: calc_length_elem_def calc_length_step_def py_int_def)
  show ?thesis
    using v s
    by (simp add: conv_subsampling_init_def conv_stack_def conv_lengths_def calc_length_def
        eval_simps ceil_div_def)
qed

text \<open>
  C23. An empty time or feature axis is rejected. For every module the constructor
  builds with at least one convolution channel, the first layer of the stack is a 3x3 convolution with padding 1, which needs
  at least one row and one column: \<open>forward\<close> on an input with \<open>T = 0\<close> or \<open>D = 0\<close>
  raises PyTorch's "Kernel size can't be greater than actual input size", even though
  \<open>calc_length\<close> would map the length 0 to 0.
\<close>

theorem conv_subsampling_empty_axis:
  assumes "conv_subsampling_init name factor feat_in feat_out C act = Inr m" "T = 0 \<or> D = 0" "0 < C"
  shows "conv_subsampling_forward m (B, T, D) lengths =
           Inl (RuntimeError ''Kernel size can't be greater than actual input size'')"
proof -
  obtain r where r: "sampling_num m = Suc r"
    using conv_subsampling_sampling_num_pos [OF assms(1)] by (cases "sampling_num m") auto
  obtain st rest where cm: "conv m = Conv2d 1 C 3 st 1 # rest"
    using conv_stack_first_layer conv_subsampling_init_Inr(4) [OF assms(1)] r by metis
  have "sequential_shape (conv m) (B, 1, T, D) =
          Inl (RuntimeError ''Kernel size can't be greater than actual input size'')"
    unfolding cm by (rule conv2d_empty_axis [OF assms(3,2)])
  then show ?thesis by (simp add: conv_subsampling_forward_def)
qed

theorem conv_subsampling_empty_axis_witness:
  "((0::nat) = 0 \<or> (80::nat) = 0) \<and>
   conv_subsampling_forward
     \<lparr>subsampling_name = ''striding'', sampling_num = 2, padding = 1, stride = 2,
      kernel_size = 3, ceil_mode = False, conv = striding_layers 1 4 3 2 1 ReLU 2,
      out = \<lparr>in_features = 80, out_features = 32\<rparr>\<rparr> (2, 0, 80) [0, 0] =
   Inl (RuntimeError ''Kernel size can't be greater than actual input size'')"
  using conv_subsampling_empty_axis [OF init_striding_4_80_32_4, of 0 80 2 "[0, 0]"] by simp

text \<open>
  C28. Zero convolution channels. The constructor never checks \<open>conv_channels\<close>: with
  \<open>conv_channels = 0\<close>, a valid factor and a known strategy it builds the module (every
  \<open>nn.Conv2d\<close> with no output channel, \<open>nn.Linear\<close> with no input feature), and then
  every call of \<open>forward\<close> raises in the first convolution, whatever the input and the
  lengths.
\<close>

theorem conv_subsampling_zero_channels:
  assumes "even factor" "0 < factor" "name = ''vggnet'' \<or> name = ''striding''"
  shows "\<exists>m. conv_subsampling_init name factor feat_in feat_out 0 act = Inr m \<and>
             (\<forall>x lengths. conv_subsampling_forward m x lengths =
                Inl (RuntimeError ''expected weight to be at least 1 at dimension 0''))"
proof -
  obtain p s k cm layers where stk: "conv_stack name 0 act (ilog2 (nat factor)) = Inr (p, s, k, cm, layers)"
    using conv_stack_known_Inr [OF assms(3), of 0 act "ilog2 (nat factor)"] by blast
  have "\<exists>m. conv_subsampling_init name factor feat_in feat_out 0 act = Inr m"
    by (rule conv_subsampling_init_stack_Inr [OF assms(1,2) stk])
  then obtain m where m: "conv_subsampling_init name factor feat_in feat_out 0 act = Inr m" ..
  have "conv_subsampling_forward m x lengths =
          Inl (RuntimeError ''expected weight to be at least 1 at dimension 0'')" for x lengths
    using conv_stack_zero_channels [OF m] by (cases x) (simp add: conv_subsampling_forward_def)
  then show ?thesis using m by blast
qed

theorem conv_subsampling_zero_channels_witness:
  "even (4 :: int) \<and> 0 < (4 :: int) \<and> (''striding'' = ''vggnet'' \<or> ''striding'' = ''striding'') \<and>
   (\<exists>m. conv_subsampling_init ''striding'' 4 80 32 0 ReLU = Inr m \<and>
      conv_subsampling_forward m (2, 50, 80) [50, 7] =
        Inl (RuntimeError ''expected weight to be at least 1 at dimension 0''))"
  using conv_subsampling_zero_channels [of 4 "''striding''" 80 32 ReLU] by auto

end
