(* ===== verification/ConvValues.thy ===== *)
theory ConvValues
  imports ConvSubsampling Tensor
begin

text \<open>
  The values of \<open>ConvSubsampling.forward\<close> (lines 151--167 of
  \<open>src/chrispnet/modules/encoder/prenet/subsampling.py\<close>). A 4-D tensor is a record of
  its sizes \<open>(B, C, H, W)\<close> and its entries as nested lists; \<open>tabulate4\<close> builds one from
  its sizes and an entry function. The layers act as PyTorch documents them:
  \<open>nn.Conv2d\<close> (\<open>conv2d_val\<close>: a bias plus a sum over input channels and the kernel
  window, zero padding outside the input), \<open>nn.MaxPool2d\<close> (\<open>maxpool2d_val\<close>: the
  largest entry of the part of the window inside the input, as padding with
  \<open>-\<infinity>\<close> does), \<open>nn.ReLU\<close> entry-wise, \<open>nn.Sequential\<close> in order with the
  first error stopping it. Each layer checks the shape first, with the shape model's
  definitions, so the errors are those of the shape model. The weights of the layer at
  position \<open>i\<close> of the \<open>Sequential\<close> are \<open>ps i\<close> (functions of the indices, as the
  parameters \<open>conv.i.weight\<close> and \<open>conv.i.bias\<close>). \<open>conv_subsampling_forward_values\<close>
  is the whole \<open>forward\<close>: \<open>unsqueeze(1)\<close>, the stack, \<open>transpose(1, 2).reshape(b, t, -1)\<close>
  and the projection \<open>self.out\<close> with its weights (a \<open>dense\<close>).

  Since every layer takes its output sizes from the shape model, the sizes and errors of
  the value model are those of the shape model by construction (\<open>layer_val_dims\<close>,
  \<open>sequential_val_dims\<close>), and every tensor the layers build is well formed; these are
  working lemmas, not claims. The claim of this theory is about the entries: with
  \<open>nn.ReLU\<close>, the features reaching the projection are non-negative (C21).
\<close>

record 'a tensor4 =
  dims4 :: shape4
  entries4 :: "'a list list list list"

definition tensor4_wf :: "'a tensor4 \<Rightarrow> bool" where
  "tensor4_wf x =
     (case dims4 x of (b, c, h, w) \<Rightarrow>
        length (entries4 x) = b \<and>
        (\<forall>img\<in>set (entries4 x). length img = c \<and>
           (\<forall>ch\<in>set img. length ch = h \<and> (\<forall>row\<in>set ch. length row = w))))"

definition tabulate4 :: "shape4 \<Rightarrow> (nat \<Rightarrow> nat \<Rightarrow> nat \<Rightarrow> nat \<Rightarrow> 'a) \<Rightarrow> 'a list list list list" where
  "tabulate4 s f =
     (case s of (b, c, h, w) \<Rightarrow>
        map (\<lambda>n. map (\<lambda>oc. map (\<lambda>i. map (\<lambda>j. f n oc i j) [0..<w]) [0..<h]) [0..<c]) [0..<b])"

text \<open>Entry \<open>(n, c, r, q)\<close> of the input, zero outside the image (the zero padding of a
  convolution).\<close>

definition pixel :: "'a::zero tensor4 \<Rightarrow> nat \<Rightarrow> nat \<Rightarrow> int \<Rightarrow> int \<Rightarrow> 'a" where
  "pixel x n c r q =
     (case dims4 x of (b, ch, h, w) \<Rightarrow>
        if 0 \<le> r \<and> r < int h \<and> 0 \<le> q \<and> q < int w then entries4 x ! n ! c ! nat r ! nat q else 0)"

record 'a conv_param =
  cweight :: "nat \<Rightarrow> nat \<Rightarrow> nat \<Rightarrow> nat \<Rightarrow> 'a"
  cbias :: "nat \<Rightarrow> 'a"

section \<open>Layers on values\<close>

definition conv2d_val ::
  "nat \<Rightarrow> nat \<Rightarrow> nat \<Rightarrow> nat \<Rightarrow> nat \<Rightarrow> 'a::comm_semiring_1 conv_param \<Rightarrow> 'a tensor4 \<Rightarrow> 'a tensor4 result" where
  "conv2d_val in_channels out_channels ks st pd prm x =
     (case conv2d_shape in_channels out_channels ks st pd (dims4 x) of
        Inl e \<Rightarrow> Inl e
      | Inr s \<Rightarrow> Inr \<lparr>dims4 = s, entries4 = tabulate4 s (\<lambda>n oc i j.
          cbias prm oc +
          sum_list (map (\<lambda>c. sum_list (map (\<lambda>ki. sum_list (map (\<lambda>kj.
              cweight prm oc c ki kj *
              pixel x n c (int (i * st + ki) - int pd) (int (j * st + kj) - int pd))
            [0..<ks])) [0..<ks])) [0..<in_channels]))\<rparr>)"

text \<open>The input rows (or columns) a pooling window covers: those of
  \<open>i st - pd, ..., i st - pd + kernel - 1\<close> inside the image.\<close>

definition window_idx :: "nat \<Rightarrow> nat \<Rightarrow> nat \<Rightarrow> nat \<Rightarrow> nat \<Rightarrow> int list" where
  "window_idx n ks st pd i =
     filter (\<lambda>r. 0 \<le> r \<and> r < int n) (map (\<lambda>k. int (i * st + k) - int pd) [0..<ks])"

definition list_max :: "'a::linorder list \<Rightarrow> 'a" where
  "list_max xs = fold max (tl xs) (hd xs)"

definition maxpool2d_val ::
  "nat \<Rightarrow> nat \<Rightarrow> nat \<Rightarrow> bool \<Rightarrow> 'a::{zero, linorder} tensor4 \<Rightarrow> 'a tensor4 result" where
  "maxpool2d_val ks st pd cm x =
     (case maxpool2d_shape ks st pd cm (dims4 x) of
        Inl e \<Rightarrow> Inl e
      | Inr s \<Rightarrow> Inr \<lparr>dims4 = s, entries4 = tabulate4 s (\<lambda>n c i j.
          case dims4 x of (b, ch, h, w) \<Rightarrow>
            list_max [pixel x n c r q. r \<leftarrow> window_idx h ks st pd i,
                                       q \<leftarrow> window_idx w ks st pd j])\<rparr>)"

fun act_fn :: "activation \<Rightarrow> 'a::{zero, linorder} \<Rightarrow> 'a" where
  "act_fn ReLU v = max 0 v"

definition activation_val :: "activation \<Rightarrow> 'a::{zero, linorder} tensor4 \<Rightarrow> 'a tensor4 result" where
  "activation_val a x = Inr (x\<lparr>entries4 := map (map (map (map (act_fn a)))) (entries4 x)\<rparr>)"

fun layer_val ::
  "activation layer \<Rightarrow> 'a::{comm_semiring_1, linorder} conv_param \<Rightarrow> 'a tensor4 \<Rightarrow> 'a tensor4 result" where
  "layer_val (Conv2d ic oc k s p) prm x = conv2d_val ic oc k s p prm x"
| "layer_val (Activation a) prm x = activation_val a x"
| "layer_val (MaxPool2d k s p c) prm x = maxpool2d_val k s p c x"

fun sequential_val ::
  "activation layer list \<Rightarrow> (nat \<Rightarrow> 'a::{comm_semiring_1, linorder} conv_param) \<Rightarrow> nat \<Rightarrow>
   'a tensor4 \<Rightarrow> 'a tensor4 result" where
  "sequential_val [] ps i x = Inr x"
| "sequential_val (l # ls) ps i x =
     (case layer_val l (ps i) x of Inl e \<Rightarrow> Inl e | Inr y \<Rightarrow> sequential_val ls ps (Suc i) y)"

section \<open>The module's forward on values\<close>

text \<open>\<open>x.unsqueeze(1)\<close>: a channel axis of size 1.\<close>

definition unsqueeze1 :: "'a tensor3 \<Rightarrow> 'a tensor4" where
  "unsqueeze1 x =
     (case dims x of (b, t, d) \<Rightarrow> \<lparr>dims4 = (b, 1, t, d), entries4 = map (\<lambda>img. [img]) (entries x)\<rparr>)"

text \<open>\<open>x.transpose(1, 2).reshape(b, t, -1)\<close> on a \<open>(b, c, t, f)\<close> tensor: time step \<open>t\<close>
  of item \<open>n\<close> is the rows \<open>t\<close> of the \<open>c\<close> channels side by side.\<close>

definition transpose_reshape :: "'a tensor4 \<Rightarrow> 'a list list list" where
  "transpose_reshape z =
     (case dims4 z of (b, c, t, f) \<Rightarrow>
        map (\<lambda>img. map (\<lambda>ti. concat (map (\<lambda>ch. ch ! ti) img)) [0..<t]) (entries4 z))"

definition conv_subsampling_forward_values ::
  "activation conv_subsampling \<Rightarrow> (nat \<Rightarrow> 'a::{comm_semiring_1, linorder} conv_param) \<Rightarrow> 'a dense \<Rightarrow>
   'a tensor3 \<Rightarrow> rat list \<Rightarrow> ('a tensor3 \<times> int list) result" where
  "conv_subsampling_forward_values m ps d x lengths =
     (let lengths' = conv_lengths m lengths
      in case sequential_val (conv m) ps 0 (unsqueeze1 x) of
           Inl e \<Rightarrow> Inl e
         | Inr z \<Rightarrow>
             (case dims4 z of (b, c, t, f) \<Rightarrow>
               (case reshape_infer_last b t (b * t * (c * f)) of
                  Inl e \<Rightarrow> Inl e
                | Inr y \<Rightarrow>
                    (case linear_shape (out m) y of
                       Inl e \<Rightarrow> Inl e
                     | Inr s \<Rightarrow>
                         Inr (\<lparr>dims = s, entries = map (map (dense_apply d)) (transpose_reshape z)\<rparr>,
                              lengths')))))"

section \<open>Lemmas\<close>

lemma tabulate4_wf [simp]: "tensor4_wf \<lparr>dims4 = s, entries4 = tabulate4 s f\<rparr>"
  by (cases s) (auto simp: tensor4_wf_def tabulate4_def)

lemma layer_val_dims: "map_sum id dims4 (layer_val l prm x) = layer_shape l (dims4 x)"
  by (cases l)
     (auto simp: conv2d_val_def maxpool2d_val_def activation_val_def split: sum.split)

lemma tensor4_wf_map_entries:
  "tensor4_wf x \<Longrightarrow> tensor4_wf (x\<lparr>entries4 := map (map (map (map f))) (entries4 x)\<rparr>)"
  by (auto simp: tensor4_wf_def split: prod.splits)

lemma layer_val_wf:
  assumes "tensor4_wf x" "layer_val l prm x = Inr y"
  shows "tensor4_wf y"
proof (cases l)
  case (Activation a)
  then have "y = x\<lparr>entries4 := map (map (map (map (act_fn a)))) (entries4 x)\<rparr>"
    using assms(2) by (simp add: activation_val_def)
  then show ?thesis
    using tensor4_wf_map_entries [OF assms(1)] by simp
qed (use assms in \<open>auto simp: conv2d_val_def maxpool2d_val_def split: sum.splits\<close>)

lemma sequential_val_dims:
  "map_sum id dims4 (sequential_val ls ps i x) = sequential_shape ls (dims4 x)"
proof (induction ls arbitrary: i x)
  case Nil
  then show ?case by simp
next
  case (Cons l ls)
  then show ?case
    using layer_val_dims [of l "ps i" x] by (auto split: sum.split)
qed

lemma sequential_val_wf:
  "tensor4_wf x \<Longrightarrow> sequential_val ls ps i x = Inr y \<Longrightarrow> tensor4_wf y"
proof (induction ls arbitrary: i x)
  case Nil
  then show ?case by simp
next
  case (Cons l ls)
  then show ?case
    by (auto split: sum.splits dest: layer_val_wf)
qed

lemma dims4_unsqueeze1 [simp]: "dims4 (unsqueeze1 x) = (case dims x of (b, t, d) \<Rightarrow> (b, 1, t, d))"
  by (simp add: unsqueeze1_def split: prod.split)

lemma unsqueeze1_wf: "tensor3_wf x \<Longrightarrow> tensor4_wf (unsqueeze1 x)"
  by (auto simp: unsqueeze1_def tensor3_wf_def tensor4_wf_def split: prod.splits)

lemma transpose_reshape_wf:
  assumes "tensor4_wf z" "dims4 z = (b, c, t, f)"
  shows "length (transpose_reshape z) = b"
    "img \<in> set (transpose_reshape z) \<Longrightarrow> length img = t \<and> (\<forall>fr\<in>set img. length fr = c * f)"
proof -
  show "length (transpose_reshape z) = b"
    using assms by (simp add: transpose_reshape_def tensor4_wf_def)
  assume "img \<in> set (transpose_reshape z)"
  then obtain zi where zi: "zi \<in> set (entries4 z)"
    and img: "img = map (\<lambda>ti. concat (map (\<lambda>ch. ch ! ti) zi)) [0..<t]"
    using assms(2) by (auto simp: transpose_reshape_def)
  have "length (concat (map (\<lambda>ch. ch ! ti) zi)) = c * f" if "ti < t" for ti
  proof -
    have "\<forall>r\<in>set (map (\<lambda>ch. ch ! ti) zi). length r = f"
      using assms zi that by (auto simp: tensor4_wf_def)
    then have "length (concat (map (\<lambda>ch. ch ! ti) zi)) = length (map (\<lambda>ch. ch ! ti) zi) * f"
      by (rule length_concat_uniform)
    then show ?thesis
      using assms zi by (simp add: tensor4_wf_def)
  qed
  then show "length img = t \<and> (\<forall>fr\<in>set img. length fr = c * f)"
    using img by auto
qed

lemma reshape_infer_last_Inr:
  "reshape_infer_last b t (b * t * n) = Inr y \<Longrightarrow> y = (b, t, n)"
  by (simp add: reshape_infer_last_def split: if_splits)

lemma linear_shape_Inr:
  "linear_shape lin (b, t, n) = Inr s \<Longrightarrow> s = (b, t, out_features lin) \<and> n = in_features lin"
  by (simp add: linear_shape_def split: if_splits)

lemma sequential_val_append:
  "sequential_val (xs @ ys) ps i x =
     (case sequential_val xs ps i x of Inl e \<Rightarrow> Inl e | Inr y \<Rightarrow> sequential_val ys ps (i + length xs) y)"
  by (induction xs arbitrary: i x) (auto split: sum.split)

definition nonneg4 :: "'a::{zero, linorder} tensor4 \<Rightarrow> bool" where
  "nonneg4 z = list_all (list_all (list_all (list_all (\<lambda>v. 0 \<le> v)))) (entries4 z)"

lemma relu_nonneg: "activation_val ReLU x = Inr y \<Longrightarrow> nonneg4 y"
  by (auto simp: activation_val_def nonneg4_def list_all_iff)

lemma list_max_mem: "xs \<noteq> [] \<Longrightarrow> list_max xs \<in> set xs"
proof -
  have "fold max ys a \<in> set (a # ys)" for ys and a :: 'a
    by (induction ys arbitrary: a) (auto simp: max_def)
  then show "xs \<noteq> [] \<Longrightarrow> list_max xs \<in> set xs"
    by (cases xs) (auto simp: list_max_def)
qed

text \<open>The windows of the \<open>"vggnet"\<close> pooling (kernel 2, stride 2, no padding, ceil mode)
  are never empty: window \<open>i\<close> starts at row \<open>2 i\<close>, inside the input.\<close>

lemma vggnet_window_nonempty:
  "i < nat (pool_out 2 2 0 True h) \<Longrightarrow> int (2 * i) \<in> set (window_idx h 2 2 0 i)"
proof -
  assume i: "i < nat (pool_out 2 2 0 True h)"
  have "0 < h"
  proof (rule ccontr)
    assume "\<not> 0 < h"
    then have "pool_out 2 2 0 True h = 0" by (simp add: pool_out_def)
    with i show False by simp
  qed
  then have "2 * i < h" using i by (simp add: pool_out_half half_up_def)
  then show ?thesis by (simp add: window_idx_def)
qed

lemma pixel_nonneg:
  assumes "tensor4_wf x" "nonneg4 x" "dims4 x = (b, ch, h, w)" "n < b" "c < ch"
  shows "0 \<le> pixel x n c r q"
proof (cases "0 \<le> r \<and> r < int h \<and> 0 \<le> q \<and> q < int w")
  case True
  let ?img = "entries4 x ! n"
  have img: "?img \<in> set (entries4 x)" using assms(1,3,4) by (simp add: tensor4_wf_def)
  then have chn: "?img ! c \<in> set ?img" using assms(1,3,5) by (simp add: tensor4_wf_def)
  have "length (?img ! c) = h" using assms(1,3) img chn by (auto simp: tensor4_wf_def)
  then have row: "?img ! c ! nat r \<in> set (?img ! c)" using True by (intro nth_mem) linarith
  have "length (?img ! c ! nat r) = w" using assms(1,3) img chn row by (auto simp: tensor4_wf_def)
  then have "?img ! c ! nat r ! nat q \<in> set (?img ! c ! nat r)" using True by (intro nth_mem) linarith
  then show ?thesis
    using assms(2,3) img chn row True by (auto simp: pixel_def nonneg4_def list_all_iff)
next
  case False
  then show ?thesis using assms(3) by (auto simp: pixel_def)
qed

lemma vggnet_pool_nonneg:
  assumes "tensor4_wf x" "nonneg4 x" "maxpool2d_val 2 2 0 True x = Inr y"
  shows "nonneg4 y"
proof -
  obtain b c h w where xd: "dims4 x = (b, c, h, w)" by (cases "dims4 x") auto
  obtain oh ow where s: "maxpool2d_shape 2 2 0 True (b, c, h, w) = Inr (b, c, oh, ow)"
    and oh: "oh = nat (pool_out 2 2 0 True h)" and ow: "ow = nat (pool_out 2 2 0 True w)"
    and y: "y = \<lparr>dims4 = (b, c, oh, ow), entries4 = tabulate4 (b, c, oh, ow) (\<lambda>n ch i j.
            list_max [pixel x n ch r q. r \<leftarrow> window_idx h 2 2 0 i, q \<leftarrow> window_idx w 2 2 0 j])\<rparr>"
    using assms(3) xd
    by (auto simp: maxpool2d_val_def maxpool2d_shape_def Let_def split: if_splits)
  have "0 \<le> list_max [pixel x n ch r q. r \<leftarrow> window_idx h 2 2 0 i, q \<leftarrow> window_idx w 2 2 0 j]"
    if "n < b" "ch < c" "i < oh" "j < ow" for n ch i j
  proof -
    let ?ws = "[pixel x n ch r q. r \<leftarrow> window_idx h 2 2 0 i, q \<leftarrow> window_idx w 2 2 0 j]"
    have "pixel x n ch (int (2 * i)) (int (2 * j)) \<in> set ?ws"
      using vggnet_window_nonempty [of i h] vggnet_window_nonempty [of j w] that oh ow by auto
    then have "?ws \<noteq> []" by auto
    moreover have "\<forall>v\<in>set ?ws. 0 \<le> v"
      using pixel_nonneg [OF assms(1,2) xd that(1,2)] by auto
    ultimately show ?thesis using list_max_mem by blast
  qed
  then show ?thesis
    using y by (auto simp: nonneg4_def tabulate4_def list_all_iff)
qed

lemma striding_layers_last:
  "\<exists>xs. striding_layers ic oc k s p a (Suc r) = xs @ [Conv2d (if r = 0 then ic else oc) oc k s p, Activation a]"
proof (induction r arbitrary: ic)
  case 0
  then show ?case by simp
next
  case (Suc r)
  from Suc.IH [of oc] obtain xs where
    "striding_layers oc oc k s p a (Suc r) = xs @ [Conv2d oc oc k s p, Activation a]"
    by auto
  then show ?case by simp
qed

lemma vggnet_layers_last:
  "\<exists>xs. vggnet_layers ic oc k s p cm a (Suc r) = xs @ [Activation a, MaxPool2d k s p cm]"
proof (induction r arbitrary: ic)
  case 0
  then show ?case by simp
next
  case (Suc r)
  then obtain xs where "vggnet_layers oc oc k s p cm a (Suc r) = xs @ [Activation a, MaxPool2d k s p cm]"
    by blast
  then show ?case by simp
qed

lemma init_striding_2_1_1_1 [eval_simps]:
  "conv_subsampling_init ''striding'' 2 1 1 1 ReLU =
     Inr \<lparr>subsampling_name = ''striding'', sampling_num = 1, padding = 1, stride = 2,
      kernel_size = 3, ceil_mode = False, conv = [Conv2d 1 1 3 2 1, Activation ReLU],
      out = \<lparr>in_features = 1, out_features = 1\<rparr>\<rparr>"
  by (simp add: conv_subsampling_init_def conv_stack_def eval_simps ceil_div_def)

lemma example_stack:
  "sequential_val [Conv2d 1 1 3 2 1, Activation ReLU] (\<lambda>_. \<lparr>cweight = \<lambda>_ _ _ _. 1, cbias = \<lambda>_. 0\<rparr>) 0
     (unsqueeze1 \<lparr>dims = (1, 1, 1), entries = [[[5 :: int]]]\<rparr>) =
   Inr \<lparr>dims4 = (1, 1, 1, 1), entries4 = [[[[5]]]]\<rparr>"
  by (simp add: unsqueeze1_def conv2d_val_def conv2d_shape_def conv_out_def activation_val_def
      tabulate4_def pixel_def upt_rec)

text \<open>What a successful \<open>forward\<close> on values consists of.\<close>

lemma conv_forward_values_Inr:
  assumes "conv_subsampling_forward_values m ps d x lengths = Inr (y, ls)"
  obtains z b c t f where "sequential_val (conv m) ps 0 (unsqueeze1 x) = Inr z" "dims4 z = (b, c, t, f)"
    "linear_shape (out m) (b, t, c * f) = Inr (dims y)"
    "dims y = (b, t, out_features (out m))" "in_features (out m) = c * f"
    "entries y = map (map (dense_apply d)) (transpose_reshape z)" "ls = conv_lengths m lengths"
proof -
  obtain z where z: "sequential_val (conv m) ps 0 (unsqueeze1 x) = Inr z"
    using assms by (cases "sequential_val (conv m) ps 0 (unsqueeze1 x)")
      (auto simp: conv_subsampling_forward_values_def)
  obtain b c t f where dz: "dims4 z = (b, c, t, f)" by (cases "dims4 z") auto
  obtain r where r: "reshape_infer_last b t (b * t * (c * f)) = Inr r"
    using assms z dz by (cases "reshape_infer_last b t (b * t * (c * f))")
      (auto simp: conv_subsampling_forward_values_def)
  have r': "r = (b, t, c * f)" using reshape_infer_last_Inr [OF r] .
  obtain s where s: "linear_shape (out m) (b, t, c * f) = Inr s"
    and y: "y = \<lparr>dims = s, entries = map (map (dense_apply d)) (transpose_reshape z)\<rparr>"
    and ls: "ls = conv_lengths m lengths"
    using assms z dz r r'
    by (cases "linear_shape (out m) (b, t, c * f)") (auto simp: conv_subsampling_forward_values_def)
  have s': "s = (b, t, out_features (out m))" "c * f = in_features (out m)"
    using linear_shape_Inr [OF s] by auto
  show ?thesis
  proof (rule that [OF z dz])
    show "linear_shape (out m) (b, t, c * f) = Inr (dims y)" using s y by simp
    show "dims y = (b, t, out_features (out m))" using s'(1) y by simp
    show "in_features (out m) = c * f" using s'(2) by simp
    show "entries y = map (map (dense_apply d)) (transpose_reshape z)" using y by simp
    show "ls = conv_lengths m lengths" by (fact ls)
  qed
qed

section \<open>Properties\<close>

text \<open>
  C21. The features reaching the projection are non-negative. Every stack the
  constructor builds ends with the activation, directly (\<open>"striding"\<close>) or under a
  max-pool (\<open>"vggnet"\<close>); with \<open>nn.ReLU\<close>, every entry the stack hands to
  \<open>transpose(1, 2).reshape\<close> and \<open>self.out\<close> is at least 0.
\<close>

theorem conv_subsampling_features_nonneg:
  assumes init: "conv_subsampling_init name factor feat_in feat_out C ReLU = Inr m"
    and x: "tensor3_wf x"
    and z: "sequential_val (conv m) ps 0 (unsqueeze1 (x :: 'a::linordered_idom tensor3)) = Inr z"
  shows "nonneg4 z"
proof -
  let ?r = "sampling_num m"
  obtain r' where r': "?r = Suc r'"
    using conv_subsampling_sampling_num_pos [OF init] by (cases ?r) auto
  have stack: "conv_stack name C ReLU ?r = Inr (padding m, stride m, kernel_size m, ceil_mode m, conv m)"
    by (rule conv_subsampling_init_Inr(4) [OF init])
  consider "conv m = vggnet_layers 1 C 2 2 0 True ReLU ?r"
    | "conv m = striding_layers 1 C 3 2 1 ReLU ?r"
    using conv_stack_Inr [OF stack] by blast
  then show ?thesis
  proof cases
    case 1
    then obtain xs where cm: "conv m = xs @ [Activation ReLU, MaxPool2d 2 2 0 True]"
      using vggnet_layers_last [of 1 C 2 2 0 True ReLU r'] r' by auto
    obtain y where y: "sequential_val xs ps 0 (unsqueeze1 x) = Inr y"
      using z cm by (cases "sequential_val xs ps 0 (unsqueeze1 x)") (auto simp: sequential_val_append)
    have wy: "tensor4_wf y" using sequential_val_wf [OF unsqueeze1_wf [OF x] y] .
    obtain y' where y': "activation_val ReLU y = Inr y'" by (simp add: activation_val_def)
    have "maxpool2d_val 2 2 0 True y' = Inr z"
      using z cm y y' by (simp add: sequential_val_append split: sum.splits)
    moreover have "tensor4_wf y'" using layer_val_wf [OF wy, of "Activation ReLU"] y' by simp
    ultimately show ?thesis using vggnet_pool_nonneg relu_nonneg [OF y'] by blast
  next
    case 2
    then obtain xs where cm: "conv m = xs @ [Activation ReLU]"
      using striding_layers_last [of 1 C 3 2 1 ReLU r'] r' by fastforce
    obtain y where y: "sequential_val xs ps 0 (unsqueeze1 x) = Inr y"
      using z cm by (cases "sequential_val xs ps 0 (unsqueeze1 x)") (auto simp: sequential_val_append)
    then have "activation_val ReLU y = Inr z"
      using z cm by (simp add: sequential_val_append split: sum.splits)
    then show ?thesis by (rule relu_nonneg)
  qed
qed

theorem conv_subsampling_features_nonneg_witness:
  "conv_subsampling_init ''striding'' 2 1 1 1 ReLU =
     Inr \<lparr>subsampling_name = ''striding'', sampling_num = 1, padding = 1, stride = 2,
      kernel_size = 3, ceil_mode = False, conv = [Conv2d 1 1 3 2 1, Activation ReLU],
      out = \<lparr>in_features = 1, out_features = 1\<rparr>\<rparr> \<and>
   tensor3_wf \<lparr>dims = (1, 1, 1), entries = [[[5 :: int]]]\<rparr> \<and>
   sequential_val [Conv2d 1 1 3 2 1, Activation ReLU] (\<lambda>_. \<lparr>cweight = \<lambda>_ _ _ _. 1, cbias = \<lambda>_. 0\<rparr>) 0
     (unsqueeze1 \<lparr>dims = (1, 1, 1), entries = [[[5 :: int]]]\<rparr>) =
     Inr \<lparr>dims4 = (1, 1, 1, 1), entries4 = [[[[5]]]]\<rparr> \<and>
   nonneg4 \<lparr>dims4 = (1, 1, 1, 1), entries4 = [[[[5 :: int]]]]\<rparr>"
proof -
  have wf: "tensor3_wf \<lparr>dims = (1, 1, 1), entries = [[[5 :: int]]]\<rparr>"
    by (simp add: tensor3_wf_def)
  show ?thesis
    using conv_subsampling_features_nonneg [OF init_striding_2_1_1_1 wf] example_stack
      init_striding_2_1_1_1 wf
    by simp
qed

end
