(* ===== verification/ReceptiveField.thy ===== *)
theory ReceptiveField
  imports ConvValues
begin

text \<open>
  Which input frames an output step of \<open>ConvSubsampling.forward\<close> depends on. Time is
  the row axis of the 4-D tensors the stack computes. \<open>agree_rows x x' lo hi\<close> says two
  tensors of the same sizes have the same rows \<open>lo .. hi - 1\<close>; \<open>rows_after l (lo, hi)\<close>
  is the band of output rows of layer \<open>l\<close> whose windows (rows
  \<open>i stride - padding .. i stride - padding + kernel - 1\<close>) lie inside the band, and
  \<open>rows_after_seq\<close> follows a band through a stack. The lemmas show that each layer of
  the value model maps agreeing bands to agreeing bands, hence the whole stack, and
  compute the band for the two strategies: output step \<open>j\<close> of a module with \<open>R\<close>
  stages reads the input frames \<open>receptive_field name R j\<close> and no others.
\<close>

section \<open>Bands of rows\<close>

definition agree_rows :: "'a tensor4 \<Rightarrow> 'a tensor4 \<Rightarrow> int \<Rightarrow> int \<Rightarrow> bool" where
  "agree_rows x x' lo hi =
     (dims4 x = dims4 x' \<and>
      (case dims4 x of (b, c, h, w) \<Rightarrow>
         list_all (\<lambda>n. list_all (\<lambda>ch. list_all (\<lambda>r. entries4 x ! n ! ch ! r = entries4 x' ! n ! ch ! r)
           (filter (\<lambda>r. lo \<le> int r \<and> int r < hi) [0..<h])) [0..<c]) [0..<b]))"

definition frames_agree :: "'a tensor3 \<Rightarrow> 'a tensor3 \<Rightarrow> int \<times> int \<Rightarrow> bool" where
  "frames_agree x x' band =
     (dims x = dims x' \<and>
      (case (dims x, band) of ((b, t, d), (lo, hi)) \<Rightarrow>
         list_all (\<lambda>n. list_all (\<lambda>r. entries x ! n ! r = entries x' ! n ! r)
           (filter (\<lambda>r. lo \<le> int r \<and> int r < hi) [0..<t])) [0..<b]))"

fun rows_after :: "'act layer \<Rightarrow> int \<times> int \<Rightarrow> int \<times> int" where
  "rows_after (Conv2d ic oc k s p) (lo, hi) =
     (ceil_div (lo + int p) (int s), (hi + int p - int k) div int s + 1)"
| "rows_after (Activation a) band = band"
| "rows_after (MaxPool2d k s p cm) (lo, hi) =
     (ceil_div (lo + int p) (int s), (hi + int p - int k) div int s + 1)"

fun rows_after_seq :: "'act layer list \<Rightarrow> int \<times> int \<Rightarrow> int \<times> int" where
  "rows_after_seq [] band = band"
| "rows_after_seq (l # ls) band = rows_after_seq ls (rows_after l band)"

fun stride_pos :: "'act layer \<Rightarrow> bool" where
  "stride_pos (Conv2d ic oc k s p) = (0 < s)"
| "stride_pos (Activation a) = True"
| "stride_pos (MaxPool2d k s p cm) = (0 < s)"

text \<open>The frames output step \<open>j\<close> reads, for \<open>R\<close> stages of each strategy.\<close>

definition receptive_field :: "string \<Rightarrow> nat \<Rightarrow> nat \<Rightarrow> int \<times> int" where
  "receptive_field name r j =
     (if name = ''vggnet'' then (2 ^ r * int j - 2 ^ Suc r + 2, 2 ^ r * int j + 3 * 2 ^ r - 2)
      else (2 ^ r * int j - 2 ^ r + 1, 2 ^ r * int j + 2 ^ r))"

section \<open>Lemmas\<close>

lemma le_int_div_iff: "0 < (b::int) \<Longrightarrow> (q \<le> a div b) = (q * b \<le> a)"
proof -
  assume b: "0 < b"
  have "a div b = \<lfloor>(of_int a :: rat) / of_int b\<rfloor>" by (rule floor_divide_of_int_eq [symmetric])
  then show ?thesis using b by (simp add: le_floor_iff pos_le_divide_eq flip: of_int_mult)
qed

lemma ceil_div_le_iff: "0 < (b::int) \<Longrightarrow> (ceil_div a b \<le> q) = (a \<le> q * b)"
proof -
  assume "0 < b"
  then have "(- q \<le> (- a) div b) = (- q * b \<le> - a)" by (rule le_int_div_iff)
  then show ?thesis by (simp add: ceil_div_def minus_le_iff)
qed

text \<open>A window of an output row inside the band lies inside the input band.\<close>

lemma window_in_band:
  assumes "0 < s" "ceil_div (lo + int p) (int s) \<le> int i" "int i < (hi + int p - int k) div int s + 1"
    and "kk < k"
  shows "lo \<le> int (i * s + kk) - int p \<and> int (i * s + kk) - int p < hi"
proof -
  have "lo + int p \<le> int i * int s" using assms(1,2) ceil_div_le_iff [of "int s"] by simp
  moreover have "int i \<le> (hi + int p - int k) div int s" using assms(3) by simp
  then have "int i * int s \<le> hi + int p - int k" using assms(1) le_int_div_iff [of "int s"] by simp
  ultimately show ?thesis using assms(4) by simp
qed

lemma pixel_agree:
  assumes "agree_rows x x' lo hi" "dims4 x = (b, c, h, w)" "n < b" "ch < c" "lo \<le> r" "r < hi"
  shows "pixel x n ch r q = pixel x' n ch r q"
proof (cases "0 \<le> r \<and> r < int h \<and> 0 \<le> q \<and> q < int w")
  case True
  have d': "dims4 x' = (b, c, h, w)" using assms(1,2) by (simp add: agree_rows_def)
  from True have "nat r \<in> set (filter (\<lambda>r. lo \<le> int r \<and> int r < hi) [0..<h])" using assms(5,6) by auto
  then have "entries4 x ! n ! ch ! nat r = entries4 x' ! n ! ch ! nat r"
    using assms(1-4) by (auto simp: agree_rows_def list_all_iff)
  then show ?thesis using True assms(2) d' by (simp add: pixel_def)
next
  case False
  have d': "dims4 x' = (b, c, h, w)" using assms(1,2) by (simp add: agree_rows_def)
  then show ?thesis by (simp only: pixel_def assms(2) prod.case if_not_P [OF False])
qed

lemma agree_rows_tabulate:
  assumes "\<And>n c' i j. n < b \<Longrightarrow> c' < c \<Longrightarrow> i < h \<Longrightarrow> lo \<le> int i \<Longrightarrow> int i < hi \<Longrightarrow> j < w \<Longrightarrow>
             f n c' i j = f' n c' i j"
  shows "agree_rows \<lparr>dims4 = (b, c, h, w), entries4 = tabulate4 (b, c, h, w) f\<rparr>
                    \<lparr>dims4 = (b, c, h, w), entries4 = tabulate4 (b, c, h, w) f'\<rparr> lo hi"
  using assms by (auto simp: agree_rows_def list_all_iff tabulate4_def)

lemma sum_list_map_cong:
  "(\<And>x. x \<in> set xs \<Longrightarrow> f x = g x) \<Longrightarrow> sum_list (map f xs) = sum_list (map g xs)"
  by (metis map_cong)

lemma agree_rows_dims: "agree_rows x x' lo hi \<Longrightarrow> dims4 x' = dims4 x"
  by (simp add: agree_rows_def)

lemma conv2d_val_agree:
  assumes ag: "agree_rows x x' lo hi" and s: "0 < s"
    and y: "conv2d_val ic oc k s p prm x = Inr y" and y': "conv2d_val ic oc k s p prm x' = Inr y'"
  shows "agree_rows y y' (ceil_div (lo + int p) (int s)) ((hi + int p - int k) div int s + 1)"
proof -
  obtain b c h w where d: "dims4 x = (b, c, h, w)" by (cases "dims4 x") auto
  have d': "dims4 x' = (b, c, h, w)" using agree_rows_dims [OF ag] d by simp
  obtain ho wo where sh: "conv2d_shape ic oc k s p (b, c, h, w) = Inr (b, oc, ho, wo)" and c: "c = ic"
    using y d by (auto simp: conv2d_val_def conv2d_shape_def split: if_splits)
  let ?f = "\<lambda>x n oc i j. cbias prm oc +
          sum_list (map (\<lambda>c. sum_list (map (\<lambda>ki. sum_list (map (\<lambda>kj.
              cweight prm oc c ki kj * pixel x n c (int (i * s + ki) - int p) (int (j * s + kj) - int p))
            [0..<k])) [0..<k])) [0..<ic])"
  have yy: "y = \<lparr>dims4 = (b, oc, ho, wo), entries4 = tabulate4 (b, oc, ho, wo) (?f x)\<rparr>"
    using y d sh by (simp add: conv2d_val_def)
  have yy': "y' = \<lparr>dims4 = (b, oc, ho, wo), entries4 = tabulate4 (b, oc, ho, wo) (?f x')\<rparr>"
    using y' d' sh by (simp add: conv2d_val_def)
  have "?f x n o' i j = ?f x' n o' i j"
    if "n < b" "ceil_div (lo + int p) (int s) \<le> int i" "int i < (hi + int p - int k) div int s + 1"
    for n o' i j
  proof -
    have "pixel x n c' (int (i * s + ki) - int p) q = pixel x' n c' (int (i * s + ki) - int p) q"
      if "c' < ic" "ki < k" for c' ki q
      using pixel_agree [OF ag d \<open>n < b\<close>, of c'] window_in_band [OF s, of lo p i hi k ki] c that
        \<open>ceil_div (lo + int p) (int s) \<le> int i\<close> \<open>int i < (hi + int p - int k) div int s + 1\<close>
      by simp
    then have "\<And>c' ki kj. c' \<in> set [0..<ic] \<Longrightarrow> ki \<in> set [0..<k] \<Longrightarrow> kj \<in> set [0..<k] \<Longrightarrow>
        cweight prm o' c' ki kj * pixel x n c' (int (i * s + ki) - int p) (int (j * s + kj) - int p) =
        cweight prm o' c' ki kj * pixel x' n c' (int (i * s + ki) - int p) (int (j * s + kj) - int p)"
      by simp
    then show ?thesis
      by (intro arg_cong2 [where f = "(+)"] refl sum_list_map_cong) blast
  qed
  then show ?thesis
    unfolding yy yy' by (intro agree_rows_tabulate) simp
qed

lemma window_idx_in_band:
  assumes "0 < s" "ceil_div (lo + int p) (int s) \<le> int i" "int i < (hi + int p - int k) div int s + 1"
    and "r \<in> set (window_idx h k s p i)"
  shows "lo \<le> r \<and> r < hi"
  using assms(4) window_in_band [OF assms(1-3)] by (auto simp: window_idx_def)

lemma maxpool2d_val_agree:
  assumes ag: "agree_rows x x' lo hi" and s: "0 < s"
    and y: "maxpool2d_val k s p cm x = Inr y" and y': "maxpool2d_val k s p cm x' = Inr y'"
  shows "agree_rows y y' (ceil_div (lo + int p) (int s)) ((hi + int p - int k) div int s + 1)"
proof -
  obtain b c h w where d: "dims4 x = (b, c, h, w)" by (cases "dims4 x") auto
  have d': "dims4 x' = (b, c, h, w)" using agree_rows_dims [OF ag] d by simp
  obtain oh ow where sh: "maxpool2d_shape k s p cm (b, c, h, w) = Inr (b, c, oh, ow)"
    using y d by (auto simp: maxpool2d_val_def maxpool2d_shape_def Let_def split: if_splits)
  let ?g = "\<lambda>x n ch i j. list_max [pixel x n ch r q. r \<leftarrow> window_idx h k s p i, q \<leftarrow> window_idx w k s p j]"
  have yy: "y = \<lparr>dims4 = (b, c, oh, ow), entries4 = tabulate4 (b, c, oh, ow) (?g x)\<rparr>"
    using y d sh by (simp add: maxpool2d_val_def)
  have yy': "y' = \<lparr>dims4 = (b, c, oh, ow), entries4 = tabulate4 (b, c, oh, ow) (?g x')\<rparr>"
    using y' d' sh by (simp add: maxpool2d_val_def)
  have "?g x n ch i j = ?g x' n ch i j"
    if "n < b" "ch < c" "ceil_div (lo + int p) (int s) \<le> int i" "int i < (hi + int p - int k) div int s + 1"
    for n ch i j
  proof -
    have "pixel x n ch r = pixel x' n ch r" if "r \<in> set (window_idx h k s p i)" for r
      using pixel_agree [OF ag d \<open>n < b\<close> \<open>ch < c\<close>] window_idx_in_band [OF s \<open>ceil_div (lo + int p) (int s) \<le> int i\<close>
          \<open>int i < (hi + int p - int k) div int s + 1\<close> that]
      by (simp add: fun_eq_iff)
    then have "map (\<lambda>r. map (pixel x n ch r) (window_idx w k s p j)) (window_idx h k s p i) =
               map (\<lambda>r. map (pixel x' n ch r) (window_idx w k s p j)) (window_idx h k s p i)"
      by (intro map_cong) simp_all
    then show ?thesis by (rule arg_cong [where f = "\<lambda>l. list_max (concat l)"])
  qed
  then show ?thesis
    unfolding yy yy' by (intro agree_rows_tabulate) simp
qed

lemma activation_val_agree:
  assumes wf: "tensor4_wf x" "tensor4_wf x'" and ag: "agree_rows x x' lo hi"
    and y: "activation_val a x = Inr y" and y': "activation_val a x' = Inr y'"
  shows "agree_rows y y' lo hi"
proof -
  obtain b c h w where d: "dims4 x = (b, c, h, w)" by (cases "dims4 x") auto
  have d': "dims4 x' = (b, c, h, w)" using agree_rows_dims [OF ag] d by simp
  have e: "entries4 z ! n ! ch ! r = map (act_fn a) (entries4 v ! n ! ch ! r)"
    if "tensor4_wf v" "dims4 v = (b, c, h, w)" "activation_val a v = Inr z" "n < b" "ch < c" "r < h"
    for v z n ch r
  proof -
    have "entries4 v ! n \<in> set (entries4 v)" "length (entries4 v) = b"
      using that(1,2,4) by (simp_all add: tensor4_wf_def)
    moreover have "length (entries4 v ! n) = c"
      using that(1,2,4) by (simp add: tensor4_wf_def)
    moreover have "length (entries4 v ! n ! ch) = h"
    proof -
      have en: "entries4 v ! n \<in> set (entries4 v)" "length (entries4 v ! n) = c"
        using that(1,2,4) by (simp_all add: tensor4_wf_def)
      then have "entries4 v ! n ! ch \<in> set (entries4 v ! n)" using that(5) by simp
      then show ?thesis using en(1) that(1,2) by (auto simp: tensor4_wf_def)
    qed
    moreover have "z = v\<lparr>entries4 := map (map (map (map (act_fn a)))) (entries4 v)\<rparr>"
      using that(3) by (simp add: activation_val_def)
    ultimately show ?thesis
      using that(4-6) by simp
  qed
  have "dims4 y = (b, c, h, w)" "dims4 y' = (b, c, h, w)"
    using y y' d d' by (auto simp: activation_val_def)
  then show ?thesis
    using ag d e [OF wf(1) d y] e [OF wf(2) d' y'] by (auto simp: agree_rows_def list_all_iff)
qed

lemma layer_val_agree:
  assumes "tensor4_wf x" "tensor4_wf x'" "agree_rows x x' lo hi" "stride_pos l"
    and "layer_val l prm x = Inr y" "layer_val l prm x' = Inr y'"
  shows "agree_rows y y' (fst (rows_after l (lo, hi))) (snd (rows_after l (lo, hi)))"
  using assms conv2d_val_agree [OF assms(3)] maxpool2d_val_agree [OF assms(3)]
    activation_val_agree [OF assms(1-3)]
  by (cases l) auto

lemma sequential_val_agree:
  assumes "tensor4_wf x" "tensor4_wf x'" "agree_rows x x' lo hi" "list_all stride_pos ls"
    and "sequential_val ls ps i x = Inr y" "sequential_val ls ps i x' = Inr y'"
  shows "agree_rows y y' (fst (rows_after_seq ls (lo, hi))) (snd (rows_after_seq ls (lo, hi)))"
  using assms
proof (induction ls arbitrary: i x x' lo hi)
  case Nil
  then show ?case by simp
next
  case (Cons l ls)
  obtain z where z: "layer_val l (ps i) x = Inr z"
    using Cons.prems(5) by (cases "layer_val l (ps i) x") auto
  obtain z' where z': "layer_val l (ps i) x' = Inr z'"
    using Cons.prems(6) by (cases "layer_val l (ps i) x'") auto
  have ag: "agree_rows z z' (fst (rows_after l (lo, hi))) (snd (rows_after l (lo, hi)))"
    using layer_val_agree [OF Cons.prems(1-3) _ z z'] Cons.prems(4) by simp
  have "agree_rows y y' (fst (rows_after_seq ls (fst (rows_after l (lo, hi)), snd (rows_after l (lo, hi)))))
          (snd (rows_after_seq ls (fst (rows_after l (lo, hi)), snd (rows_after l (lo, hi)))))"
    using Cons.IH [OF layer_val_wf [OF Cons.prems(1) z] layer_val_wf [OF Cons.prems(2) z'] ag]
      Cons.prems(4-6) z z' by simp
  then show ?case by simp
qed

section \<open>The bands of the two strategies\<close>

lemma striding_stride_pos: "0 < s \<Longrightarrow> list_all stride_pos (striding_layers ic oc k s p a r)"
  by (induction r arbitrary: ic) auto

lemma vggnet_stride_pos: "0 < s \<Longrightarrow> list_all stride_pos (vggnet_layers ic oc k s p cm a r)"
  by (induction r arbitrary: ic) auto

text \<open>One stage of each strategy halves a band, reading one more row on each side
  (\<open>"striding"\<close>) or two more rows before and two after (\<open>"vggnet"\<close>).\<close>

lemma striding_stage_band:
  "rows_after_seq (Conv2d ic oc 3 2 1 # Activation a # ls) (2 * L - 1, 2 * H) = rows_after_seq ls (L, H)"
proof -
  have "rows_after (Conv2d ic oc 3 2 1) (2 * L - 1, 2 * H) = (L, H)"
  proof -
    have "ceil_div (2 * L - 1 + int 1) (int 2) = L" by (simp add: ceil_div_def)
    moreover have "2 * H + int 1 - int 3 = 2 * (H - 1)" by simp
    ultimately show ?thesis by simp
  qed
  then show ?thesis by simp
qed

lemma vggnet_stage_band:
  "rows_after_seq (Conv2d ic oc 3 1 1 # Activation a # Conv2d oc oc 3 1 1 # Activation a #
                   MaxPool2d 2 2 0 True # ls) (2 * L - 2, 2 * H + 2) = rows_after_seq ls (L, H)"
proof -
  have c: "rows_after (Conv2d c1 c2 3 1 1) (lo, hi) = (lo + 1, hi - 1)" for c1 c2 lo hi
    by (simp add: ceil_div_def)
  have p: "rows_after (MaxPool2d 2 2 0 True) (2 * L, 2 * H) = (L, H)"
  proof -
    have "ceil_div (2 * L + int 0) (int 2) = L" by (simp add: ceil_div_def)
    moreover have "2 * H + int 0 - int 2 = 2 * (H - 1)" by simp
    ultimately show ?thesis by simp
  qed
  have "(2 * L - 2 + 1 + 1, 2 * H + 2 - 1 - 1) = (2 * L, 2 * H)" by simp
  then show ?thesis
    by (simp only: rows_after_seq.simps rows_after.simps(2) c p)
qed

lemma striding_band:
  "rows_after_seq (striding_layers ic oc 3 2 1 a r) (2 ^ r * int j - 2 ^ r + 1, 2 ^ r * int j + 2 ^ r) =
     (int j, int j + 1)"
proof (induction r arbitrary: ic)
  case 0
  then show ?case by simp
next
  case (Suc r)
  have l: "striding_layers ic oc 3 2 1 a (Suc r) = Conv2d ic oc 3 2 1 # Activation a # striding_layers oc oc 3 2 1 a r"
    by simp
  have b: "(2 ^ Suc r * int j - 2 ^ Suc r + 1, 2 ^ Suc r * int j + 2 ^ Suc r) =
           (2 * (2 ^ r * int j - 2 ^ r + 1) - 1, 2 * (2 ^ r * int j + 2 ^ r))"
    by (simp add: algebra_simps)
  show ?case
    unfolding l b striding_stage_band by (rule Suc.IH)
qed

lemma vggnet_band:
  "rows_after_seq (vggnet_layers ic oc 2 2 0 True a r)
     (2 ^ r * int j - 2 ^ Suc r + 2, 2 ^ r * int j + 3 * 2 ^ r - 2) = (int j, int j + 1)"
proof (induction r arbitrary: ic)
  case 0
  then show ?case by simp
next
  case (Suc r)
  have l: "vggnet_layers ic oc 2 2 0 True a (Suc r) =
      Conv2d ic oc 3 1 1 # Activation a # Conv2d oc oc 3 1 1 # Activation a # MaxPool2d 2 2 0 True #
      vggnet_layers oc oc 2 2 0 True a r"
    by simp
  have b: "(2 ^ Suc r * int j - 2 ^ Suc (Suc r) + 2, 2 ^ Suc r * int j + 3 * 2 ^ Suc r - 2) =
        (2 * (2 ^ r * int j - 2 ^ Suc r + 2) - 2, 2 * (2 ^ r * int j + 3 * 2 ^ r - 2) + 2)"
    by (simp add: algebra_simps)
  show ?case
    unfolding l b vggnet_stage_band by (rule Suc.IH)
qed

lemma unsqueeze1_agree:
  assumes "tensor3_wf x" "tensor3_wf x'" "frames_agree x x' (lo, hi)"
  shows "agree_rows (unsqueeze1 x) (unsqueeze1 x') lo hi"
proof -
  obtain b t d where dx: "dims x = (b, t, d)" by (cases "dims x") auto
  have dx': "dims x' = (b, t, d)" using assms(3) dx by (simp add: frames_agree_def)
  have "length (entries x) = b" "length (entries x') = b"
    using assms(1,2) dx dx' by (simp_all add: tensor3_wf_def)
  then show ?thesis
    using assms(3) dx dx' by (auto simp: agree_rows_def frames_agree_def unsqueeze1_def list_all_iff)
qed

lemma transpose_reshape_agree:
  assumes "tensor4_wf z" "tensor4_wf z'" "agree_rows z z' (int j) (int j + 1)" "dims4 z = (b, c, t, f)"
    and "n < b" "j < t"
  shows "transpose_reshape z ! n ! j = transpose_reshape z' ! n ! j"
proof -
  have dz': "dims4 z' = (b, c, t, f)" using agree_rows_dims [OF assms(3)] assms(4) by simp
  have len: "length (entries4 z) = b" "length (entries4 z') = b"
    "length (entries4 z ! n) = c" "length (entries4 z' ! n) = c"
    using assms(1,2,4,5) dz' by (simp_all add: tensor4_wf_def)
  have "entries4 z ! n ! ch ! j = entries4 z' ! n ! ch ! j" if "ch < c" for ch
    using assms(3-6) that by (auto simp: agree_rows_def list_all_iff)
  then have "map (\<lambda>ch. ch ! j) (entries4 z ! n) = map (\<lambda>ch. ch ! j) (entries4 z' ! n)"
    using len by (intro nth_equalityI) simp_all
  then show ?thesis
    using len assms(4,5,6) dz' by (simp add: transpose_reshape_def)
qed

lemma conv_layers_band:
  assumes "conv_subsampling_init name factor feat_in feat_out C act = Inr m"
  shows "list_all stride_pos (conv m) \<and>
         rows_after_seq (conv m) (receptive_field name (sampling_num m) j) = (int j, int j + 1)"
proof -
  have "conv_stack name C act (sampling_num m) = Inr (padding m, stride m, kernel_size m, ceil_mode m, conv m)"
    by (rule conv_subsampling_init_Inr(4) [OF assms])
  from conv_stack_Inr [OF this]
  consider "name = ''vggnet''" "conv m = vggnet_layers 1 C 2 2 0 True act (sampling_num m)"
    | "name = ''striding''" "conv m = striding_layers 1 C 3 2 1 act (sampling_num m)"
    by blast
  then show ?thesis
  proof cases
    case 1
    then show ?thesis
      using vggnet_band [of 1 C act "sampling_num m" j] vggnet_stride_pos [of 2 1 C 2 0 True act]
      by (simp add: receptive_field_def)
  next
    case 2
    then show ?thesis
      using striding_band [of 1 C act "sampling_num m" j] striding_stride_pos [of 2 1 C 3 1 act]
      by (simp add: receptive_field_def)
  qed
qed

text \<open>The module \<open>ConvSubsampling("striding", 2, 1, 1, 1)\<close> with all convolution weights 1
  and bias 0, on three frames \<open>a, b, c\<close>: output step 0 is \<open>max 0 (a + b)\<close> (rows -1, 0, 1,
  row -1 being padding) and step 1 is \<open>max 0 (b + c)\<close>.\<close>

lemma example_forward3:
  "conv_subsampling_forward_values
     \<lparr>subsampling_name = ''striding'', sampling_num = 1, padding = 1, stride = 2,
      kernel_size = 3, ceil_mode = False, conv = [Conv2d 1 1 3 2 1, Activation ReLU],
      out = \<lparr>in_features = 1, out_features = 1\<rparr>\<rparr>
     (\<lambda>_. \<lparr>cweight = \<lambda>_ _ _ _. 1, cbias = \<lambda>_. 0\<rparr>)
     \<lparr>in_features = 1, out_features = 1, weight = [[1]], bias = [0]\<rparr>
     \<lparr>dims = (1, 3, 1), entries = [[[a], [b], [c :: int]]]\<rparr> [3] =
   Inr (\<lparr>dims = (1, 2, 1), entries = [[[max 0 (a + b)], [max 0 (b + c)]]]\<rparr>, [2])"
proof -
  have st: "sequential_val [Conv2d 1 1 3 2 1, Activation ReLU] (\<lambda>_. \<lparr>cweight = \<lambda>_ _ _ _. 1, cbias = \<lambda>_. 0\<rparr>) 0
     (unsqueeze1 \<lparr>dims = (1, 3, 1), entries = [[[a], [b], [c :: int]]]\<rparr>) =
     Inr \<lparr>dims4 = (1, 1, 2, 1), entries4 = [[[[max 0 (a + b)], [max 0 (b + c)]]]]\<rparr>"
    by (simp add: unsqueeze1_def conv2d_val_def conv2d_shape_def conv_out_def activation_val_def
        tabulate4_def pixel_def upt_rec)
  show ?thesis
    unfolding conv_subsampling_forward_values_def Let_def
      conv_subsampling.select_convs st
    by (simp add: transpose_reshape_def dense_apply_def linear_shape_def reshape_infer_last_def
        conv_lengths_def calc_length_def eval_simps ceil_div_def upt_rec)
qed

section \<open>Properties\<close>

text \<open>
  C24. Receptive field. For a module the constructor builds with \<open>R\<close> stages, output step
  \<open>j\<close> depends only on the input frames in \<open>receptive_field name R j\<close>:
  \<open>2^R j - 2^R + 1 .. 2^R j + 2^R - 1\<close> for \<open>"striding"\<close>,
  \<open>2^R j - 2^(R+1) + 2 .. 2^R j + 3 * 2^R - 3\<close> for \<open>"vggnet"\<close>. Two well-formed inputs
  that agree on those frames give the same output step \<open>j\<close>, whatever the weights and the
  other frames.
\<close>

theorem conv_subsampling_receptive_field:
  assumes init: "conv_subsampling_init name factor feat_in feat_out C act = Inr m"
    and wf: "tensor3_wf x" "tensor3_wf x'"
    and ag: "frames_agree x x' (receptive_field name (sampling_num m) j)"
    and y: "conv_subsampling_forward_values m ps d x lengths = Inr (y, ls)"
    and y': "conv_subsampling_forward_values m ps d x' lengths' = Inr (y', ls')"
    and n: "n < fst (dims y)" and j: "j < fst (snd (dims y))"
  shows "entries y ! n ! j = entries y' ! n ! j"
proof -
  obtain z b c t f where z: "sequential_val (conv m) ps 0 (unsqueeze1 x) = Inr z"
    and dz: "dims4 z = (b, c, t, f)" and "linear_shape (out m) (b, t, c * f) = Inr (dims y)"
    and dy: "dims y = (b, t, out_features (out m))" and "in_features (out m) = c * f"
    and ey: "entries y = map (map (dense_apply d)) (transpose_reshape z)"
    and "ls = conv_lengths m lengths"
    by (rule conv_forward_values_Inr [OF y])
  obtain z' b' c' t' f' where z': "sequential_val (conv m) ps 0 (unsqueeze1 x') = Inr z'"
    and "dims4 z' = (b', c', t', f')" and "linear_shape (out m) (b', t', c' * f') = Inr (dims y')"
    and "dims y' = (b', t', out_features (out m))" and "in_features (out m) = c' * f'"
    and ey': "entries y' = map (map (dense_apply d)) (transpose_reshape z')"
    and "ls' = conv_lengths m lengths'"
    by (rule conv_forward_values_Inr [OF y'])
  obtain lo hi where band: "receptive_field name (sampling_num m) j = (lo, hi)" by fastforce
  have rb: "list_all stride_pos (conv m)" "rows_after_seq (conv m) (lo, hi) = (int j, int j + 1)"
    using conv_layers_band [OF init, of j] band by auto
  have wz: "tensor4_wf z" "tensor4_wf z'"
    using sequential_val_wf [OF unsqueeze1_wf [OF wf(1)] z] sequential_val_wf [OF unsqueeze1_wf [OF wf(2)] z']
    by auto
  have "agree_rows z z' (int j) (int j + 1)"
    using sequential_val_agree [OF unsqueeze1_wf [OF wf(1)] unsqueeze1_wf [OF wf(2)]
        unsqueeze1_agree [OF wf ag [unfolded band]] rb(1) z z'] rb(2) by simp
  then have "transpose_reshape z ! n ! j = transpose_reshape z' ! n ! j"
    using transpose_reshape_agree [OF wz] dz n j dy by simp
  moreover have "n < length (transpose_reshape z)" "j < length (transpose_reshape z ! n)"
    "n < length (transpose_reshape z')" "j < length (transpose_reshape z' ! n)"
    using transpose_reshape_wf [OF wz(1) dz] n j dy agree_rows_dims [OF \<open>agree_rows z z' (int j) (int j + 1)\<close>]
      transpose_reshape_wf [OF wz(2)] dz
    by (auto simp: transpose_reshape_def)
  ultimately show ?thesis using ey ey' by simp
qed

theorem conv_subsampling_receptive_field_witness:
  "conv_subsampling_init ''striding'' 2 1 1 1 ReLU =
     Inr \<lparr>subsampling_name = ''striding'', sampling_num = 1, padding = 1, stride = 2,
      kernel_size = 3, ceil_mode = False, conv = [Conv2d 1 1 3 2 1, Activation ReLU],
      out = \<lparr>in_features = 1, out_features = 1\<rparr>\<rparr> \<and>
   tensor3_wf \<lparr>dims = (1, 3, 1), entries = [[[1], [2], [3 :: int]]]\<rparr> \<and>
   tensor3_wf \<lparr>dims = (1, 3, 1), entries = [[[1], [2], [9 :: int]]]\<rparr> \<and>
   frames_agree \<lparr>dims = (1, 3, 1), entries = [[[1], [2], [3 :: int]]]\<rparr>
     \<lparr>dims = (1, 3, 1), entries = [[[1], [2], [9]]]\<rparr> (receptive_field ''striding'' 1 0) \<and>
   entries \<lparr>dims = (1, 2, 1), entries = [[[3], [5 :: int]]]\<rparr> ! 0 ! 0 =
   entries \<lparr>dims = (1, 2, 1), entries = [[[3], [11 :: int]]]\<rparr> ! 0 ! 0"
proof -
  let ?m = "\<lparr>subsampling_name = ''striding'', sampling_num = 1, padding = 1, stride = 2,
      kernel_size = 3, ceil_mode = False, conv = [Conv2d 1 1 3 2 1, Activation ReLU],
      out = \<lparr>in_features = 1, out_features = 1\<rparr>\<rparr>"
  let ?x = "\<lparr>dims = (1, 3, 1), entries = [[[1], [2], [3 :: int]]]\<rparr>"
  let ?x' = "\<lparr>dims = (1, 3, 1), entries = [[[1], [2], [9 :: int]]]\<rparr>"
  have wf: "tensor3_wf ?x" "tensor3_wf ?x'" by (simp_all add: tensor3_wf_def)
  have "receptive_field ''striding'' (sampling_num ?m) 0 = (-1, 2)"
    by (simp add: receptive_field_def)
  moreover have "frames_agree ?x ?x' (-1, 2)"
    by (simp add: frames_agree_def numeral_3_eq_3 upt_conv_Cons)
  ultimately have ag: "frames_agree ?x ?x' (receptive_field ''striding'' (sampling_num ?m) 0)"
    by simp
  have fx: "conv_subsampling_forward_values ?m (\<lambda>_. \<lparr>cweight = \<lambda>_ _ _ _. 1, cbias = \<lambda>_. 0\<rparr>)
      \<lparr>in_features = 1, out_features = 1, weight = [[1]], bias = [0]\<rparr> ?x [3] =
      Inr (\<lparr>dims = (1, 2, 1), entries = [[[3], [5]]]\<rparr>, [2])"
    using example_forward3 [of 1 2 3] by simp
  have fx': "conv_subsampling_forward_values ?m (\<lambda>_. \<lparr>cweight = \<lambda>_ _ _ _. 1, cbias = \<lambda>_. 0\<rparr>)
      \<lparr>in_features = 1, out_features = 1, weight = [[1]], bias = [0]\<rparr> ?x' [3] =
      Inr (\<lparr>dims = (1, 2, 1), entries = [[[3], [11]]]\<rparr>, [2])"
    using example_forward3 [of 1 2 9] by simp
  have "entries \<lparr>dims = (1, 2, 1), entries = [[[3], [5 :: int]]]\<rparr> ! 0 ! 0 =
        entries \<lparr>dims = (1, 2, 1), entries = [[[3], [11 :: int]]]\<rparr> ! 0 ! 0"
    using conv_subsampling_receptive_field [OF init_striding_2_1_1_1 wf ag fx fx'] by simp
  then show ?thesis using init_striding_2_1_1_1 wf ag by simp
qed

text \<open>
  C25. The front end looks ahead. Output step \<open>j\<close> is computed from input frames after
  \<open>j 2^R\<close> as well: for the striding module with one stage, two inputs that agree on
  frame 0 but differ on frame 1 give different output steps 0. The subsampling is not
  causal, so the receptive field of C24 cannot be cut at the present frame.
\<close>

theorem conv_subsampling_looks_ahead:
  "\<exists>m y y' ls ls'. conv_subsampling_init ''striding'' 2 1 1 1 ReLU = Inr m \<and>
     conv_subsampling_forward_values m (\<lambda>_. \<lparr>cweight = \<lambda>_ _ _ _. 1, cbias = \<lambda>_. 0\<rparr>)
       \<lparr>in_features = 1, out_features = 1, weight = [[1]], bias = [0]\<rparr>
       \<lparr>dims = (1, 3, 1), entries = [[[1], [2], [3 :: int]]]\<rparr> [3] = Inr (y, ls) \<and>
     conv_subsampling_forward_values m (\<lambda>_. \<lparr>cweight = \<lambda>_ _ _ _. 1, cbias = \<lambda>_. 0\<rparr>)
       \<lparr>in_features = 1, out_features = 1, weight = [[1]], bias = [0]\<rparr>
       \<lparr>dims = (1, 3, 1), entries = [[[1], [7], [3 :: int]]]\<rparr> [3] = Inr (y', ls') \<and>
     frames_agree \<lparr>dims = (1, 3, 1), entries = [[[1], [2], [3 :: int]]]\<rparr>
       \<lparr>dims = (1, 3, 1), entries = [[[1], [7], [3]]]\<rparr> (0, 1) \<and>
     entries y ! 0 ! 0 \<noteq> entries y' ! 0 ! 0"
proof -
  have "frames_agree \<lparr>dims = (1, 3, 1), entries = [[[1], [2], [3 :: int]]]\<rparr>
       \<lparr>dims = (1, 3, 1), entries = [[[1], [7], [3]]]\<rparr> (0, 1)"
    by (simp add: frames_agree_def numeral_3_eq_3 upt_conv_Cons)
  moreover have "conv_subsampling_forward_values
      \<lparr>subsampling_name = ''striding'', sampling_num = 1, padding = 1, stride = 2,
       kernel_size = 3, ceil_mode = False, conv = [Conv2d 1 1 3 2 1, Activation ReLU],
       out = \<lparr>in_features = 1, out_features = 1\<rparr>\<rparr> (\<lambda>_. \<lparr>cweight = \<lambda>_ _ _ _. 1, cbias = \<lambda>_. 0\<rparr>)
       \<lparr>in_features = 1, out_features = 1, weight = [[1]], bias = [0]\<rparr>
       \<lparr>dims = (1, 3, 1), entries = [[[1], [2], [3 :: int]]]\<rparr> [3] =
      Inr (\<lparr>dims = (1, 2, 1), entries = [[[3], [5]]]\<rparr>, [2])"
    using example_forward3 [of 1 2 3] by simp
  moreover have "conv_subsampling_forward_values
      \<lparr>subsampling_name = ''striding'', sampling_num = 1, padding = 1, stride = 2,
       kernel_size = 3, ceil_mode = False, conv = [Conv2d 1 1 3 2 1, Activation ReLU],
       out = \<lparr>in_features = 1, out_features = 1\<rparr>\<rparr> (\<lambda>_. \<lparr>cweight = \<lambda>_ _ _ _. 1, cbias = \<lambda>_. 0\<rparr>)
       \<lparr>in_features = 1, out_features = 1, weight = [[1]], bias = [0]\<rparr>
       \<lparr>dims = (1, 3, 1), entries = [[[1], [7], [3 :: int]]]\<rparr> [3] =
      Inr (\<lparr>dims = (1, 2, 1), entries = [[[8], [10]]]\<rparr>, [2])"
    using example_forward3 [of 1 7 3] by simp
  moreover have "entries \<lparr>dims = (1, 2, 1), entries = [[[3], [5 :: int]]]\<rparr> ! 0 ! 0 \<noteq>
                 entries \<lparr>dims = (1, 2, 1), entries = [[[8], [10 :: int]]]\<rparr> ! 0 ! 0"
    by simp
  ultimately show ?thesis
    using init_striding_2_1_1_1 by blast
qed

end
