(* ===== verification/StackingReceptiveField.thy ===== *)
theory StackingReceptiveField
  imports StackingValues ReceptiveField
begin

text \<open>
  The receptive field of \<open>StackingSubsampling.forward\<close> (lines 34--46 of
  \<open>src/chrispnet/modules/encoder/prenet/subsampling.py\<close>), stated with the predicate
  \<open>frames_agree\<close> of the convolutional analysis so that the two front-ends compare: output
  step \<open>j\<close> reads exactly the block of input frames \<open>j F .. j F + F - 1\<close>, with no
  overlap between steps and no look-ahead past the block.
\<close>

lemma padded_frame_agree:
  assumes "frames_agree x x' (lo, hi)" "dims x = (b, t, h)" "i < b" "lo \<le> int k" "int k < hi"
  shows "padded_frame x i k = padded_frame x' i k"
proof -
  have d': "dims x' = (b, t, h)" and
    e: "\<forall>r<t. lo \<le> int r \<and> int r < hi \<longrightarrow> entries x ! i ! r = entries x' ! i ! r"
    using assms(1-3) by (auto simp: frames_agree_def list_all_iff)
  show ?thesis
    using e assms(4,5) by (simp add: padded_frame_def assms(2) d')
qed

lemma stacking_block_agree:
  assumes "frames_agree x x' (int (j * factor), int (j * factor + factor))" "dims x = (b, t, h)" "i < b"
  shows "map (\<lambda>k. padded_frame x i (j * factor + k)) [0..<factor] =
         map (\<lambda>k. padded_frame x' i (j * factor + k)) [0..<factor]"
  using padded_frame_agree [OF assms(1,2,3)] by simp

section \<open>Properties\<close>

text \<open>
  C27. Receptive field of the stacking module. For the module the constructor builds with
  a positive factor \<open>F\<close>, two well-formed inputs of width \<open>feat_in\<close> that agree on input
  frames \<open>j F .. j F + F - 1\<close> both go through \<open>forward\<close>, and give the same output step
  \<open>j\<close> of every item, whatever the weights, the lengths and the other frames.
\<close>

theorem stacking_subsampling_receptive_field:
  assumes wf: "tensor3_wf x" "tensor3_wf x'" and d: "dims x = (b, t, feat_in)" and f: "0 < factor"
    and ag: "frames_agree x x' (int (j * factor), int (j * factor + factor))"
    and i: "i < b" and j: "j < t div factor + 1"
  shows "\<exists>y y' ls ls'.
           stacking_subsampling_forward_values (stacking_subsampling_init factor feat_in feat_out) d x lengths = Inr (y, ls) \<and>
           stacking_subsampling_forward_values (stacking_subsampling_init factor feat_in feat_out) d x' lengths' = Inr (y', ls') \<and>
           entries y ! i ! j = entries y' ! i ! j"
proof -
  have d': "dims x' = (b, t, feat_in)" using ag d by (simp add: frames_agree_def)
  show ?thesis
    using stacking_values_Inr [OF d f, of feat_out d lengths] stacking_values_Inr [OF d' f, of feat_out d lengths']
      stacking_forward_entries_nth [OF wf(1) d f i j, of feat_out d]
      stacking_forward_entries_nth [OF wf(2) d' f i j, of feat_out d]
      stacking_block_agree [OF ag d i]
    by simp
qed

theorem stacking_subsampling_receptive_field_witness:
  "tensor3_wf \<lparr>dims = (1, 3, 1), entries = [[[1], [2], [3 :: int]]]\<rparr> \<and>
   tensor3_wf \<lparr>dims = (1, 3, 1), entries = [[[1], [2], [9 :: int]]]\<rparr> \<and>
   frames_agree \<lparr>dims = (1, 3, 1), entries = [[[1], [2], [3 :: int]]]\<rparr>
     \<lparr>dims = (1, 3, 1), entries = [[[1], [2], [9]]]\<rparr> (int (0 * 2), int (0 * 2 + 2)) \<and>
   (\<exists>y y' ls ls'.
      stacking_subsampling_forward_values (stacking_subsampling_init 2 1 1)
        \<lparr>in_features = 2, out_features = 1, weight = [[1, 10]], bias = [0]\<rparr>
        \<lparr>dims = (1, 3, 1), entries = [[[1], [2], [3 :: int]]]\<rparr> [3] = Inr (y, ls) \<and>
      stacking_subsampling_forward_values (stacking_subsampling_init 2 1 1)
        \<lparr>in_features = 2, out_features = 1, weight = [[1, 10]], bias = [0]\<rparr>
        \<lparr>dims = (1, 3, 1), entries = [[[1], [2], [9 :: int]]]\<rparr> [3] = Inr (y', ls') \<and>
      entries y ! 0 ! 0 = entries y' ! 0 ! 0)"
proof -
  have wf: "tensor3_wf \<lparr>dims = (1, 3, 1), entries = [[[1], [2], [3 :: int]]]\<rparr>"
    "tensor3_wf \<lparr>dims = (1, 3, 1), entries = [[[1], [2], [9 :: int]]]\<rparr>"
    by (simp_all add: tensor3_wf_def)
  have ag: "frames_agree \<lparr>dims = (1, 3, 1), entries = [[[1], [2], [3 :: int]]]\<rparr>
     \<lparr>dims = (1, 3, 1), entries = [[[1], [2], [9]]]\<rparr> (int (0 * 2), int (0 * 2 + 2))"
    by (simp add: frames_agree_def numeral_3_eq_3 upt_conv_Cons)
  show ?thesis
    using wf ag stacking_subsampling_receptive_field [where b = 1 and t = 3 and feat_in = 1 and factor = 2
        and j = 0 and i = 0 and feat_out = 1 and lengths = "[3]" and lengths' = "[3]"
        and d = "\<lparr>in_features = 2, out_features = 1, weight = [[1, 10]], bias = [0]\<rparr>",
        OF wf _ _ ag]
    by simp
qed

end
