(* ===== verification/PackageInfo.thy ===== *)
theory PackageInfo
  imports Prelude
begin

text \<open>
  The package metadata of \<open>src/chrispnet/package_info.py\<close>: the version numbers, the
  version tuple \<open>VERSION\<close> and the two version strings built from it with Python's
  \<open>str\<close> on integers and \<open>str.join\<close>, and the descriptive constants. \<open>py_str_nat\<close> and
  \<open>py_str_int\<close> print an integer in decimal as \<open>str\<close> does (a minus sign, then the
  digits of the magnitude, no leading zero); \<open>py_join\<close> is \<open>sep.join\<close>. The parser
  \<open>parse_version\<close> is not code of the repository: it reads a version string back and
  states what the string determines. The lemmas show that printing an integer can be
  read back, that the version string determines the version tuple whenever the
  pre-release tag does not start with a digit, and that it does not otherwise.
\<close>

section \<open>Python's \<open>str\<close> on integers and \<open>str.join\<close>\<close>

definition digit_char :: "nat \<Rightarrow> char" where
  "digit_char d = char_of (48 + d)"

fun py_str_nat :: "nat \<Rightarrow> string" where
  "py_str_nat n = (if n < 10 then [digit_char n] else py_str_nat (n div 10) @ [digit_char (n mod 10)])"

declare py_str_nat.simps [simp del]

definition py_str_int :: "int \<Rightarrow> string" where
  "py_str_int i = (if i < 0 then CHR ''-'' # py_str_nat (nat (- i)) else py_str_nat (nat i))"

fun py_join :: "string \<Rightarrow> string list \<Rightarrow> string" where
  "py_join sep [] = []"
| "py_join sep [x] = x"
| "py_join sep (x # y # xs) = x @ sep @ py_join sep (y # xs)"

section \<open>The module's constants\<close>

definition MAJOR :: int where "MAJOR = 0"
definition MINOR :: int where "MINOR = 1"
definition PATCH :: int where "PATCH = 0"
definition PRE_RELEASE :: string where "PRE_RELEASE = ''rc0''"

text \<open>\<open>VERSION = (MAJOR, MINOR, PATCH, PRE_RELEASE)\<close>: a tuple of three integers and a
  string. \<open>VERSION[:3]\<close> is the three integers and \<open>"".join(VERSION[3:])\<close> is the
  pre-release string itself.\<close>

type_synonym version = "int \<times> int \<times> int \<times> string"

definition VERSION :: version where
  "VERSION = (MAJOR, MINOR, PATCH, PRE_RELEASE)"

definition shortversion :: "version \<Rightarrow> string" where
  "shortversion v = (case v of (ma, mi, pa, pre) \<Rightarrow> py_join ''.'' (map py_str_int [ma, mi, pa]))"

definition version_string :: "version \<Rightarrow> string" where
  "version_string v =
     (case v of (ma, mi, pa, pre) \<Rightarrow> py_join ''.'' (map py_str_int [ma, mi, pa]) @ py_join '''' [pre])"

definition package_name :: string where "package_name = ''chrispnet''"
definition contact_names :: string where "contact_names = ''Eesung Kim''"
definition contact_emails :: string where "contact_emails = ''eesungk@gmail.com''"
definition homepage :: string where "homepage = ''''"
definition repository_url :: string where "repository_url = ''https://github.com/eesungkim/e2e_asr''"
definition download_url :: string where "download_url = ''https://github.com/eesungkim/''"
definition description :: string where "description = ''Personal Library for Conversational AI''"
definition license :: string where "license = ''Apache2''"
definition keywords_str :: string where "keywords_str = ''''"

section \<open>Reading a version string back\<close>

definition digit_val :: "char \<Rightarrow> nat option" where
  "digit_val c = (let k = of_char c in if 48 \<le> k \<and> k < 58 then Some (k - 48) else None)"

definition starts_digit :: "string \<Rightarrow> bool" where
  "starts_digit s = (case s of [] \<Rightarrow> False | c # _ \<Rightarrow> digit_val c \<noteq> None)"

fun parse_digits :: "nat \<Rightarrow> string \<Rightarrow> nat \<times> string" where
  "parse_digits acc [] = (acc, [])"
| "parse_digits acc (c # cs) =
     (case digit_val c of Some d \<Rightarrow> parse_digits (10 * acc + d) cs | None \<Rightarrow> (acc, c # cs))"

definition parse_nat :: "string \<Rightarrow> (nat \<times> string) option" where
  "parse_nat s = (if starts_digit s then Some (parse_digits 0 s) else None)"

definition parse_int :: "string \<Rightarrow> (int \<times> string) option" where
  "parse_int s =
     (case s of
        c # s' \<Rightarrow>
          if c = CHR ''-'' then map_option (\<lambda>(n, r). (- int n, r)) (parse_nat s')
          else map_option (\<lambda>(n, r). (int n, r)) (parse_nat s)
      | [] \<Rightarrow> None)"

definition parse_dot :: "string \<Rightarrow> string option" where
  "parse_dot s = (case s of c # r \<Rightarrow> if c = CHR ''.'' then Some r else None | [] \<Rightarrow> None)"

definition parse_version :: "string \<Rightarrow> version option" where
  "parse_version s =
     (case parse_int s of None \<Rightarrow> None | Some (ma, r1) \<Rightarrow>
      case parse_dot r1 of None \<Rightarrow> None | Some r2 \<Rightarrow>
      case parse_int r2 of None \<Rightarrow> None | Some (mi, r3) \<Rightarrow>
      case parse_dot r3 of None \<Rightarrow> None | Some r4 \<Rightarrow>
      case parse_int r4 of None \<Rightarrow> None | Some (pa, pre) \<Rightarrow> Some (ma, mi, pa, pre))"

section \<open>Lemmas\<close>

lemma digit_val_digit_char [simp]: "d < 10 \<Longrightarrow> digit_val (digit_char d) = Some d"
  by (simp add: digit_val_def digit_char_def)

lemma digit_char_values [eval_simps]:
  "digit_char 0 = CHR ''0''" "digit_char 1 = CHR ''1''" "digit_char 2 = CHR ''2''"
  "digit_char 3 = CHR ''3''" "digit_char 4 = CHR ''4''" "digit_char 5 = CHR ''5''"
  "digit_char 6 = CHR ''6''" "digit_char 7 = CHR ''7''" "digit_char 8 = CHR ''8''"
  "digit_char 9 = CHR ''9''" "digit_char (Suc 0) = CHR ''1''"
  unfolding digit_char_def by code_simp+

lemma digit_val_minus [simp]: "digit_val CHR ''-'' = None"
  by (simp add: digit_val_def)

lemma digit_val_dot [simp]: "digit_val CHR ''.'' = None"
  by (simp add: digit_val_def)

lemma digit_char_not_sign [simp]: "d < 10 \<Longrightarrow> digit_char d \<noteq> CHR ''-''"
  by (metis digit_val_digit_char digit_val_minus option.distinct(1))

lemma py_str_nat_nonempty: "\<exists>c cs. py_str_nat n = c # cs \<and> digit_val c \<noteq> None"
proof (induction n rule: py_str_nat.induct)
  case (1 n)
  then show ?case by (subst py_str_nat.simps) auto
qed

lemma starts_digit_append:
  "starts_digit (py_str_nat n @ rest)" "\<not> starts_digit (CHR ''-'' # s)" "\<not> starts_digit (CHR ''.'' # s)"
  using py_str_nat_nonempty [of n] by (auto simp: starts_digit_def)

text \<open>Reading a run of digits from an accumulator, and stopping at the first character
  that is not a digit.\<close>

definition digit_step :: "nat \<Rightarrow> char \<Rightarrow> nat" where
  "digit_step acc c = 10 * acc + the (digit_val c)"

lemma parse_digits_stop: "\<not> starts_digit rest \<Longrightarrow> parse_digits acc rest = (acc, rest)"
  by (cases rest) (auto simp: starts_digit_def split: option.splits)

lemma parse_digits_append:
  "list_all (\<lambda>c. digit_val c \<noteq> None) ds \<Longrightarrow>
   parse_digits acc (ds @ rest) = parse_digits (foldl digit_step acc ds) rest"
  by (induction ds arbitrary: acc) (auto simp: digit_step_def)

lemma py_str_nat_digits: "list_all (\<lambda>c. digit_val c \<noteq> None) (py_str_nat n)"
proof (induction n rule: py_str_nat.induct)
  case (1 n)
  then show ?case by (subst py_str_nat.simps) auto
qed

lemma digit_step_digit_char [simp]: "d < 10 \<Longrightarrow> digit_step acc (digit_char d) = 10 * acc + d"
  by (simp add: digit_step_def)

lemma foldl_py_str_nat: "foldl digit_step 0 (py_str_nat n) = n"
proof (induction n rule: py_str_nat.induct)
  case (1 n)
  then show ?case by (subst py_str_nat.simps) simp
qed

lemma parse_digits_py_str_nat:
  "\<not> starts_digit rest \<Longrightarrow> parse_digits 0 (py_str_nat n @ rest) = (n, rest)"
  using parse_digits_append [OF py_str_nat_digits, of 0 n rest]
  by (simp add: foldl_py_str_nat parse_digits_stop)

lemma parse_nat_py_str_nat:
  "\<not> starts_digit rest \<Longrightarrow> parse_nat (py_str_nat n @ rest) = Some (n, rest)"
  by (simp add: parse_nat_def starts_digit_append parse_digits_py_str_nat)

lemma parse_int_py_str_int:
  assumes "\<not> starts_digit rest"
  shows "parse_int (py_str_int i @ rest) = Some (i, rest)"
proof (cases "i < 0")
  case True
  then show ?thesis
    using assms by (simp add: py_str_int_def parse_int_def parse_nat_py_str_nat)
next
  case False
  obtain c cs where s: "py_str_nat (nat i) = c # cs" and c: "digit_val c \<noteq> None"
    using py_str_nat_nonempty by blast
  then have "c \<noteq> CHR ''-''" by auto
  then show ?thesis
    using assms False s parse_nat_py_str_nat [OF assms, of "nat i"]
    by (simp add: py_str_int_def parse_int_def)
qed

text \<open>Appending a digit to the printed form of a non-zero number prints another number.\<close>

lemma py_str_nat_append_digit:
  "0 < n \<Longrightarrow> d < 10 \<Longrightarrow> py_str_nat (10 * n + d) = py_str_nat n @ [digit_char d]"
  by (subst py_str_nat.simps) simp

lemma py_str_int_append_digit:
  assumes "i \<noteq> 0" "d < 10"
  shows "py_str_int (if 0 < i then 10 * i + int d else 10 * i - int d) = py_str_int i @ [digit_char d]"
proof (cases "0 < i")
  case True
  then have "nat (10 * i + int d) = 10 * nat i + d" by simp
  with True assms show ?thesis by (simp add: py_str_int_def py_str_nat_append_digit)
next
  case False
  with assms(1) have "i < 0" by simp
  moreover have "nat (- (10 * i - int d)) = 10 * nat (- i) + d" using \<open>i < 0\<close> by simp
  ultimately show ?thesis using assms by (simp add: py_str_int_def py_str_nat_append_digit)
qed

lemma digit_val_Some: "digit_val c = Some d \<Longrightarrow> d < 10 \<and> c = digit_char d"
  by (auto simp: digit_val_def digit_char_def Let_def split: if_splits)

lemma parse_dot_Cons [simp]: "parse_dot (CHR ''.'' # s) = Some s"
  by (simp add: parse_dot_def)

lemma version_string_eq:
  "version_string (ma, mi, pa, pre) =
     py_str_int ma @ CHR ''.'' # py_str_int mi @ CHR ''.'' # py_str_int pa @ pre"
  by (simp add: version_string_def py_join.simps)

section \<open>Properties\<close>

text \<open>
  C19. The version string can be read back. For every version tuple whose pre-release tag
  does not start with a digit, \<open>parse_version\<close> recovers the tuple from the string
  \<open>__version__\<close> the module builds, negative numbers included.
\<close>

theorem version_string_roundtrip:
  assumes "\<not> starts_digit pre"
  shows "parse_version (version_string (ma, mi, pa, pre)) = Some (ma, mi, pa, pre)"
  using assms
  by (simp add: version_string_eq parse_version_def parse_int_py_str_int starts_digit_append
)

theorem version_string_roundtrip_witness:
  "\<not> starts_digit PRE_RELEASE \<and> parse_version (version_string VERSION) = Some VERSION"
proof -
  have pre: "\<not> starts_digit PRE_RELEASE"
    by (simp add: PRE_RELEASE_def starts_digit_def digit_val_def)
  then show ?thesis
    using version_string_roundtrip [OF pre, of MAJOR MINOR PATCH] by (simp add: VERSION_def)
qed

text \<open>
  C20. The version string is ambiguous when the pre-release tag starts with a digit. The
  pre-release string is appended to the patch number with no separator, so for a non-zero
  patch number a tag \<open>d ...\<close> beginning with a digit \<open>d\<close> prints the same
  \<open>__version__\<close> as the patch number with \<open>d\<close> appended and the rest of the tag: two
  different version tuples, one string.
\<close>

theorem version_string_ambiguous:
  assumes "starts_digit pre" "pa \<noteq> 0"
  shows "\<exists>pa' pre'. (pa', pre') \<noteq> (pa, pre) \<and>
           version_string (ma, mi, pa', pre') = version_string (ma, mi, pa, pre)"
proof -
  obtain c rest d where pre: "pre = c # rest" and dv: "digit_val c = Some d"
    using assms(1) by (auto simp: starts_digit_def split: list.splits)
  have d: "d < 10" "c = digit_char d" using digit_val_Some [OF dv] by auto
  let ?pa' = "if 0 < pa then 10 * pa + int d else 10 * pa - int d"
  have "version_string (ma, mi, ?pa', rest) = version_string (ma, mi, pa, pre)"
    using py_str_int_append_digit [OF assms(2) d(1)] pre d(2) by (simp add: version_string_eq)
  moreover have "(?pa', rest) \<noteq> (pa, pre)" using pre by simp
  ultimately show ?thesis by blast
qed

theorem version_string_ambiguous_witness:
  "starts_digit ''0'' \<and> (1::int) \<noteq> 0 \<and>
   (\<exists>pa' pre'. (pa', pre') \<noteq> (1, ''0'') \<and>
      version_string (0, 1, pa', pre') = version_string (0, 1, 1, ''0''))"
proof -
  have s: "starts_digit ''0''" by (simp add: starts_digit_def digit_val_def)
  show ?thesis using version_string_ambiguous [OF s, of 1 0 1] s by simp
qed

end
