(* ===== verification/Spec2Isabelle.thy ===== *)
theory Spec2Isabelle
  imports StackingReceptiveField PackageInfo
begin

text \<open>
  \<^bold>\<open>Verification of the subsampling layers of chrispnet.\<close>

  \<^emph>\<open>The program.\<close> \<open>src/chrispnet/modules/encoder/prenet/subsampling.py\<close> holds the
  two subsampling front-ends of a speech encoder and their length arithmetic. Both take a
  batch of feature sequences of shape \<open>(B, T, D)\<close> and a vector of valid lengths, and
  return a shorter sequence \<open>(B, T', feat_out)\<close> with recomputed lengths:
  \<^item> \<open>StackingSubsampling\<close> (lines 21--46) pads the time axis to a multiple of the factor,
    stacks consecutive frames and projects them with one \<open>nn.Linear\<close>;
  \<^item> \<open>ConvSubsampling\<close> (lines 49--167) builds, at construction, a stack of 2-D
    convolutions (strategy \<open>"striding"\<close>) or convolutions and max-pools (\<open>"vggnet"\<close>),
    one stride-2 stage per factor of two, and a projection sized by \<open>calc_length\<close>;
    \<open>forward\<close> runs the stack and recomputes the lengths with \<open>calc_length\<close>;
  \<^item> \<open>calc_length\<close> (lines 170--180) is the float loop both uses of the length rule call;
  \<^item> the \<open>__main__\<close> block (lines 183--212) runs the striding module on a fixed input.
  \<open>src/chrispnet/package_info.py\<close> holds version metadata and
  \<open>src/test/modules/encoder/test_conformer_encoder_nemo.py\<close> a test of an encoder class
  that the repository does not contain.

  \<^emph>\<open>The theories.\<close>
  \<^item> \<open>Prelude\<close>: the \<open>error\<close> datatype (Python's \<open>ValueError\<close>, \<open>ZeroDivisionError\<close>,
    PyTorch's \<open>RuntimeError\<close>; every exception is a value \<open>Inl e\<close> of \<open>'a result\<close>),
    tensor shapes, Python's truncating \<open>int()\<close> (\<open>py_int\<close>), division rounding up
    (\<open>ceil_div\<close>), \<open>int(math.log(n, 2))\<close> as the exact floor logarithm \<open>ilog2\<close>,
    and the shared floor/ceiling/division lemmas (collections \<open>div_simps\<close> and
    \<open>eval_simps\<close>).
  \<^item> \<open>CalcLength\<close>: \<open>calc_length\<close> as the source writes it (\<open>calc_length_step\<close>,
    \<open>calc_length_loop\<close>, \<open>calc_length_elem\<close>, \<open>calc_length\<close>), over rationals; the
    reference \<open>out_size\<close> is the integer formula \<open>(n + 2p - k) / s + 1\<close> rounded down or
    up. Lemmas: for a positive stride the loop equals the formula iterated (C2),
    monotonicity and bounds (C11), both strategies halve a length rounding up.
  \<^item> \<open>Torch\<close>: the shapes of the PyTorch layers the modules use (\<open>Conv2d\<close>,
    \<open>MaxPool2d\<close>, activations, \<open>Sequential\<close>, \<open>Linear\<close>, \<open>reshape\<close>) with their shape
    errors, in the order PyTorch checks them (for \<open>Conv2d\<close>: a weight with no output
    channel, then the input's channels, then a kernel larger than the padded input).
    This is the library's behaviour, not repository code.
  \<^item> \<open>StackingSubsampling\<close>: record \<open>stacking_subsampling\<close> (\<open>subsampling_factor\<close>,
    \<open>proj_out\<close>), \<open>stacking_subsampling_init\<close> (\<open>__init__\<close>),
    \<open>stacking_subsampling_forward\<close> (\<open>forward\<close>). Lemmas: output shape (C5), length
    bounds (C6), the whole block of padding when the factor divides \<open>T\<close> (C7), errors (C15),
    the new length as \<open>l div F + [T mod F \<le> l mod F]\<close> for whole-number lengths (C26),
    and the lengths' monotonicity (\<open>stacking_lengths_mono\<close>, used by C29).
  \<^item> \<open>Tensor\<close>: tensor values as nested lists (record \<open>tensor3\<close>, \<open>tensor3_wf\<close>),
    \<open>F.pad\<close> on the time axis (\<open>pad_time\<close>), a row-major \<open>reshape\<close> (\<open>flat3\<close>,
    \<open>split_list\<close>, \<open>reshape3_val\<close>) and \<open>nn.Linear\<close> with its weights (record
    \<open>dense\<close> extending \<open>linear\<close>, \<open>dense_apply\<close>), with the lemmas on cutting a
    concatenation of equal-length pieces.
  \<^item> \<open>StackingValues\<close>: \<open>StackingSubsampling.forward\<close> on tensor values
    (\<open>stacking_forward_entries\<close>, \<open>stacking_subsampling_forward_values\<close>). Lemmas:
    output step \<open>j\<close> of item \<open>i\<close> is the projection of input frames
    \<open>jF, ..., jF+F-1\<close> side by side, zero frames past the end (C16); when \<open>F\<close> divides \<open>T\<close> the
    extra step is pure padding (the projection's bias) yet counted in a full item's new
    length (C22).
  \<^item> \<open>ConvSubsampling\<close>: record \<open>conv_subsampling\<close> (one field per attribute
    \<open>__init__\<close> sets), \<open>vggnet_layers\<close>/\<open>striding_layers\<close> (the construction loops),
    \<open>conv_stack\<close> (the strategy branch), \<open>conv_subsampling_init\<close>, \<open>conv_lengths\<close>,
    \<open>conv_subsampling_forward\<close>. Lemmas: the reported lengths agree with the tensor's time
    size (C1), \<open>T' = ceil(T / factor)\<close> for power-of-two factors (C3), length bounds (C4)
    (these three for a channel width \<open>C > 0\<close>), construction errors (C8), factor 6
    accepted (C9), no check of the input width (C12), an empty batch rejected by the
    reshape (C13), the two strategies giving the same shapes and lengths on integer
    lengths (C17) but not on fractional ones (C18), an empty time or feature axis
    rejected by the first convolution (C23), and a module built with \<open>C = 0\<close> that
    raises on every call (C28).
  \<^item> \<open>ConvValues\<close>: \<open>ConvSubsampling.forward\<close> on tensor values. 4-D tensors
    (record \<open>tensor4\<close>, \<open>tensor4_wf\<close>, built by \<open>tabulate4\<close>), \<open>nn.Conv2d\<close> with zero
    padding (\<open>conv2d_val\<close>, weights \<open>conv_param\<close>), \<open>nn.MaxPool2d\<close> over the part of
    each window inside the input (\<open>maxpool2d_val\<close>), \<open>nn.ReLU\<close> (\<open>act_fn\<close>,
    \<open>activation_val\<close>), \<open>nn.Sequential\<close> (\<open>sequential_val\<close>, the weights of layer
    \<open>i\<close> being \<open>ps i\<close>), \<open>unsqueeze(1)\<close>, \<open>transpose(1, 2).reshape(b, t, -1)\<close>
    (\<open>transpose_reshape\<close>) and \<open>conv_subsampling_forward_values\<close>. Every layer checks
    its input with, and takes its output sizes from, the shape model, so sizes and
    errors agree with the shape model by construction (working lemmas
    \<open>layer_val_dims\<close>, \<open>sequential_val_dims\<close>, \<open>sequential_val_wf\<close>). Claim: the
    features reaching the projection are non-negative for every module built with
    \<open>nn.ReLU\<close> (C21).
  \<^item> \<open>ReceptiveField\<close>: which input frames an output step of
    \<open>ConvSubsampling.forward\<close> reads. \<open>agree_rows\<close> (two tensors with the same rows in
    a band), \<open>rows_after\<close>/\<open>rows_after_seq\<close> (the band of output rows whose windows lie
    in a band, through a layer and through a stack) and \<open>receptive_field\<close> (the band of
    each strategy). Lemmas: every layer maps agreeing bands to agreeing bands, one stage
    halves a band, so output step \<open>j\<close> depends only on the frames of
    \<open>receptive_field name R j\<close> (C24); and it does depend on frames after the present
    one (C25).
  \<^item> \<open>StackingReceptiveField\<close>: the same question for \<open>StackingSubsampling.forward\<close>,
    with the same \<open>frames_agree\<close>. A padded frame depends only on the input frame of the
    same index (\<open>padded_frame_agree\<close>), so output step \<open>j\<close> depends only on the block
    \<open>j F .. j F + F - 1\<close> (C27): the blocks do not overlap and no step reads a later
    frame, where the convolutional front-end's windows overlap and look ahead (C24, C25).
  \<^item> \<open>PackageInfo\<close>: \<open>src/chrispnet/package_info.py\<close>. The version numbers
    (\<open>MAJOR\<close>, \<open>MINOR\<close>, \<open>PATCH\<close>, \<open>PRE_RELEASE\<close>), the tuple \<open>VERSION\<close>, the
    strings \<open>__shortversion__\<close> and \<open>__version__\<close> (\<open>shortversion\<close>,
    \<open>version_string\<close>) built with Python's \<open>str\<close> on integers (\<open>py_str_int\<close>) and
    \<open>str.join\<close> (\<open>py_join\<close>), and the descriptive strings. A reader
    \<open>parse_version\<close> states what the version string determines. Lemmas: the string
    reads back to the tuple when the pre-release tag does not start with a digit (C19),
    and two tuples print the same string otherwise (C20).
  \<^item> this theory: the \<open>__main__\<close> scenario (\<open>main_model\<close>, \<open>main_run\<close>, C10), and the
    interface both modules offer the encoder: a datatype \<open>subsampler\<close> of the two, their
    common \<open>subsampler_forward\<close>, the predicate \<open>constructed\<close> (built by its constructor
    from a valid configuration, with at least one convolution channel) and the contract
    \<open>forward_contract\<close> that both implement (C14); and both keep the order of the
    lengths in a batch (C29).

  \<^emph>\<open>Modelling choices.\<close> Both modules are modelled on shapes and lengths (what the
  spec is about) and on tensor values, the entries being of an abstract type (a
  commutative semiring with a linear order for \<open>ConvSubsampling\<close>, an ordered domain
  for C21, a semiring for \<open>StackingSubsampling\<close>): the theorems hold for exact arithmetic and do
  not depend on the entries' type. Weights are parameters of the value models (a
  \<open>dense\<close> for each \<open>nn.Linear\<close>, a \<open>conv_param\<close> for each \<open>nn.Conv2d\<close>), since
  their values come from training, not from the code. Float tensors of lengths are rationals: for the values
  in play (integers below \<open>2^24\<close>, halved by a power of two, plus small constants)
  float32 arithmetic is exact, so the rational model computes what the code computes;
  larger lengths are outside the model. \<open>int(math.log(f, 2))\<close> is modelled as the exact
  floor of \<open>log2 f\<close>; Python's float logarithm agrees with it on powers of two and on the
  factors used in practice. Sizes (\<open>feat_in\<close>, \<open>feat_out\<close>, \<open>conv_channels\<close>, the
  stacking factor, tensor dimensions) are natural numbers; the convolutional factor is an
  \<open>int\<close> so that its checks (\<open>% 2\<close>, \<open>math.log\<close> of a non-positive number) are
  modelled. No loop of the program is unbounded: \<open>calc_length\<close> runs \<open>repeat_num\<close>
  times and the construction loops \<open>sampling_num\<close> times, so they are structural
  recursions and no fuel is needed.

  \<^emph>\<open>Not modelled.\<close> Floating-point rounding of tensor entries (the value models compute
  exactly), the int32 range of the cast lengths, negative sizes passed to the
  constructors, activations other than \<open>nn.ReLU\<close> in the value model (the shape model
  takes any), the exact text of PyTorch's error messages (abbreviated), and the test file (it imports a class that is not in the repository, so
  there is no code under test to model).
\<close>

section \<open>The \<open>__main__\<close> scenario\<close>

text \<open>Lines 183--212: the striding module with factor 4, 80 input features, 320 output
  features and 256 channels, run on a \<open>(4, 1600, 80)\<close> batch with lengths
  \<open>[1600, 324, 1, 666]\<close>.\<close>

definition main_model :: "activation conv_subsampling result" where
  "main_model = conv_subsampling_init ''striding'' 4 80 320 256 ReLU"

definition main_run :: "(shape3 \<times> int list) result" where
  "main_run =
     (case main_model of
        Inl e \<Rightarrow> Inl e
      | Inr model \<Rightarrow> conv_subsampling_forward model (4, 1600, 80) [1600, 324, 1, 666])"

section \<open>The interface the encoder consumes\<close>

text \<open>Both modules are called the same way by the encoder: a shape and a length vector
  in, a shape and a length vector out. The convolutional module returns integer lengths,
  which the interface reads as numbers like the stacking module's.\<close>

datatype 'act subsampler =
    Stacking stacking_subsampling
  | Conv "'act conv_subsampling"

fun subsampler_forward :: "'act subsampler \<Rightarrow> shape3 \<Rightarrow> rat list \<Rightarrow> (shape3 \<times> rat list) result" where
  "subsampler_forward (Stacking m) x ls = stacking_subsampling_forward m x ls"
| "subsampler_forward (Conv m) x ls =
     (case conv_subsampling_forward m x ls of
        Inl e \<Rightarrow> Inl e
      | Inr (y, ls') \<Rightarrow> Inr (y, map of_int ls'))"

text \<open>A module as its constructor builds it from a valid configuration, for \<open>feat_in\<close>
  input and \<open>feat_out\<close> output features; the convolutional module with an internal channel
  width of at least one (with none, every call raises: \<open>conv_subsampling_zero_channels\<close>).\<close>

inductive constructed :: "nat \<Rightarrow> nat \<Rightarrow> 'act subsampler \<Rightarrow> bool" where
  stacking: "0 < factor \<Longrightarrow>
    constructed feat_in feat_out (Stacking (stacking_subsampling_init factor feat_in feat_out))"
| conv: "conv_subsampling_init name factor feat_in feat_out C act = Inr m \<Longrightarrow> 0 < C \<Longrightarrow>
    constructed feat_in feat_out (Conv m)"

text \<open>What the encoder relies on: the call succeeds, keeps the batch size, returns a
  non-empty time axis of \<open>feat_out\<close> features, one length per input length, and every
  length within the new time axis.\<close>

definition forward_contract :: "nat \<Rightarrow> shape3 \<Rightarrow> rat list \<Rightarrow> (shape3 \<times> rat list) result \<Rightarrow> bool" where
  "forward_contract feat_out x ls r =
     (case (x, r) of
        (_, Inl _) \<Rightarrow> False
      | ((b, t, d), Inr ((b', t', f'), ls')) \<Rightarrow>
          b' = b \<and> 0 < t' \<and> f' = feat_out \<and> length ls' = length ls \<and>
          list_all (\<lambda>l'. 0 \<le> l' \<and> l' \<le> of_nat t') ls')"

text \<open>What a constructed subsampler returns on a non-empty batch of its width whose lengths
  lie in \<open>[0, T]\<close>.\<close>

lemma subsampler_forward_Inr:
  assumes "constructed feat_in feat_out s" "0 < B" "0 < T" "0 < feat_in"
    and "\<forall>l\<in>set ls. 0 \<le> l \<and> l \<le> of_nat T"
  shows "\<exists>t' ls'. subsampler_forward s (B, T, feat_in) ls = Inr ((B, t', feat_out), ls') \<and> 0 < t' \<and>
           length ls' = length ls \<and> list_all (\<lambda>l'. 0 \<le> l' \<and> l' \<le> of_nat t') ls'"
  using assms(1)
proof (cases rule: constructed.cases)
  case (stacking factor)
  then show ?thesis
    using stacking_forward_Inr [of factor feat_in feat_out B T ls]
      stacking_lengths_map_bounded [OF _ assms(5)]
    by (simp add: list_all_iff)
next
  case (conv name factor C act m)
  let ?t = "(half_up ^^ sampling_num m) T"
  have fwd: "conv_subsampling_forward m (B, T, feat_in) ls = Inr ((B, ?t, feat_out), conv_lengths m ls)"
    using conv_subsampling_forward_Inr [OF conv(2) assms(2,3,4) conv(3)] by simp
  have "0 \<le> (of_int x :: rat) \<and> (of_int x :: rat) \<le> of_nat ?t" if "x \<in> set (conv_lengths m ls)" for x
  proof -
    have "0 \<le> x \<and> x \<le> int ?t" using conv_lengths_bounded [OF conv(2) assms(5)] that by blast
    then show ?thesis by (rule of_int_bounds)
  qed
  then have "\<forall>l'\<in>set (map of_int (conv_lengths m ls)). 0 \<le> l' \<and> l' \<le> (of_nat ?t :: rat)"
    by auto
  moreover have "0 < ?t" using assms(3) by (rule funpow_half_up_pos)
  ultimately show ?thesis
    using fwd conv(1) by (simp add: conv_lengths_def calc_length_def list_all_iff)
qed


section \<open>Properties\<close>

text \<open>
  C10. The \<open>__main__\<close> scenario. The striding module with factor 4 maps the
  \<open>(4, 1600, 80)\<close> batch to shape \<open>(4, 400, 320)\<close> and the lengths
  \<open>[1600, 324, 1, 666]\<close> to \<open>[400, 81, 1, 167]\<close>. The comment on line 212 gives the
  shape as \<open>[4, 400, 256]\<close>: the last size is \<open>feat_out = 320\<close>, not 256.
\<close>

theorem main_run_output: "main_run = Inr ((4, 400, 320), [400, 81, 1, 167])"
proof -
  let ?m = "\<lparr>subsampling_name = ''striding'', sampling_num = 2, padding = 1, stride = 2,
      kernel_size = 3, ceil_mode = False, conv = striding_layers 1 256 3 2 1 ReLU 2,
      out = \<lparr>in_features = 5120, out_features = 320\<rparr>\<rparr>"
  have init: "conv_subsampling_init ''striding'' 4 80 320 256 ReLU = Inr ?m"
    by (simp add: conv_subsampling_init_def conv_stack_def eval_simps ceil_div_def)
  have "conv_subsampling_forward ?m (4, 1600, 80) [1600, 324, 1, 666] =
          Inr ((4, (half_up ^^ 2) 1600, 320), conv_lengths ?m [1600, 324, 1, 666])"
    using conv_subsampling_forward_Inr [OF init, of 4 1600 80] by simp
  then show ?thesis
    using init by (simp add: main_run_def main_model_def half_up_def conv_lengths_def
        calc_length_def eval_simps ceil_div_def)
qed

text \<open>
  C14. Both modules implement the encoder's contract. Whichever subsampler the
  constructors build for \<open>feat_in\<close> input and \<open>feat_out\<close> output features, a call on a
  non-empty \<open>(B, T, feat_in)\<close> batch whose lengths lie in \<open>[0, T]\<close> succeeds, keeps the
  batch size, returns a non-empty time axis of \<open>feat_out\<close> features and one length per
  input length, each within the new time axis.
\<close>

theorem subsampler_contract:
  assumes "constructed feat_in feat_out s" "0 < B" "0 < T" "0 < feat_in"
    and "\<forall>l\<in>set ls. 0 \<le> l \<and> l \<le> of_nat T"
  shows "forward_contract feat_out (B, T, feat_in) ls (subsampler_forward s (B, T, feat_in) ls)"
  using assms(1)
  using subsampler_forward_Inr [OF assms] by (auto simp: forward_contract_def)

theorem subsampler_contract_witness:
  "forward_contract 32 (2, 50, 80) [50, 7] (subsampler_forward
     (Conv \<lparr>subsampling_name = ''striding'', sampling_num = 2, padding = 1, stride = 2,
      kernel_size = 3, ceil_mode = False, conv = striding_layers 1 4 3 2 1 ReLU 2,
      out = \<lparr>in_features = 80, out_features = 32\<rparr>\<rparr>) (2, 50, 80) [50, 7]) \<and>
   forward_contract 32 (2, 50, 80) [50, 7]
     (subsampler_forward (Stacking (stacking_subsampling_init 4 80 32)) (2, 50, 80) [50, 7])"
proof -
  have c: "constructed 80 32 (Conv \<lparr>subsampling_name = ''striding'', sampling_num = 2, padding = 1,
      stride = 2, kernel_size = 3, ceil_mode = False, conv = striding_layers 1 4 3 2 1 ReLU 2,
      out = \<lparr>in_features = 80, out_features = 32\<rparr>\<rparr>)"
    by (rule constructed.conv [OF init_striding_4_80_32_4]) simp
  have s: "constructed 80 32 (Stacking (stacking_subsampling_init 4 80 32) :: activation subsampler)"
    by (rule constructed.stacking) simp
  have l: "\<forall>l\<in>set [50, 7 :: rat]. 0 \<le> l \<and> l \<le> of_nat 50" by simp
  show ?thesis
    using subsampler_contract [OF c, of 2 50 "[50, 7]"] subsampler_contract [OF s, of 2 50 "[50, 7]"] l
    by simp
qed



end
